(* ===== verification/Prelude.thy ===== *)
theory Prelude
  imports Complex_Main "HOL-Library.Sublist"
begin

text \<open>
  Shared vocabulary of the development.
  \<^item> \<open>'e + 'a\<close> is a computation of the handler that may raise a Python exception
    (\<open>Inl\<close>) or return a value (\<open>Inr\<close>); \<open>ebind\<close> sequences two of them, stopping at
    the first exception as the interpreter does, and \<open>emap\<close>/\<open>efilter\<close> are the
    loops of the source (a dict literal evaluated field by field, a list comprehension).
  \<^item> \<open>('e, 'c, 'a) io\<close> is a computation that additionally issues calls to external
    services (Earth Engine, the weather API): the pair of its outcome and the list of calls it
    issued, in order. \<open>io_call srv c\<close> issues call \<open>c\<close> and returns what the
    service \<open>srv\<close> answers; \<open>io_bind\<close> appends the calls of the two halves and
    skips the second half after an exception.
  \<^item> simplification rules for the floor of a rational numeral quotient, so that rounding
    a concrete value evaluates by \<open>simp\<close>.
  The collection \<open>py_simps\<close> gathers the evaluation rules of the Python runtime model
  and \<open>io_simps\<close> those of the monad.
\<close>

named_theorems py_simps "evaluation rules of the Python runtime model"
named_theorems io_simps "evaluation rules of the call-recording monad"

section \<open>Definitions\<close>

definition ebind :: "'e + 'a \<Rightarrow> ('a \<Rightarrow> 'e + 'b) \<Rightarrow> 'e + 'b" where
  "ebind r f = (case r of Inl e \<Rightarrow> Inl e | Inr a \<Rightarrow> f a)"

fun emap :: "('a \<Rightarrow> 'e + 'b) \<Rightarrow> 'a list \<Rightarrow> 'e + 'b list" where
  "emap f [] = Inr []"
| "emap f (x # xs) = ebind (f x) (\<lambda>y. ebind (emap f xs) (\<lambda>ys. Inr (y # ys)))"

fun efilter :: "('a \<Rightarrow> 'e + bool) \<Rightarrow> 'a list \<Rightarrow> 'e + 'a list" where
  "efilter p [] = Inr []"
| "efilter p (x # xs) =
     ebind (p x) (\<lambda>b. ebind (efilter p xs) (\<lambda>ys. Inr (if b then x # ys else ys)))"

type_synonym ('e, 'c, 'a) io = "('e + 'a) \<times> 'c list"

definition io_return :: "'a \<Rightarrow> ('e, 'c, 'a) io" where
  "io_return a = (Inr a, [])"

definition io_lift :: "'e + 'a \<Rightarrow> ('e, 'c, 'a) io" where
  "io_lift r = (r, [])"

definition io_call :: "('c \<Rightarrow> 'e + 'a) \<Rightarrow> 'c \<Rightarrow> ('e, 'c, 'a) io" where
  "io_call srv c = (srv c, [c])"

definition io_bind :: "('e, 'c, 'a) io \<Rightarrow> ('a \<Rightarrow> ('e, 'c, 'b) io) \<Rightarrow> ('e, 'c, 'b) io" where
  "io_bind m f = (case fst m of
                    Inl e \<Rightarrow> (Inl e, snd m)
                  | Inr a \<Rightarrow> (fst (f a), snd m @ snd (f a)))"

section \<open>Lemmas\<close>

lemma ebind_Inl [simp]: "ebind (Inl e) f = Inl e"
  by (simp add: ebind_def)

lemma ebind_Inr [simp]: "ebind (Inr a) f = f a"
  by (simp add: ebind_def)

lemma ebind_eq_Inr_iff: "ebind r f = Inr b \<longleftrightarrow> (\<exists>a. r = Inr a \<and> f a = Inr b)"
  by (cases r) auto

lemma ebind_eq_Inl_iff:
  "ebind r f = Inl e \<longleftrightarrow> r = Inl e \<or> (\<exists>a. r = Inr a \<and> f a = Inl e)"
  by (cases r) auto

lemma ebind_assoc: "ebind (ebind r f) g = ebind r (\<lambda>a. ebind (f a) g)"
  by (cases r) auto

lemma ebind_cong [fundef_cong]:
  "r = r' \<Longrightarrow> (\<And>a. r' = Inr a \<Longrightarrow> f a = f' a) \<Longrightarrow> ebind r f = ebind r' f'"
  by (cases r) auto

lemma emap_pure: "(\<And>x. x \<in> set xs \<Longrightarrow> f x = Inr (g x)) \<Longrightarrow> emap f xs = Inr (map g xs)"
  by (induction xs) auto

lemma emap_Inr_length: "emap f xs = Inr ys \<Longrightarrow> length ys = length xs"
  by (induction xs arbitrary: ys) (auto simp: ebind_eq_Inr_iff)

lemma emap_Inr_nth:
  "emap f xs = Inr ys \<Longrightarrow> i < length xs \<Longrightarrow> f (xs ! i) = Inr (ys ! i)"
proof (induction xs arbitrary: ys i)
  case Nil
  then show ?case by simp
next
  case (Cons x xs)
  then obtain y ys' where "f x = Inr y" "emap f xs = Inr ys'" "ys = y # ys'"
    by (auto simp: ebind_eq_Inr_iff)
  with Cons show ?case by (cases i) auto
qed

lemma efilter_pure:
  "(\<And>x. x \<in> set xs \<Longrightarrow> p x = Inr (q x)) \<Longrightarrow> efilter p xs = Inr (filter q xs)"
  by (induction xs) auto

lemma io_bind_Inl [io_simps]: "io_bind (Inl e, t) f = (Inl e, t)"
  by (simp add: io_bind_def)

lemma io_bind_Inr [io_simps]: "io_bind (Inr a, t) f = (fst (f a), t @ snd (f a))"
  by (simp add: io_bind_def)

lemma io_return_bind [io_simps]: "io_bind (io_return a) f = f a"
  by (simp add: io_bind_def io_return_def)

lemma io_lift_bind [io_simps]:
  "io_bind (io_lift r) f = (case r of Inl e \<Rightarrow> (Inl e, []) | Inr a \<Rightarrow> f a)"
  by (cases r) (simp_all add: io_bind_def io_lift_def)

lemma io_call_bind [io_simps]:
  "io_bind (io_call srv c) f =
     (case srv c of Inl e \<Rightarrow> (Inl e, [c]) | Inr a \<Rightarrow> (fst (f a), c # snd (f a)))"
  by (cases "srv c") (simp_all add: io_bind_def io_call_def)

lemma io_bind_assoc:
  "io_bind (io_bind m f) g = io_bind m (\<lambda>a. io_bind (f a) g)"
  by (cases m; cases "fst m") (auto simp: io_bind_def split: sum.splits)

lemmas io_defs = io_return_def io_lift_def io_call_def

lemma floor_numeral_div_rat [simp]:
  "\<lfloor>numeral a / numeral b :: rat\<rfloor> = numeral a div numeral b"
  by (metis floor_divide_of_int_eq of_int_numeral)

lemma floor_neg_numeral_div_rat [simp]:
  "\<lfloor>- numeral a / numeral b :: rat\<rfloor> = - numeral a div numeral b"
  by (metis floor_divide_of_int_eq of_int_minus of_int_numeral)


section \<open>Lists and maps\<close>

lemma map_of_map_keys:
  "map_of (map (\<lambda>k. (k, f k)) ks) k = (if k \<in> set ks then Some (f k) else None)"
  by (induction ks) auto

lemma sum_list_lower:
  "(\<And>v. v \<in> set vs \<Longrightarrow> lo \<le> v) \<Longrightarrow> of_nat (length vs) * lo \<le> sum_list (vs :: rat list)"
  by (induction vs) (auto simp: algebra_simps intro: add_mono)

lemma sum_list_upper:
  "(\<And>v. v \<in> set vs \<Longrightarrow> v \<le> hi) \<Longrightarrow> sum_list (vs :: rat list) \<le> of_nat (length vs) * hi"
  by (induction vs) (auto simp: algebra_simps intro: add_mono)

lemma in_set_map_filter:
  "v \<in> set (List.map_filter f xs) \<longleftrightarrow> (\<exists>x \<in> set xs. f x = Some v)"
  by (induction xs) (auto simp: map_filter_simps split: option.splits)


lemma sort_eq_Nil_iff [simp]: "sort vs = [] \<longleftrightarrow> vs = []"
  by (metis length_0_conv length_sort)

lemma map_sum_Inr_iff: "map_sum f g x = Inr y \<longleftrightarrow> (\<exists>z. x = Inr z \<and> y = g z)"
  by (cases x) auto

end
