(* ===== verification/PyRound.thy ===== *)
theory PyRound
  imports Prelude
begin

text \<open>
  Python's \<open>round(x, n)\<close> on a float (server.py, \<open>safe_val\<close>, line 87) rounds the
  exact value of \<open>x\<close> to the nearest multiple of \<open>10^-n\<close>, ties to the even
  multiple (CPython's \<open>float.__round__\<close> rounds the correctly computed decimal
  expansion). Floats are modelled as the exact rationals they denote, so
  \<open>round_to x n\<close> is the rounding of that rational. This theory holds the rounding
  and what makes it correct: its error is at most half a unit in the last place, it
  fixes every value that already has at most \<open>n\<close> decimals, is monotone
  and symmetric, and resolves ties to even.
\<close>

definition round_half_even :: "rat \<Rightarrow> int" where
  "round_half_even x =
     (let f = \<lfloor>x\<rfloor>; d = x - of_int f
      in if d < 1/2 then f else if 1/2 < d then f + 1 else if even f then f else f + 1)"

definition round_to :: "rat \<Rightarrow> nat \<Rightarrow> rat" where
  "round_to x n = of_int (round_half_even (x * 10 ^ n)) / 10 ^ n"

section \<open>Rounding to an integer\<close>

lemma round_half_even_cases:
  obtains "x - of_int \<lfloor>x\<rfloor> < 1/2" "round_half_even x = \<lfloor>x\<rfloor>"
  | "1/2 < x - of_int \<lfloor>x\<rfloor>" "round_half_even x = \<lfloor>x\<rfloor> + 1"
  | "x - of_int \<lfloor>x\<rfloor> = 1/2" "round_half_even x = (if even \<lfloor>x\<rfloor> then \<lfloor>x\<rfloor> else \<lfloor>x\<rfloor> + 1)"
  unfolding round_half_even_def Let_def by (cases "x - of_int \<lfloor>x\<rfloor> < 1/2"; cases "1/2 < x - of_int \<lfloor>x\<rfloor>") auto

lemma round_half_even_of_int [simp]: "round_half_even (of_int k) = k"
  by (simp add: round_half_even_def)

lemma round_half_even_error: "\<bar>of_int (round_half_even x) - x\<bar> \<le> 1/2"
proof -
  have "0 \<le> x - of_int \<lfloor>x\<rfloor>" "x - of_int \<lfloor>x\<rfloor> < 1"
    by linarith+
  then show ?thesis
    by (cases x rule: round_half_even_cases) auto
qed

lemma round_half_even_eqI:
  assumes "\<bar>of_int k - x\<bar> < 1/2"
  shows "round_half_even x = k"
proof -
  have e: "\<bar>of_int (round_half_even x) - x\<bar> \<le> 1/2" by (rule round_half_even_error)
  have "\<bar>of_int (round_half_even x) - of_int k\<bar> < (1::rat)"
    using assms e by linarith
  then show ?thesis by simp
qed

lemma round_half_even_tie:
  "round_half_even (of_int k + 1/2) = (if even k then k else k + 1)"
proof -
  have "\<lfloor>of_int k + 1/2 :: rat\<rfloor> = k" by (simp add: floor_eq_iff)
  then show ?thesis by (simp add: round_half_even_def)
qed

lemma round_half_even_even_on_tie:
  "x - of_int \<lfloor>x\<rfloor> = 1/2 \<Longrightarrow> even (round_half_even x)"
  by (cases x rule: round_half_even_cases) auto

lemma round_half_even_uminus: "round_half_even (- x) = - round_half_even x"
proof (cases "x - of_int \<lfloor>x\<rfloor> = 1/2")
  case True
  then have x: "x = of_int \<lfloor>x\<rfloor> + 1/2" by simp
  have "- x = of_int (- \<lfloor>x\<rfloor> - 1) + 1/2" using x by simp
  then have "round_half_even (- x) = (if even (- \<lfloor>x\<rfloor> - 1) then - \<lfloor>x\<rfloor> - 1 else - \<lfloor>x\<rfloor>)"
    using round_half_even_tie [of "- \<lfloor>x\<rfloor> - 1"] by simp
  moreover have "round_half_even x = (if even \<lfloor>x\<rfloor> then \<lfloor>x\<rfloor> else \<lfloor>x\<rfloor> + 1)"
    using round_half_even_tie [of "\<lfloor>x\<rfloor>"] x by simp
  ultimately show ?thesis by auto
next
  case False
  have e: "\<bar>of_int (round_half_even x) - x\<bar> \<le> 1/2" by (rule round_half_even_error)
  have "\<bar>of_int (round_half_even x) - x\<bar> \<noteq> 1/2"
  proof
    assume h: "\<bar>of_int (round_half_even x) - x\<bar> = 1/2"
    have "0 \<le> x - of_int \<lfloor>x\<rfloor>" "x - of_int \<lfloor>x\<rfloor> < 1" by linarith+
    with h False show False by (cases x rule: round_half_even_cases) auto
  qed
  with e have "\<bar>of_int (round_half_even x) - x\<bar> < 1/2" by (rule order_le_neq_trans)
  then have "\<bar>of_int (- round_half_even x) - (- x)\<bar> < 1/2" by linarith
  then show ?thesis by (rule round_half_even_eqI)
qed

lemma round_half_even_mono:
  assumes "x \<le> y"
  shows "round_half_even x \<le> round_half_even y"
proof (rule ccontr)
  assume "\<not> ?thesis"
  then have lt: "round_half_even y + 1 \<le> round_half_even x" by simp
  have ex: "\<bar>of_int (round_half_even x) - x\<bar> \<le> 1/2"
    and ey: "\<bar>of_int (round_half_even y) - y\<bar> \<le> 1/2"
    by (rule round_half_even_error)+
  from lt have "of_int (round_half_even y) + 1 \<le> (of_int (round_half_even x) :: rat)"
    by (metis of_int_1 of_int_add of_int_le_iff)
  with ex ey assms have "x = y" by linarith
  with lt show False by simp
qed

section \<open>Rounding to \<open>n\<close> decimals\<close>

text \<open>\<open>round(x, n)\<close> is within \<open>1/(2*10^n)\<close> of \<open>x\<close>.\<close>

lemma round_to_error: "\<bar>round_to x n - x\<bar> \<le> 1 / (2 * 10 ^ n)"
proof -
  let ?p = "(10::rat) ^ n"
  have p: "0 < ?p" by simp
  have "\<bar>of_int (round_half_even (x * ?p)) - x * ?p\<bar> \<le> 1/2"
    by (rule round_half_even_error)
  then have "\<bar>of_int (round_half_even (x * ?p)) - x * ?p\<bar> / ?p \<le> (1/2) / ?p"
    by (rule divide_right_mono) (use p in simp)
  moreover have "\<bar>of_int (round_half_even (x * ?p)) - x * ?p\<bar> / ?p = \<bar>round_to x n - x\<bar>"
    using p by (simp add: round_to_def abs_div_pos diff_divide_distrib)
  ultimately show ?thesis by simp
qed

lemma round_to_of_int_scaled [simp]: "round_to (of_int k / 10 ^ n) n = of_int k / 10 ^ n"
  by (simp add: round_to_def)

lemma round_to_scaled: "\<exists>k. round_to x n = of_int k / 10 ^ n"
  by (auto simp: round_to_def)

lemma round_to_fixed:
  assumes "x * 10 ^ n = of_int k"
  shows "round_to x n = x"
proof -
  have "x = of_int k / 10 ^ n" using assms by (simp add: eq_divide_eq)
  then show ?thesis by simp
qed

lemma round_to_uminus: "round_to (- x) n = - round_to x n"
  by (simp add: round_to_def round_half_even_uminus)

lemma round_to_mono: "x \<le> y \<Longrightarrow> round_to x n \<le> round_to y n"
  unfolding round_to_def
  by (intro divide_right_mono) (simp_all add: round_half_even_mono)

lemma round_to_0 [simp]: "round_to 0 n = 0"
  using round_to_of_int_scaled [of 0 n] by simp

lemma round_to_1 [simp]: "round_to 1 n = 1"
  using round_to_fixed [of 1 n "10 ^ n"] by simp

lemma round_to_neg1 [simp]: "round_to (- 1) n = - 1"
  by (simp add: round_to_uminus)

lemma round_to_within:
  "lo \<le> x \<Longrightarrow> x \<le> hi \<Longrightarrow> round_to lo n = lo \<Longrightarrow> round_to hi n = hi \<Longrightarrow>
   lo \<le> round_to x n \<and> round_to x n \<le> hi"
  by (metis round_to_mono)

end
