(* ===== verification/PyValue.thy ===== *)
theory PyValue
  imports PyRound
begin

text \<open>
  The Python runtime as far as server.py relies on it. Every value the handler touches
  comes from JSON (the request body via Flask's \<open>request.get_json()\<close>, the crop-range
  file via \<open>json.load\<close>, Earth Engine results via \<open>getInfo()\<close>, the weather reply
  via \<open>requests\<close>' \<open>.json()\<close>), so a value is one of the types JSON decodes to:
  \<open>None\<close>, \<open>bool\<close>, \<open>int\<close>, \<open>float\<close> (as the rational it denotes), \<open>str\<close>,
  \<open>list\<close> and \<open>dict\<close> (an association list; a Python dict has distinct keys, which
  \<open>wf_pyval\<close> states). Strings are lists of code points below 256; the case mappings
  are those of ASCII, which is what \<open>str.lower\<close> and \<open>str.capitalize\<close> do on ASCII
  text.

  Each built-in the source calls is one definition returning \<open>exc + _\<close>: the
  exception Python raises, with the message \<open>str(e)\<close> that the handler's
  \<open>except\<close> clause returns (CPython 3.12 wording), or the value.
\<close>

datatype pyval =
    PNone
  | PBool bool
  | PInt int
  | PFloat rat
  | PStr string
  | PList "pyval list"
  | PDict "(string \<times> pyval) list"

text \<open>Exceptions the handler can meet. \<open>LibraryError\<close> is one raised inside a library
  the source calls (Werkzeug's HTTP exceptions from \<open>get_json\<close>, \<open>ee.EEException\<close>,
  \<open>requests\<close>' connection and decoding errors), carried with its message.\<close>

datatype exc =
    AttributeError string
  | TypeError string
  | ValueError string
  | LibraryError string

primrec exc_str :: "exc \<Rightarrow> string" where
  "exc_str (AttributeError m) = m"
| "exc_str (TypeError m) = m"
| "exc_str (ValueError m) = m"
| "exc_str (LibraryError m) = m"

definition squote :: char where
  "squote = CHR 0x27"

definition quoted :: "string \<Rightarrow> string" where
  "quoted s = squote # s @ [squote]"

fun type_name :: "pyval \<Rightarrow> string" where
  "type_name PNone = ''NoneType''"
| "type_name (PBool b) = ''bool''"
| "type_name (PInt i) = ''int''"
| "type_name (PFloat r) = ''float''"
| "type_name (PStr s) = ''str''"
| "type_name (PList xs) = ''list''"
| "type_name (PDict kvs) = ''dict''"

text \<open>A dict has distinct keys, at every depth.\<close>

fun wf_pyval :: "pyval \<Rightarrow> bool" where
  "wf_pyval (PList xs) = list_all wf_pyval xs"
| "wf_pyval (PDict kvs) = (distinct (map fst kvs) \<and> list_all (\<lambda>kv. wf_pyval (snd kv)) kvs)"
| "wf_pyval v = True"

section \<open>Decimal text of integers\<close>

fun nat_str :: "nat \<Rightarrow> string" where
  "nat_str n =
     (if n < 10 then [char_of (48 + n)] else nat_str (n div 10) @ [char_of (48 + n mod 10)])"

declare nat_str.simps [simp del]

definition int_str :: "int \<Rightarrow> string" where
  "int_str i = (if i < 0 then CHR ''-'' # nat_str (nat (- i)) else nat_str (nat i))"

section \<open>Attribute access and truth\<close>

definition no_attribute :: "pyval \<Rightarrow> string \<Rightarrow> exc" where
  "no_attribute v a =
     AttributeError (quoted (type_name v) @ '' object has no attribute '' @ quoted a)"

text \<open>\<open>v.get(k, d)\<close>: only a dict has the method.\<close>

definition dict_get :: "(string \<times> pyval) list \<Rightarrow> string \<Rightarrow> pyval \<Rightarrow> pyval" where
  "dict_get kvs k d = (case map_of kvs k of None \<Rightarrow> d | Some v \<Rightarrow> v)"

fun py_get :: "pyval \<Rightarrow> string \<Rightarrow> pyval \<Rightarrow> exc + pyval" where
  "py_get (PDict kvs) k d = Inr (dict_get kvs k d)"
| "py_get v k d = Inl (no_attribute v ''get'')"

text \<open>\<open>bool(v)\<close>, as \<open>if not v\<close> tests it.\<close>

fun truthy :: "pyval \<Rightarrow> bool" where
  "truthy PNone = False"
| "truthy (PBool b) = b"
| "truthy (PInt i) = (i \<noteq> 0)"
| "truthy (PFloat r) = (r \<noteq> 0)"
| "truthy (PStr s) = (s \<noteq> [])"
| "truthy (PList xs) = (xs \<noteq> [])"
| "truthy (PDict kvs) = (kvs \<noteq> [])"

section \<open>Strings\<close>

definition lower_char :: "char \<Rightarrow> char" where
  "lower_char c = (if (65::nat) \<le> of_char c \<and> of_char c \<le> (90::nat) then char_of (of_char c + (32::nat)) else c)"

definition upper_char :: "char \<Rightarrow> char" where
  "upper_char c = (if (97::nat) \<le> of_char c \<and> of_char c \<le> (122::nat) then char_of (of_char c - (32::nat)) else c)"

text \<open>\<open>v.lower()\<close>: a method of \<open>str\<close> only.\<close>

fun py_lower :: "pyval \<Rightarrow> exc + string" where
  "py_lower (PStr s) = Inr (map lower_char s)"
| "py_lower v = Inl (no_attribute v ''lower'')"

text \<open>\<open>s.capitalize()\<close> (Python 3.8 and later): the first character in title case,
  the rest in lower case.\<close>

fun capitalize :: "string \<Rightarrow> string" where
  "capitalize [] = []"
| "capitalize (c # cs) = upper_char c # map lower_char cs"

section \<open>Numbers\<close>

text \<open>The numeric value of \<open>bool\<close>, \<open>int\<close> and \<open>float\<close>, which Python compares
  exactly with one another.\<close>

fun num_of :: "pyval \<Rightarrow> rat option" where
  "num_of (PBool b) = Some (if b then 1 else 0)"
| "num_of (PInt i) = Some (of_int i)"
| "num_of (PFloat r) = Some r"
| "num_of v = None"

datatype cmp_op = Lt | Le

primrec cmp_sym :: "cmp_op \<Rightarrow> string" where
  "cmp_sym Lt = ''<''"
| "cmp_sym Le = ''<=''"

primrec cmp_rat :: "cmp_op \<Rightarrow> rat \<Rightarrow> rat \<Rightarrow> bool" where
  "cmp_rat Lt x y = (x < y)"
| "cmp_rat Le x y = (x \<le> y)"

text \<open>\<open>a < b\<close> and \<open>a <= b\<close> where one operand is a number (in server.py one side
  of every comparison is the rounded NDVI mean, see \<open>py_round_num\<close>): numbers compare
  by value, and a number against \<open>None\<close>, a string, a list or a dict raises.\<close>

definition py_compare :: "cmp_op \<Rightarrow> pyval \<Rightarrow> pyval \<Rightarrow> exc + bool" where
  "py_compare op a b =
     (case (num_of a, num_of b) of
        (Some x, Some y) \<Rightarrow> Inr (cmp_rat op x y)
      | _ \<Rightarrow> Inl (TypeError (quoted (cmp_sym op) @ '' not supported between instances of '' @
                            quoted (type_name a) @ '' and '' @ quoted (type_name b))))"

text \<open>\<open>round(v, n)\<close>: an \<open>int\<close> (and a \<open>bool\<close>, an \<open>int\<close> subclass) comes back
  as the same \<open>int\<close>, a \<open>float\<close> is rounded half to even, anything else raises.\<close>

fun py_round :: "pyval \<Rightarrow> nat \<Rightarrow> exc + pyval" where
  "py_round (PBool b) n = Inr (PInt (if b then 1 else 0))"
| "py_round (PInt i) n = Inr (PInt i)"
| "py_round (PFloat r) n = Inr (PFloat (round_to r n))"
| "py_round v n = Inl (TypeError (''type '' @ type_name v @ '' doesn't define __round__ method''))"

text \<open>\<open>v == 0\<close> and friends: equal to a number only if numeric and of that value.\<close>

definition py_eq_num :: "pyval \<Rightarrow> rat \<Rightarrow> bool" where
  "py_eq_num v x = (num_of v = Some x)"

section \<open>Iteration\<close>

text \<open>What \<open>for x in v\<close> yields: list elements, the characters of a string, the keys
  of a dict; \<open>None\<close> when \<open>v\<close> is not iterable.\<close>

fun iter_items :: "pyval \<Rightarrow> pyval list option" where
  "iter_items (PList xs) = Some xs"
| "iter_items (PStr s) = Some (map (\<lambda>c. PStr [c]) s)"
| "iter_items (PDict kvs) = Some (map (\<lambda>kv. PStr (fst kv)) kvs)"
| "iter_items v = None"

text \<open>\<open>a, b = v\<close>.\<close>

definition py_unpack2 :: "pyval \<Rightarrow> exc + pyval \<times> pyval" where
  "py_unpack2 v =
     (case iter_items v of
        None \<Rightarrow> Inl (TypeError (''cannot unpack non-iterable '' @ type_name v @ '' object''))
      | Some xs \<Rightarrow>
          if length xs = 2 then Inr (xs ! 0, xs ! 1)
          else if length xs < 2
          then Inl (ValueError (''not enough values to unpack (expected 2, got '' @
                                nat_str (length xs) @ '')''))
          else Inl (ValueError ''too many values to unpack (expected 2)''))"

text \<open>\<open>s in v\<close> for a string \<open>s\<close>: element test of a list, substring test of a
  string, key test of a dict; other values raise.\<close>

fun py_contains :: "string \<Rightarrow> pyval \<Rightarrow> exc + bool" where
  "py_contains s (PList xs) = Inr (PStr s \<in> set xs)"
| "py_contains s (PStr t) = Inr (sublist s t)"
| "py_contains s (PDict kvs) = Inr (s \<in> set (map fst kvs))"
| "py_contains s v = Inl (TypeError (''argument of type '' @ quoted (type_name v) @ '' is not iterable''))"

section \<open>Lemmas\<close>

lemma dict_get_simps [simp]:
  "map_of kvs k = None \<Longrightarrow> dict_get kvs k d = d"
  "map_of kvs k = Some v \<Longrightarrow> dict_get kvs k d = v"
  by (simp_all add: dict_get_def)

lemma dict_get_Nil [simp]: "dict_get [] k d = d"
  by (simp add: dict_get_def)

lemma dict_get_Cons [simp]: "dict_get ((k', v) # kvs) k d = (if k = k' then v else dict_get kvs k d)"
  by (simp add: dict_get_def)

lemma py_get_Inr_iff: "py_get v k d = Inr w \<longleftrightarrow> (\<exists>kvs. v = PDict kvs \<and> w = dict_get kvs k d)"
  by (cases v) auto

lemma py_get_not_dict: "(\<And>kvs. v \<noteq> PDict kvs) \<Longrightarrow> py_get v k d = Inl (no_attribute v ''get'')"
  by (cases v) auto

lemma py_lower_Inr_iff: "py_lower v = Inr w \<longleftrightarrow> (\<exists>s. v = PStr s \<and> w = map lower_char s)"
  by (cases v) auto

lemma py_compare_num [py_simps]:
  "num_of a = Some x \<Longrightarrow> num_of b = Some y \<Longrightarrow> py_compare op a b = Inr (cmp_rat op x y)"
  by (simp add: py_compare_def)

lemma py_compare_right_not_num:
  "num_of b = None \<Longrightarrow>
   py_compare op a b = Inl (TypeError (quoted (cmp_sym op) @ '' not supported between instances of '' @
                                      quoted (type_name a) @ '' and '' @ quoted (type_name b)))"
  by (simp add: py_compare_def split: option.splits)

lemma py_compare_left_not_num:
  "num_of a = None \<Longrightarrow>
   py_compare op a b = Inl (TypeError (quoted (cmp_sym op) @ '' not supported between instances of '' @
                                      quoted (type_name a) @ '' and '' @ quoted (type_name b)))"
  by (simp add: py_compare_def split: option.splits)

lemma py_compare_Inr_iff:
  "py_compare op a b = Inr c \<longleftrightarrow> (\<exists>x y. num_of a = Some x \<and> num_of b = Some y \<and> c = cmp_rat op x y)"
  by (auto simp: py_compare_def split: option.splits)

text \<open>What \<open>round\<close> returns is a number, so comparing it with a number never raises.\<close>

lemma py_round_num: "py_round v n = Inr w \<Longrightarrow> num_of w \<noteq> None"
  by (cases v) auto

lemma py_round_float [py_simps]: "py_round (PFloat r) n = Inr (PFloat (round_to r n))"
  by simp

lemma py_round_Inr_iff:
  "py_round v n = Inr w \<longleftrightarrow>
     (\<exists>r. v = PFloat r \<and> w = PFloat (round_to r n)) \<or> (\<exists>i. v = PInt i \<and> w = PInt i) \<or>
     (\<exists>b. v = PBool b \<and> w = PInt (if b then 1 else 0))"
  by (cases v) auto

lemma py_round_not_num:
  "num_of v = None \<Longrightarrow> py_round v n = Inl (TypeError (''type '' @ type_name v @ '' doesn't define __round__ method''))"
  by (cases v) auto

lemma py_unpack2_pair [py_simps]: "py_unpack2 (PList [a, b]) = Inr (a, b)"
  by (simp add: py_unpack2_def)

lemma py_unpack2_Inr_iff:
  "py_unpack2 v = Inr p \<longleftrightarrow> (\<exists>xs. iter_items v = Some xs \<and> length xs = 2 \<and> p = (xs ! 0, xs ! 1))"
  by (auto simp: py_unpack2_def split: option.splits)

lemma py_contains_list [py_simps]: "py_contains s (PList xs) = Inr (PStr s \<in> set xs)"
  by simp

lemma py_eq_num_float [py_simps]: "py_eq_num (PFloat r) x \<longleftrightarrow> r = x"
  and py_eq_num_int [py_simps]: "py_eq_num (PInt i) x \<longleftrightarrow> of_int i = x"
  by (simp_all add: py_eq_num_def)

lemma lower_char_idem: "lower_char (lower_char c) = lower_char c"
  by (simp add: lower_char_def)

lemma map_lower_char_idem: "map lower_char (map lower_char s) = map lower_char s"
  by (simp add: lower_char_idem)

lemma truthy_str [py_simps]: "truthy (PStr s) \<longleftrightarrow> s \<noteq> []"
  by simp

lemma nat_str_nonempty: "nat_str n \<noteq> []"
  by (subst nat_str.simps) simp

lemma nat_str_digit [py_simps]: "n < 10 \<Longrightarrow> nat_str n = [char_of (48 + n)]"
  by (subst nat_str.simps) simp

lemma nat_str_step [py_simps]:
  "\<not> n < 10 \<Longrightarrow> nat_str n = nat_str (n div 10) @ [char_of (48 + n mod 10)]"
  by (subst nat_str.simps) simp

end
