(* ===== verification/PyRepr.thy ===== *)
theory PyRepr
  imports PyValue
begin

text \<open>
  \<open>repr()\<close> and \<open>str()\<close> of the values of \<open>PyValue\<close>, as server.py uses them in
  f-strings: the \<open>Missing bands\<close> message (line 58), the \<open>healthy_range\<close> text
  (line 129) and the weather URL built from the centroid (lines 92--96).

  A float is shown as CPython's \<open>float_repr_style = 'short'\<close> does: the shortest
  decimal digit string \<open>ds\<close> of the value and the position \<open>decpt\<close> of its decimal
  point; fixed notation when \<open>-4 < decpt \<le> 16\<close> (with \<open>.0\<close> added to a whole
  number), exponent notation otherwise (\<open>1e-05\<close>, \<open>1.5e+16\<close>). A float is modelled
  by the rational its shortest repr denotes, so the digits are those of the rational's
  finite decimal expansion (every binary float has one). A string is quoted as
  \<open>unicode_repr\<close> does for code points below 256.
\<close>

section \<open>Floats\<close>

fun count_factor :: "nat \<Rightarrow> nat \<Rightarrow> nat" where
  "count_factor p n = (if p \<le> 1 \<or> n = 0 \<or> n mod p \<noteq> 0 then 0 else Suc (count_factor p (n div p)))"

declare count_factor.simps [simp del]

fun strip_zeros :: "nat \<Rightarrow> nat \<times> nat" where
  "strip_zeros m =
     (if m \<noteq> 0 \<and> m mod 10 = 0 then (let (m', z) = strip_zeros (m div 10) in (m', Suc z)) else (m, 0))"

declare strip_zeros.simps [simp del]

text \<open>For \<open>r > 0\<close> with a finite decimal expansion: \<open>(m, e)\<close> with
  \<open>r = m * 10^e\<close> and \<open>m\<close> not a multiple of 10.\<close>

definition decimal_parts :: "rat \<Rightarrow> nat \<times> int" where
  "decimal_parts r =
     (let (p, q) = quotient_of r;
          k = max (count_factor 2 (nat q)) (count_factor 5 (nat q));
          (m, z) = strip_zeros (nat (p * 10 ^ k div q))
      in (m, int z - int k))"

definition fixed_repr :: "string \<Rightarrow> int \<Rightarrow> string" where
  "fixed_repr ds decpt =
     (if decpt \<le> 0 then ''0.'' @ replicate (nat (- decpt)) (CHR ''0'') @ ds
      else if decpt < int (length ds) then take (nat decpt) ds @ ''.'' @ drop (nat decpt) ds
      else ds @ replicate (nat decpt - length ds) (CHR ''0'') @ ''.0'')"

definition sci_repr :: "string \<Rightarrow> int \<Rightarrow> string" where
  "sci_repr ds ex =
     take 1 ds @ (if 1 < length ds then ''.'' @ drop 1 ds else []) @ ''e'' @
     (if ex < 0 then ''-'' else ''+'') @
     (let es = nat_str (nat \<bar>ex\<bar>) in if length es < 2 then ''0'' @ es else es)"

definition float_repr :: "rat \<Rightarrow> string" where
  "float_repr r =
     (if r = 0 then ''0.0''
      else let (m, e) = decimal_parts \<bar>r\<bar>;
               ds = nat_str m;
               decpt = int (length ds) + e;
               body = (if decpt \<le> -4 \<or> 16 < decpt then sci_repr ds (decpt - 1) else fixed_repr ds decpt)
           in if r < 0 then CHR ''-'' # body else body)"

section \<open>Strings\<close>

definition backslash :: char where
  "backslash = CHR 0x5C"

definition dquote :: char where
  "dquote = CHR 0x22"

definition hex_digit :: "nat \<Rightarrow> char" where
  "hex_digit n = (if n < 10 then char_of (48 + n) else char_of (87 + n))"

text \<open>One character inside quotes \<open>q\<close>: the quote and the backslash escaped, tab,
  newline and carriage return by name, other C0 and C1 controls, \<open>DEL\<close>, no-break space
  and soft hyphen (the code points below 256 that are not printable) in \<open>\x\<close> form.\<close>

definition repr_char :: "char \<Rightarrow> char \<Rightarrow> string" where
  "repr_char q c =
     (let n = (of_char c :: nat) in
      if c = q \<or> c = backslash then [backslash, c]
      else if n = 9 then [backslash, CHR ''t'']
      else if n = 10 then [backslash, CHR ''n'']
      else if n = 13 then [backslash, CHR ''r'']
      else if n < 32 \<or> n = 127 \<or> (128 \<le> n \<and> n \<le> 160) \<or> n = 173
      then [backslash, CHR ''x'', hex_digit (n div 16), hex_digit (n mod 16)]
      else [c])"

definition str_repr :: "string \<Rightarrow> string" where
  "str_repr s =
     (let q = (if squote \<in> set s \<and> dquote \<notin> set s then dquote else squote)
      in q # concat (map (repr_char q) s) @ [q])"

section \<open>Values\<close>

fun join_comma :: "string list \<Rightarrow> string" where
  "join_comma [] = []"
| "join_comma [s] = s"
| "join_comma (s # ss) = s @ '', '' @ join_comma ss"

primrec py_repr :: "pyval \<Rightarrow> string" where
  "py_repr PNone = ''None''"
| "py_repr (PBool b) = (if b then ''True'' else ''False'')"
| "py_repr (PInt i) = int_str i"
| "py_repr (PFloat r) = float_repr r"
| "py_repr (PStr s) = str_repr s"
| "py_repr (PList xs) = ''['' @ join_comma (map py_repr xs) @ '']''"
| "py_repr (PDict kvs) =
     ''{'' @ join_comma (map (\<lambda>(k, t). str_repr k @ '': '' @ t) (map (map_prod id py_repr) kvs)) @ ''}''"

text \<open>\<open>str(v)\<close>, which an f-string field uses: a string as it is, anything else as its
  repr.\<close>

definition py_str :: "pyval \<Rightarrow> string" where
  "py_str v = (case v of PStr s \<Rightarrow> s | _ \<Rightarrow> py_repr v)"

end
