(* ===== verification/Classify.thy ===== *)
theory Classify
  imports PyRepr
begin

text \<open>
  The crop-health decision of server.py (lines 104--110):
  \<^verbatim>\<open>
  if mean_ndvi < ndvi_min:                 -> "<Crop> shows stress ... (Unhealthy). ..."
  elif ndvi_min <= mean_ndvi <= ndvi_max:  -> "<Crop> crop appears Healthy."
  else:                                    -> "Excess greenness detected ..."
  \<close>
  \<open>assess_health\<close> evaluates the Python conditions in Python's order: the chained
  comparison is \<open>ndvi_min <= mean_ndvi and mean_ndvi <= ndvi_max\<close>, whose second half
  is evaluated only when the first holds, and each comparison raises \<open>TypeError\<close> when
  a bound is not a number (an unknown crop type gives \<open>None\<close> bounds).

  \<open>classify\<close> is the specification's three-way classification on numbers (spec
  section 4.1, step 3); \<open>assess_health_refines\<close> shows that the code implements it
  whenever the mean and both bounds are numbers.
\<close>

section \<open>The code\<close>

definition unhealthy_msg :: "string \<Rightarrow> string" where
  "unhealthy_msg crop = capitalize crop @ '' shows stress or poor vegetation (Unhealthy). OR maybe bare soil.''"

definition healthy_msg :: "string \<Rightarrow> string" where
  "healthy_msg crop = capitalize crop @ '' crop appears Healthy.''"

definition excess_msg :: string where
  "excess_msg = ''Excess greenness detected (possibly weeds or dense canopy).''"

definition assess_health :: "string \<Rightarrow> pyval \<Rightarrow> pyval \<Rightarrow> pyval \<Rightarrow> exc + string" where
  "assess_health crop mean_ndvi ndvi_min ndvi_max =
     ebind (py_compare Lt mean_ndvi ndvi_min) (\<lambda>below.
       if below then Inr (unhealthy_msg crop)
       else ebind (py_compare Le ndvi_min mean_ndvi) (\<lambda>ge_min.
         if \<not> ge_min then Inr excess_msg
         else ebind (py_compare Le mean_ndvi ndvi_max) (\<lambda>le_max.
           Inr (if le_max then healthy_msg crop else excess_msg))))"

section \<open>The specification\<close>

datatype health = Stressed | Healthy | Excess

definition classify :: "rat \<Rightarrow> rat \<Rightarrow> rat \<Rightarrow> health" where
  "classify x lo hi =
     (if x < lo then Stressed else if lo \<le> x \<and> x \<le> hi then Healthy else Excess)"

primrec health_msg :: "string \<Rightarrow> health \<Rightarrow> string" where
  "health_msg crop Stressed = unhealthy_msg crop"
| "health_msg crop Healthy = healthy_msg crop"
| "health_msg crop Excess = excess_msg"

primrec health_rank :: "health \<Rightarrow> nat" where
  "health_rank Stressed = 0"
| "health_rank Healthy = 1"
| "health_rank Excess = 2"

section \<open>Lemmas\<close>

lemma health_msg_inj:
  "health_msg crop h1 = health_msg crop h2 \<Longrightarrow> h1 = h2"
  by (cases h1; cases h2)
     (auto simp: unhealthy_msg_def healthy_msg_def excess_msg_def dest: arg_cong[where f = "\<lambda>s. take 8 (rev s)"])

lemma classify_cases:
  "classify x lo hi = Stressed \<longleftrightarrow> x < lo"
  "classify x lo hi = Healthy \<longleftrightarrow> lo \<le> x \<and> x \<le> hi"
  "classify x lo hi = Excess \<longleftrightarrow> lo \<le> x \<and> hi < x"
  by (auto simp: classify_def)

lemma assess_health_num:
  assumes "num_of m = Some x" "num_of l = Some lo" "num_of h = Some hi"
  shows "assess_health crop m l h = Inr (health_msg crop (classify x lo hi))"
  using assms by (simp add: assess_health_def py_compare_num classify_def)

lemma assess_health_below:
  assumes "num_of m = Some x" "num_of l = Some lo" "x < lo"
  shows "assess_health crop m l h = Inr (unhealthy_msg crop)"
  using assms by (simp add: assess_health_def py_compare_num)

lemma assess_health_min_not_num:
  assumes "num_of l = None"
  shows "assess_health crop m l h =
           Inl (TypeError (quoted ''<'' @ '' not supported between instances of '' @
                           quoted (type_name m) @ '' and '' @ quoted (type_name l)))"
  using assms by (simp add: assess_health_def py_compare_right_not_num)

lemma assess_health_max_not_num:
  assumes "num_of m = Some x" "num_of l = Some lo" "lo \<le> x" "num_of h = None"
  shows "assess_health crop m l h =
           Inl (TypeError (quoted ''<='' @ '' not supported between instances of '' @
                           quoted (type_name m) @ '' and '' @ quoted (type_name h)))"
  using assms by (simp add: assess_health_def py_compare_num py_compare_right_not_num)

lemma assess_health_Inr_cases:
  "assess_health crop m l h = Inr s \<Longrightarrow> s = unhealthy_msg crop \<or> s = healthy_msg crop \<or> s = excess_msg"
  by (auto simp: assess_health_def ebind_eq_Inr_iff split: if_splits)

section \<open>The classification law\<close>

text \<open>C1. With a numeric mean and numeric bounds the code's three branches are exactly the
  specification's: the status is the unhealthy message iff the mean is below
  \<open>ndvi_min\<close>, the healthy message iff it lies in \<open>[ndvi_min, ndvi_max]\<close> (both bounds
  inclusive), and the excess message iff it is at least \<open>ndvi_min\<close> and above
  \<open>ndvi_max\<close>.\<close>

theorem assess_health_trichotomy:
  assumes "num_of m = Some x" "num_of l = Some lo" "num_of h = Some hi"
  shows "(assess_health crop m l h = Inr (unhealthy_msg crop) \<longleftrightarrow> x < lo) \<and>
         (assess_health crop m l h = Inr (healthy_msg crop) \<longleftrightarrow> lo \<le> x \<and> x \<le> hi) \<and>
         (assess_health crop m l h = Inr excess_msg \<longleftrightarrow> lo \<le> x \<and> hi < x)"
proof -
  have e: "assess_health crop m l h = Inr (health_msg crop (classify x lo hi))"
    using assms by (rule assess_health_num)
  have iff: "health_msg crop (classify x lo hi) = health_msg crop c \<longleftrightarrow> classify x lo hi = c" for c
    using health_msg_inj by blast
  show ?thesis
    using e iff [of Stressed] iff [of Healthy] iff [of Excess] by (simp add: classify_cases)
qed

text \<open>The specification's boundary law (section 8) with \<open>ndvi_min = 0.2\<close> and
  \<open>ndvi_max = 0.8\<close>: 0.2 and 0.8 are healthy, 0.1999 unhealthy, 0.8001 excessive.\<close>

theorem assess_health_trichotomy_witness:
  "assess_health ''wheat'' (PFloat (2/10)) (PFloat (2/10)) (PFloat (8/10)) = Inr (healthy_msg ''wheat'') \<and>
   assess_health ''wheat'' (PFloat (8/10)) (PFloat (2/10)) (PFloat (8/10)) = Inr (healthy_msg ''wheat'') \<and>
   assess_health ''wheat'' (PFloat (1999/10000)) (PFloat (2/10)) (PFloat (8/10)) = Inr (unhealthy_msg ''wheat'') \<and>
   assess_health ''wheat'' (PFloat (8001/10000)) (PFloat (2/10)) (PFloat (8/10)) = Inr excess_msg"
  using assess_health_trichotomy [of "PFloat (2/10)" "2/10" "PFloat (2/10)" "2/10" "PFloat (8/10)" "8/10" "''wheat''"]
    assess_health_trichotomy [of "PFloat (8/10)" "8/10" "PFloat (2/10)" "2/10" "PFloat (8/10)" "8/10" "''wheat''"]
    assess_health_trichotomy [of "PFloat (1999/10000)" "1999/10000" "PFloat (2/10)" "2/10" "PFloat (8/10)" "8/10" "''wheat''"]
    assess_health_trichotomy [of "PFloat (8001/10000)" "8001/10000" "PFloat (2/10)" "2/10" "PFloat (8/10)" "8/10" "''wheat''"]
  by simp

end
