(* ===== verification/Handler.thy ===== *)
theory Handler
  imports Classify
begin

text \<open>
  The Flask route \<open>POST /analyze-farm\<close>, \<open>analyze_farm\<close> in server.py (lines 22--134),
  as a computation in the call-recording monad of \<open>Prelude\<close>.

  External services are an oracle \<open>srv :: call \<Rightarrow> exc + pyval\<close>: each \<open>call\<close> is one
  interaction of the source with a library that can fail or answer with a JSON value, in
  source order: building the Earth Engine polygon (line 38), the four \<open>getInfo()\<close>
  round trips (collection size, band names, the region means, the centroid; lines 48, 55,
  83, 90) and the weather request with its \<open>.json()\<close> decoding (line 97). The lazy
  Earth Engine expressions in between (lines 41--46, 51, 61--76) build what the server
  evaluates at those round trips; their meaning is in the theory \<open>EarthEngine\<close>.

  A \<open>return\<close> inside the \<open>try\<close> block and a raised exception both leave the block;
  \<open>flow\<close> distinguishes them, and \<open>analyze_farm\<close> turns only the exceptions into the
  500 response of the \<open>except Exception\<close> clause (lines 133--134). A response is the
  status code with the dict handed to \<open>jsonify\<close>.
\<close>

datatype call =
    MakePolygon pyval
  | CollectionSize pyval
  | BandNames pyval
  | ReduceMean pyval
  | CentroidCoords pyval
  | HttpGetJson string

type_synonym service = "call \<Rightarrow> exc + pyval"

type_synonym response = "nat \<times> pyval"

datatype flow = Raised exc | Returned response

type_synonym 'a handler = "(flow, call, 'a) io"

definition py :: "exc + 'a \<Rightarrow> 'a handler" where
  "py r = io_lift (map_sum Raised id r)"

definition remote :: "service \<Rightarrow> call \<Rightarrow> pyval handler" where
  "remote srv c = (map_sum Raised id (srv c), [c])"

definition return_if :: "bool \<Rightarrow> response \<Rightarrow> unit handler" where
  "return_if b r = (if b then (Inl (Returned r), []) else io_return ())"

definition error_body :: "string \<Rightarrow> pyval" where
  "error_body msg = PDict [(''error'', PStr msg)]"

section \<open>Reading the request (lines 25--27)\<close>

text \<open>\<open>data = request.get_json()\<close> (its failure is the \<open>Inl\<close> of the argument),
  \<open>coords = data.get("coordinates")\<close>, \<open>crop_type = data.get("crop_type", "").lower()\<close>.\<close>

definition read_request :: "exc + pyval \<Rightarrow> exc + pyval \<times> string" where
  "read_request req =
     ebind req (\<lambda>data.
     ebind (py_get data ''coordinates'' PNone) (\<lambda>coords.
     ebind (py_get data ''crop_type'' (PStr [])) (\<lambda>ct.
     ebind (py_lower ct) (\<lambda>crop. Inr (coords, crop)))))"

section \<open>Validation (lines 29--32)\<close>

definition validate :: "pyval \<Rightarrow> string \<Rightarrow> unit handler" where
  "validate coords crop =
     io_bind (return_if (\<not> truthy coords) (400, error_body ''No coordinates provided'')) (\<lambda>_.
     return_if (\<not> truthy (PStr crop)) (400, error_body ''No crop type provided''))"

section \<open>Crop range lookup (lines 34--35)\<close>

definition crop_bounds :: "pyval \<Rightarrow> string \<Rightarrow> exc + pyval \<times> pyval" where
  "crop_bounds crop_ranges crop =
     ebind (py_get crop_ranges crop (PDict [])) (\<lambda>entry.
     ebind (py_get entry ''ndvi_min'' PNone) (\<lambda>ndvi_min.
     ebind (py_get crop_ranges crop (PDict [])) (\<lambda>entry'.
     ebind (py_get entry' ''ndvi_max'' PNone) (\<lambda>ndvi_max. Inr (ndvi_min, ndvi_max)))))"

section \<open>Band check (lines 54--58)\<close>

definition required_bands :: "string list" where
  "required_bands = [''B2'', ''B3'', ''B4'', ''B8'', ''B11'']"

definition missing_bands :: "pyval \<Rightarrow> exc + string list" where
  "missing_bands available =
     efilter (\<lambda>b. ebind (py_contains b available) (\<lambda>found. Inr (\<not> found))) required_bands"

definition missing_msg :: "string list \<Rightarrow> pyval \<Rightarrow> string" where
  "missing_msg missing available =
     ''Missing bands: '' @ py_str (PList (map PStr missing)) @ ''. Available: '' @ py_str available"

section \<open>Index values (lines 85--87)\<close>

text \<open>\<open>safe_val(name)\<close>: the region mean of \<open>name\<close> rounded to 4 decimals, or
  \<open>0.0\<close> when Earth Engine reported none.\<close>

definition safe_val :: "pyval \<Rightarrow> string \<Rightarrow> exc + pyval" where
  "safe_val mean_stats name =
     ebind (py_get mean_stats name PNone) (\<lambda>val.
       if val \<noteq> PNone then py_round val 4 else Inr (PFloat 0))"

text \<open>The seven entries of \<open>"indices"\<close> (lines 113--121): output key, and the band
  or index whose mean it reports.\<close>

definition index_keys :: "(string \<times> string) list" where
  "index_keys = [(''NDVI'', ''NDVI''), (''EVI'', ''EVI''), (''NDWI'', ''NDWI''), (''MSI'', ''MSI''),
                 (''GREEN'', ''B3''), (''RED'', ''B4''), (''NIR'', ''B8'')]"

definition index_entries :: "pyval \<Rightarrow> exc + (string \<times> pyval) list" where
  "index_entries mean_stats =
     emap (\<lambda>(key, name). ebind (safe_val mean_stats name) (\<lambda>v. Inr (key, v))) index_keys"

section \<open>Weather request (lines 90--97)\<close>

definition weather_url :: "pyval \<Rightarrow> pyval \<Rightarrow> string" where
  "weather_url lat lon =
     ''https://api.open-meteo.com/v1/forecast?latitude='' @ py_str lat @ ''&longitude='' @ py_str lon @
     ''&current=temperature_2m,relative_humidity_2m,precipitation,rain,wind_speed_10m''"

section \<open>Assessment and response (lines 98--131)\<close>

definition assemble :: "string \<Rightarrow> pyval \<Rightarrow> pyval \<Rightarrow> pyval \<Rightarrow> pyval \<Rightarrow> exc + response" where
  "assemble crop ndvi_min ndvi_max mean_stats weather_res =
     ebind (py_get weather_res ''current'' (PDict [])) (\<lambda>current.
     ebind (py_get current ''temperature_2m'' (PInt 0)) (\<lambda>temp.
     ebind (py_get current ''rain'' (PInt 0)) (\<lambda>rain.
     ebind (safe_val mean_stats ''NDVI'') (\<lambda>mean_ndvi.
     ebind (assess_health crop mean_ndvi ndvi_min ndvi_max) (\<lambda>health_status.
     ebind (index_entries mean_stats) (\<lambda>indices.
     ebind (py_get current ''relative_humidity_2m'' PNone) (\<lambda>humidity.
     ebind (py_get current ''wind_speed_10m'' PNone) (\<lambda>wind_speed.
     Inr (200, PDict
       [(''indices'', PDict indices),
        (''weather'', PDict [(''temperature'', temp), (''humidity'', humidity),
                             (''wind_speed'', wind_speed), (''rain'', rain)]),
        (''crop_type'', PStr crop),
        (''healthy_range'', PStr (py_str ndvi_min @ '' - '' @ py_str ndvi_max)),
        (''health_status'', PStr health_status)])))))))))"

section \<open>Imagery (lines 38--58)\<close>

text \<open>Build the polygon, count the Sentinel-2 scenes of the date and cloud filter, and
  check the bands of their median composite; a \<open>return\<close> leaves with 404 when there is
  no scene and with 500 when a required band is missing.\<close>

definition fetch_bands :: "service \<Rightarrow> pyval \<Rightarrow> unit handler" where
  "fetch_bands srv coords =
     io_bind (remote srv (MakePolygon coords)) (\<lambda>_.
     io_bind (remote srv (CollectionSize coords)) (\<lambda>size.
     io_bind (return_if (py_eq_num size 0)
                (404, error_body ''No Sentinel-2 images found for the given area/date range.'')) (\<lambda>_.
     io_bind (remote srv (BandNames coords)) (\<lambda>available_bands.
     io_bind (py (missing_bands available_bands)) (\<lambda>missing.
     return_if (missing \<noteq> []) (500, error_body (missing_msg missing available_bands)))))))"

section \<open>Region means and weather (lines 78--97)\<close>

definition fetch_data :: "service \<Rightarrow> pyval \<Rightarrow> (pyval \<times> pyval) handler" where
  "fetch_data srv coords =
     io_bind (remote srv (ReduceMean coords)) (\<lambda>mean_stats.
     io_bind (remote srv (CentroidCoords coords)) (\<lambda>centroid.
     io_bind (py (py_unpack2 centroid)) (\<lambda>(lon, lat).
     io_bind (remote srv (HttpGetJson (weather_url lat lon))) (\<lambda>weather_res.
     io_return (mean_stats, weather_res)))))"

section \<open>The route\<close>

definition analyze_body :: "pyval \<Rightarrow> service \<Rightarrow> exc + pyval \<Rightarrow> response handler" where
  "analyze_body crop_ranges srv req =
     io_bind (py (read_request req)) (\<lambda>(coords, crop).
     io_bind (validate coords crop) (\<lambda>_.
     io_bind (py (crop_bounds crop_ranges crop)) (\<lambda>(ndvi_min, ndvi_max).
     io_bind (fetch_bands srv coords) (\<lambda>_.
     io_bind (fetch_data srv coords) (\<lambda>(mean_stats, weather_res).
     py (assemble crop ndvi_min ndvi_max mean_stats weather_res))))))"

text \<open>The \<open>except Exception as e\<close> clause: an exception becomes a 500 response carrying
  \<open>str(e)\<close>; a \<open>return\<close> passes its response through.\<close>

definition finish :: "flow + response \<Rightarrow> response" where
  "finish r = (case r of
                 Inr resp \<Rightarrow> resp
               | Inl (Returned resp) \<Rightarrow> resp
               | Inl (Raised e) \<Rightarrow> (500, error_body (exc_str e)))"

definition analyze_farm :: "pyval \<Rightarrow> service \<Rightarrow> exc + pyval \<Rightarrow> response \<times> call list" where
  "analyze_farm crop_ranges srv req = apfst finish (analyze_body crop_ranges srv req)"

section \<open>Invariants of handler computations\<close>

text \<open>\<open>returns_only P m\<close>: every \<open>return\<close> that leaves \<open>m\<close> early carries a response
  satisfying \<open>P\<close>; \<open>yields_only Q m\<close>: every value \<open>m\<close> completes with satisfies
  \<open>Q\<close>. Both are kept by \<open>io_bind\<close>, which is how facts about the whole route are
  collected from its stages.\<close>

definition returns_only :: "(response \<Rightarrow> bool) \<Rightarrow> 'a handler \<Rightarrow> bool" where
  "returns_only P m \<longleftrightarrow> (\<forall>r. fst m = Inl (Returned r) \<longrightarrow> P r)"

definition yields_only :: "('a \<Rightarrow> bool) \<Rightarrow> 'a handler \<Rightarrow> bool" where
  "yields_only Q m \<longleftrightarrow> (\<forall>a. fst m = Inr a \<longrightarrow> Q a)"

text \<open>\<open>emits cs m\<close>: the calls \<open>m\<close> issues are a prefix of \<open>cs\<close>, and all of
  \<open>cs\<close> when \<open>m\<close> runs to its end.\<close>

definition emits :: "call list \<Rightarrow> 'a handler \<Rightarrow> bool" where
  "emits cs m \<longleftrightarrow> prefix (snd m) cs \<and> (\<forall>a. fst m = Inr a \<longrightarrow> snd m = cs)"

definition error_response :: "response \<Rightarrow> bool" where
  "error_response r \<longleftrightarrow> fst r \<in> {400, 404, 500} \<and> (\<exists>msg. snd r = error_body msg)"

definition assessment_keys :: "string list" where
  "assessment_keys = [''indices'', ''weather'', ''crop_type'', ''healthy_range'', ''health_status'']"

section \<open>What a successful response reports\<close>

text \<open>The specification's reading of the index set (spec section 4.1, step 1): each
  reported value is the region mean rounded to 4 decimals, and 0.0 where the provider gave
  none. \<open>float_stats\<close> says the provider's means are floats or null, as Earth Engine's
  mean reducer returns them.\<close>

fun float_or_none :: "pyval \<Rightarrow> bool" where
  "float_or_none PNone = True"
| "float_or_none (PFloat r) = True"
| "float_or_none v = False"

definition float_stats :: "(string \<times> pyval) list \<Rightarrow> bool" where
  "float_stats stats \<longleftrightarrow> list_all (\<lambda>kv. float_or_none (snd kv)) stats"

definition reported_index :: "(string \<times> pyval) list \<Rightarrow> string \<Rightarrow> rat" where
  "reported_index stats name = (case map_of stats name of Some (PFloat r) \<Rightarrow> round_to r 4 | _ \<Rightarrow> 0)"

definition reported_indices :: "(string \<times> pyval) list \<Rightarrow> (string \<times> pyval) list" where
  "reported_indices stats = map (\<lambda>(key, name). (key, PFloat (reported_index stats name))) index_keys"

section \<open>Lemmas\<close>

lemmas handler_simps = py_def remote_def return_if_def io_simps io_defs

lemma finish_simps [simp]:
  "finish (Inr resp) = resp"
  "finish (Inl (Returned resp)) = resp"
  "finish (Inl (Raised e)) = (500, error_body (exc_str e))"
  by (simp_all add: finish_def)

subsection \<open>Stages of the route\<close>

lemma analyze_body_read_error:
  "read_request req = Inl e \<Longrightarrow> analyze_body crop_ranges srv req = (Inl (Raised e), [])"
  by (simp add: analyze_body_def handler_simps)

lemma validate_no_coordinates:
  "\<not> truthy coords \<Longrightarrow> validate coords crop = (Inl (Returned (400, error_body ''No coordinates provided'')), [])"
  by (simp add: validate_def handler_simps)

lemma validate_no_crop_type:
  "truthy coords \<Longrightarrow> validate coords [] = (Inl (Returned (400, error_body ''No crop type provided'')), [])"
  by (simp add: validate_def handler_simps)

lemma validate_pass:
  "truthy coords \<Longrightarrow> crop \<noteq> [] \<Longrightarrow> validate coords crop = (Inr (), [])"
  by (simp add: validate_def handler_simps)

lemma analyze_body_invalid:
  "read_request req = Inr (coords, crop) \<Longrightarrow> validate coords crop = (Inl (Returned r), []) \<Longrightarrow>
   analyze_body crop_ranges srv req = (Inl (Returned r), [])"
  by (simp add: analyze_body_def handler_simps)

lemma analyze_body_bounds_error:
  "read_request req = Inr (coords, crop) \<Longrightarrow> truthy coords \<Longrightarrow> crop \<noteq> [] \<Longrightarrow>
   crop_bounds crop_ranges crop = Inl e \<Longrightarrow>
   analyze_body crop_ranges srv req = (Inl (Raised e), [])"
  by (simp add: analyze_body_def validate_pass handler_simps)

lemma analyze_body_valid:
  "read_request req = Inr (coords, crop) \<Longrightarrow> truthy coords \<Longrightarrow> crop \<noteq> [] \<Longrightarrow>
   crop_bounds crop_ranges crop = Inr (ndvi_min, ndvi_max) \<Longrightarrow>
   analyze_body crop_ranges srv req =
     io_bind (fetch_bands srv coords) (\<lambda>_.
     io_bind (fetch_data srv coords) (\<lambda>(mean_stats, weather_res).
     py (assemble crop ndvi_min ndvi_max mean_stats weather_res)))"
  by (simp add: analyze_body_def validate_pass handler_simps)

lemma fetch_bands_no_images:
  "srv (MakePolygon c) = Inr p \<Longrightarrow> srv (CollectionSize c) = Inr n \<Longrightarrow> py_eq_num n 0 \<Longrightarrow>
   fetch_bands srv c =
     (Inl (Returned (404, error_body ''No Sentinel-2 images found for the given area/date range.'')),
      [MakePolygon c, CollectionSize c])"
  by (simp add: fetch_bands_def handler_simps)

lemma fetch_bands_missing:
  "srv (MakePolygon c) = Inr p \<Longrightarrow> srv (CollectionSize c) = Inr n \<Longrightarrow> \<not> py_eq_num n 0 \<Longrightarrow>
   srv (BandNames c) = Inr av \<Longrightarrow> missing_bands av = Inr ms \<Longrightarrow> ms \<noteq> [] \<Longrightarrow>
   fetch_bands srv c =
     (Inl (Returned (500, error_body (missing_msg ms av))), [MakePolygon c, CollectionSize c, BandNames c])"
  by (simp add: fetch_bands_def handler_simps)

lemma fetch_bands_ok:
  "srv (MakePolygon c) = Inr p \<Longrightarrow> srv (CollectionSize c) = Inr n \<Longrightarrow> \<not> py_eq_num n 0 \<Longrightarrow>
   srv (BandNames c) = Inr av \<Longrightarrow> missing_bands av = Inr [] \<Longrightarrow>
   fetch_bands srv c = (Inr (), [MakePolygon c, CollectionSize c, BandNames c])"
  by (simp add: fetch_bands_def handler_simps)

lemma fetch_data_ok:
  "srv (ReduceMean c) = Inr ms \<Longrightarrow> srv (CentroidCoords c) = Inr (PList [lon, lat]) \<Longrightarrow>
   srv (HttpGetJson (weather_url lat lon)) = Inr wr \<Longrightarrow>
   fetch_data srv c = (Inr (ms, wr), [ReduceMean c, CentroidCoords c, HttpGetJson (weather_url lat lon)])"
  by (simp add: fetch_data_def handler_simps py_unpack2_def)

lemma analyze_farm_body: "analyze_farm crop_ranges srv req = apfst finish (analyze_body crop_ranges srv req)"
  by (simp add: analyze_farm_def)

lemma analyze_farm_trace:
  assumes "read_request req = Inr (coords, crop)" "truthy coords" "crop \<noteq> []"
    and "crop_bounds crop_ranges crop = Inr (ndvi_min, ndvi_max)"
    and "srv (MakePolygon coords) = Inr p" "srv (CollectionSize coords) = Inr n" "\<not> py_eq_num n 0"
    and "srv (BandNames coords) = Inr av" "missing_bands av = Inr []"
    and "srv (ReduceMean coords) = Inr ms" "srv (CentroidCoords coords) = Inr (PList [lon, lat])"
    and "srv (HttpGetJson (weather_url lat lon)) = Inr wr"
  shows "analyze_farm crop_ranges srv req =
           (finish (map_sum Raised id (assemble crop ndvi_min ndvi_max ms wr)),
            [MakePolygon coords, CollectionSize coords, BandNames coords,
             ReduceMean coords, CentroidCoords coords, HttpGetJson (weather_url lat lon)])"
  using assms by (simp add: analyze_farm_body analyze_body_valid fetch_bands_ok fetch_data_ok handler_simps)

subsection \<open>Request reading and lookups\<close>

lemma read_request_dict:
  "read_request (Inr (PDict kvs)) =
     ebind (py_lower (dict_get kvs ''crop_type'' (PStr []))) (\<lambda>crop.
       Inr (dict_get kvs ''coordinates'' PNone, crop))"
  by (simp add: read_request_def)

lemma crop_bounds_dict:
  "crop_bounds (PDict rs) crop =
     (case map_of rs crop of
        None \<Rightarrow> Inr (PNone, PNone)
      | Some entry \<Rightarrow> ebind (py_get entry ''ndvi_min'' PNone) (\<lambda>lo.
                        ebind (py_get entry ''ndvi_max'' PNone) (\<lambda>hi. Inr (lo, hi))))"
  by (simp add: crop_bounds_def split: option.splits)

lemma crop_bounds_known:
  "map_of rs crop = Some (PDict e) \<Longrightarrow>
   crop_bounds (PDict rs) crop = Inr (dict_get e ''ndvi_min'' PNone, dict_get e ''ndvi_max'' PNone)"
  by (simp add: crop_bounds_dict)

lemma missing_bands_list:
  "missing_bands (PList (map PStr av)) = Inr (filter (\<lambda>b. b \<notin> set av) required_bands)"
  unfolding missing_bands_def by (rule efilter_pure) auto

subsection \<open>Index values\<close>

lemma safe_val_absent:
  "map_of kvs name = None \<Longrightarrow> safe_val (PDict kvs) name = Inr (PFloat 0)"
  by (simp add: safe_val_def)

lemma safe_val_null:
  "map_of kvs name = Some PNone \<Longrightarrow> safe_val (PDict kvs) name = Inr (PFloat 0)"
  by (simp add: safe_val_def)

lemma safe_val_float:
  "map_of kvs name = Some (PFloat r) \<Longrightarrow> safe_val (PDict kvs) name = Inr (PFloat (round_to r 4))"
  by (simp add: safe_val_def)

lemma safe_val_num: "safe_val ms name = Inr v \<Longrightarrow> num_of v \<noteq> None"
  by (auto simp: safe_val_def ebind_eq_Inr_iff dest: py_round_num split: if_splits)

lemma index_entries_Inr:
  assumes "index_entries ms = Inr es"
  shows "map fst es = map fst index_keys"
    and "\<forall>i < length index_keys. safe_val ms (snd (index_keys ! i)) = Inr (snd (es ! i))"
proof -
  let ?f = "\<lambda>(key, name). ebind (safe_val ms name) (\<lambda>v. Inr (key, v))"
  have e: "emap ?f index_keys = Inr es" using assms by (simp add: index_entries_def)
  then have len: "length es = length index_keys" by (rule emap_Inr_length)
  have nth: "?f (index_keys ! i) = Inr (es ! i)" if "i < length index_keys" for i
    using emap_Inr_nth [OF e that] .
  have ent: "fst (es ! i) = fst (index_keys ! i) \<and>
             safe_val ms (snd (index_keys ! i)) = Inr (snd (es ! i))"
    if "i < length index_keys" for i
  proof -
    obtain key name where k: "index_keys ! i = (key, name)" by (cases "index_keys ! i")
    with nth [OF that] obtain v where "safe_val ms name = Inr v" "es ! i = (key, v)"
      by (auto simp: ebind_eq_Inr_iff)
    with k show ?thesis by simp
  qed
  show "map fst es = map fst index_keys"
    by (rule nth_equalityI) (use len ent in \<open>auto\<close>)
  show "\<forall>i < length index_keys. safe_val ms (snd (index_keys ! i)) = Inr (snd (es ! i))"
    using ent by blast
qed

subsection \<open>Shape of the responses\<close>

lemma returns_only_bind:
  "returns_only P m \<Longrightarrow> (\<And>a. fst m = Inr a \<Longrightarrow> returns_only P (f a)) \<Longrightarrow> returns_only P (io_bind m f)"
  by (cases "fst m") (auto simp: returns_only_def io_bind_def)

lemma yields_only_bind:
  "(\<And>a. fst m = Inr a \<Longrightarrow> yields_only Q (f a)) \<Longrightarrow> yields_only Q (io_bind m f)"
  by (cases "fst m") (auto simp: yields_only_def io_bind_def)

lemma returns_only_case_prod:
  "(\<And>a b. returns_only P (f a b)) \<Longrightarrow> returns_only P (case p of (a, b) \<Rightarrow> f a b)"
  by (cases p) simp

lemma yields_only_case_prod:
  "(\<And>a b. p = (a, b) \<Longrightarrow> yields_only Q (f a b)) \<Longrightarrow> yields_only Q (case p of (a, b) \<Rightarrow> f a b)"
  by (cases p) simp

lemma returns_only_py [simp]: "returns_only P (py r)"
  by (cases r) (simp_all add: returns_only_def handler_simps)

lemma returns_only_remote [simp]: "returns_only P (remote srv c)"
  by (cases "srv c") (simp_all add: returns_only_def handler_simps)

lemma returns_only_io_return [simp]: "returns_only P (io_return a)"
  by (simp add: returns_only_def handler_simps)

lemmas returns_only_basic = returns_only_py returns_only_remote returns_only_io_return

lemma returns_only_return_if: "P r \<Longrightarrow> returns_only P (return_if b r)"
  by (auto simp: returns_only_def return_if_def io_return_def)

lemma yields_only_py: "(\<And>a. r = Inr a \<Longrightarrow> Q a) \<Longrightarrow> yields_only Q (py r)"
  by (cases r) (simp_all add: yields_only_def handler_simps)

lemma fetch_bands_returns: "returns_only error_response (fetch_bands srv c)"
  unfolding fetch_bands_def
  by (intro returns_only_bind returns_only_basic returns_only_return_if) (auto simp: error_response_def)

lemma fetch_data_returns: "returns_only P (fetch_data srv c)"
  unfolding fetch_data_def by (intro returns_only_bind returns_only_case_prod returns_only_basic)

lemma assemble_Inr:
  "assemble crop lo hi ms wr = Inr r \<Longrightarrow>
   fst r = 200 \<and> (\<exists>kvs. snd r = PDict kvs \<and> map fst kvs = assessment_keys)"
  by (auto simp: assemble_def ebind_eq_Inr_iff assessment_keys_def)

lemma validate_returns: "returns_only error_response (validate coords crop)"
  unfolding validate_def
  by (intro returns_only_bind returns_only_return_if) (auto simp: error_response_def)

lemma analyze_body_returns: "returns_only error_response (analyze_body crop_ranges srv req)"
  unfolding analyze_body_def
  by (intro returns_only_bind returns_only_case_prod returns_only_basic validate_returns
            fetch_bands_returns fetch_data_returns)

lemma analyze_body_yields:
  "yields_only (\<lambda>r. fst r = 200 \<and> (\<exists>kvs. snd r = PDict kvs \<and> map fst kvs = assessment_keys))
     (analyze_body crop_ranges srv req)"
  unfolding analyze_body_def
  by (intro yields_only_bind yields_only_case_prod yields_only_py) (erule assemble_Inr)

subsection \<open>Successful assessment\<close>

lemma safe_val_float_stats:
  assumes "float_stats stats"
  shows "safe_val (PDict stats) name = Inr (PFloat (reported_index stats name))"
proof (cases "map_of stats name")
  case None
  then show ?thesis by (simp add: safe_val_absent reported_index_def)
next
  case (Some v)
  then have "(name, v) \<in> set stats" by (rule map_of_SomeD)
  with assms have "float_or_none v" by (auto simp: float_stats_def list_all_iff)
  with Some show ?thesis
    by (cases v) (simp_all add: safe_val_null safe_val_float reported_index_def)
qed

lemma index_entries_float_stats:
  "float_stats stats \<Longrightarrow> index_entries (PDict stats) = Inr (reported_indices stats)"
  unfolding index_entries_def reported_indices_def
  by (rule emap_pure) (auto simp: safe_val_float_stats)

lemma assemble_ok:
  assumes "float_stats stats" "num_of lo = Some l" "num_of hi = Some h"
    and "py_get wr ''current'' (PDict []) = Inr (PDict cur)"
  shows "assemble crop lo hi (PDict stats) wr = Inr (200, PDict
     [(''indices'', PDict (reported_indices stats)),
      (''weather'', PDict [(''temperature'', dict_get cur ''temperature_2m'' (PInt 0)),
                           (''humidity'', dict_get cur ''relative_humidity_2m'' PNone),
                           (''wind_speed'', dict_get cur ''wind_speed_10m'' PNone),
                           (''rain'', dict_get cur ''rain'' (PInt 0))]),
      (''crop_type'', PStr crop),
      (''healthy_range'', PStr (py_str lo @ '' - '' @ py_str hi)),
      (''health_status'', PStr (health_msg crop (classify (reported_index stats ''NDVI'') l h)))])"
proof -
  have "assess_health crop (PFloat (reported_index stats ''NDVI'')) lo hi =
          Inr (health_msg crop (classify (reported_index stats ''NDVI'') l h))"
    using assms(2,3) by (simp add: assess_health_num)
  with assms show ?thesis
    by (simp add: assemble_def safe_val_float_stats index_entries_float_stats)
qed


subsection \<open>Call traces\<close>

lemma emits_bind:
  "emits cs m \<Longrightarrow> (\<And>a. fst m = Inr a \<Longrightarrow> emits ds (f a)) \<Longrightarrow> emits (cs @ ds) (io_bind m f)"
  by (cases "fst m") (auto simp: emits_def io_bind_def)

lemma emits_case_prod:
  "(\<And>a b. p = (a, b) \<Longrightarrow> emits cs (f a b)) \<Longrightarrow> emits cs (case p of (a, b) \<Rightarrow> f a b)"
  by (cases p) simp

lemma emits_basic:
  "emits [] (py r)" "emits [] (io_return a)" "emits [c] (remote srv c)" "emits [] (return_if b resp)"
  by (simp_all add: emits_def handler_simps return_if_def)

lemma validate_emits: "emits [] (validate coords crop)"
  unfolding validate_def using emits_bind [OF emits_basic(4) emits_basic(4)] by simp

lemma fetch_bands_emits: "emits [MakePolygon c, CollectionSize c, BandNames c] (fetch_bands srv c)"
proof -
  have "emits ([MakePolygon c] @ [CollectionSize c] @ [] @ [BandNames c] @ [] @ []) (fetch_bands srv c)"
    unfolding fetch_bands_def by (intro emits_bind emits_basic)
  then show ?thesis by simp
qed

lemma fetch_data_emits: "\<exists>u. emits [ReduceMean c, CentroidCoords c, HttpGetJson u] (fetch_data srv c)"
proof (cases "ebind (srv (CentroidCoords c)) py_unpack2")
  case (Inl e)
  then show ?thesis
    by (intro exI [of _ "[]"]; cases "srv (ReduceMean c)"; cases "srv (CentroidCoords c)")
       (simp_all add: emits_def fetch_data_def handler_simps)
next
  case (Inr ll)
  obtain lon lat where ll: "ll = (lon, lat)" by fastforce
  show ?thesis
    using Inr unfolding ll
    by (intro exI [of _ "weather_url lat lon"]; cases "srv (ReduceMean c)"; cases "srv (CentroidCoords c)";
        cases "srv (HttpGetJson (weather_url lat lon))")
       (simp_all add: emits_def fetch_data_def handler_simps)
qed

lemma analyze_body_read:
  "read_request req = Inr (coords, crop) \<Longrightarrow>
   analyze_body crop_ranges srv req =
     io_bind (validate coords crop) (\<lambda>_.
     io_bind (py (crop_bounds crop_ranges crop)) (\<lambda>(ndvi_min, ndvi_max).
     io_bind (fetch_bands srv coords) (\<lambda>_.
     io_bind (fetch_data srv coords) (\<lambda>(mean_stats, weather_res).
     py (assemble crop ndvi_min ndvi_max mean_stats weather_res)))))"
  by (simp add: analyze_body_def handler_simps)

end
