(* ===== verification/EarthEngine.thy ===== *)
theory EarthEngine
  imports Handler "HOL-Library.Product_Lexorder"
begin

text \<open>
  What the Earth Engine round trips of server.py compute, at the level of pixels.

  The route builds lazy Earth Engine expressions (lines 61--76) and has them evaluated
  by the \<open>reduceRegion(...).getInfo()\<close> round trip of lines 78--83. This theory gives
  those expressions their pixel-wise meaning:
  \<^item> a pixel of the composite \<open>image\<close> is an association list from band name to value;
    a band the pixel does not list is masked there;
  \<^item> \<open>image.select(b)\<close> is \<open>select_band\<close>; \<open>normalizedDifference([b1, b2])\<close> is
    \<open>normalized_difference\<close>: \<open>(x - y) / (x + y)\<close>, masked where an input is masked or
    negative; the two \<open>image.expression\<close> calls are \<open>evi_expression\<close> and
    \<open>msi_expression\<close>, whose \<open>/\<close> is Earth Engine's \<open>divide\<close> (\<open>ee_divide\<close>: 0 where
    the divisor is 0);
  \<^item> \<open>image.addBands([ndvi, evi, ndwi, msi])\<close> is \<open>add_bands\<close> on every pixel;
  \<^item> \<open>reduceRegion(reducer=ee.Reducer.mean(), ...)\<close> is \<open>reduce_mean\<close>: for every
    band of the image, the mean of its unmasked values over the pixels of the region, or
    \<open>None\<close> when it has none.

  The collection of lines 41--46 is \<open>sentinel_collection\<close>: the three filters over a
  list of \<open>scene\<close> records. \<open>collection.median()\<close> (line 51) is
  \<open>median_composite\<close>, the per-pixel, per-band median over the scenes.

  A \<open>world\<close> fixes what Earth Engine and the weather API hold for the request's boundary:
  the number of matching scenes, the band names and pixels of their median composite, the
  centroid, and the weather API. \<open>ee_service\<close> answers every call of the route from it,
  and \<open>scene_world\<close> builds a world from a list of scenes. Pixel values are exact
  rationals. Not modelled: the choice of the pixels inside the polygon at 10 m scale (a
  scene's pixels over the field are given), the area weighting of the mean reducer, and
  how Earth Engine matches bands that only some scenes have (the composite's band names
  are given).
\<close>

section \<open>Band math (lines 61--76)\<close>

type_synonym pixel = "(string \<times> rat) list"

definition ee_divide :: "rat \<Rightarrow> rat \<Rightarrow> rat" where
  "ee_divide x y = (if y = 0 then 0 else x / y)"

definition select_band :: "pixel \<Rightarrow> string \<Rightarrow> rat option" where
  "select_band px b = map_of px b"

definition normalized_difference :: "string \<Rightarrow> string \<Rightarrow> pixel \<Rightarrow> rat option" where
  "normalized_difference b1 b2 px =
     (case (select_band px b1, select_band px b2) of
        (Some x, Some y) \<Rightarrow> if x < 0 \<or> y < 0 then None else Some (ee_divide (x - y) (x + y))
      | _ \<Rightarrow> None)"

definition evi_expression :: "pixel \<Rightarrow> rat option" where
  "evi_expression px =
     (case (select_band px ''B8'', select_band px ''B4'', select_band px ''B2'') of
        (Some nir, Some red, Some blue) \<Rightarrow>
          Some (5/2 * ee_divide (nir - red) (nir + 6 * red - 15/2 * blue + 1))
      | _ \<Rightarrow> None)"

definition msi_expression :: "pixel \<Rightarrow> rat option" where
  "msi_expression px =
     (case (select_band px ''B11'', select_band px ''B8'') of
        (Some swir, Some nir) \<Rightarrow> Some (ee_divide swir nir)
      | _ \<Rightarrow> None)"

text \<open>The four derived bands in the order \<open>addBands\<close> appends them.\<close>

definition index_bands :: "(string \<times> (pixel \<Rightarrow> rat option)) list" where
  "index_bands = [(''NDVI'', normalized_difference ''B8'' ''B4''), (''EVI'', evi_expression),
                  (''NDWI'', normalized_difference ''B3'' ''B8''), (''MSI'', msi_expression)]"

definition add_bands :: "pixel \<Rightarrow> pixel" where
  "add_bands px =
     px @ concat (map (\<lambda>(name, f). case f px of None \<Rightarrow> [] | Some v \<Rightarrow> [(name, v)]) index_bands)"

section \<open>The region mean (lines 78--83)\<close>

definition band_values :: "string \<Rightarrow> pixel list \<Rightarrow> rat list" where
  "band_values b ps = List.map_filter (\<lambda>px. map_of px b) ps"

definition mean_value :: "rat list \<Rightarrow> pyval" where
  "mean_value vs = (if vs = [] then PNone else PFloat (sum_list vs / of_nat (length vs)))"

definition reduce_mean :: "string list \<Rightarrow> pixel list \<Rightarrow> pyval" where
  "reduce_mean names ps = PDict (map (\<lambda>b. (b, mean_value (band_values b ps))) names)"

text \<open>\<open>indices_image.reduceRegion(...)\<close>: the bands of \<open>indices_image\<close> are those of the
  composite followed by the four derived ones.\<close>

definition mean_stats_of :: "string list \<Rightarrow> pixel list \<Rightarrow> pyval" where
  "mean_stats_of bands ps = reduce_mean (bands @ map fst index_bands) (map add_bands ps)"

section \<open>The collection and its median composite (lines 41--51)\<close>

text \<open>A scene of \<open>COPERNICUS/S2_SR_HARMONIZED\<close>: its acquisition date (year, month,
  day), its \<open>CLOUDY_PIXEL_PERCENTAGE\<close> property, whether its footprint intersects the
  field, and its pixels over the field (the same pixel grid for every scene).
  \<open>filterDate(start, end)\<close> keeps the scenes acquired from the start of \<open>start\<close> up
  to but not including the start of \<open>end\<close>, which on dates is \<open>start \<le> d < end\<close>.\<close>

record scene =
  scene_date :: "nat \<times> nat \<times> nat"
  cloudy_pixel_percentage :: rat
  intersects_field :: bool
  scene_pixels :: "pixel list"

definition filter_bounds :: "scene list \<Rightarrow> scene list" where
  "filter_bounds scenes = filter intersects_field scenes"

definition filter_date :: "nat \<times> nat \<times> nat \<Rightarrow> nat \<times> nat \<times> nat \<Rightarrow> scene list \<Rightarrow> scene list" where
  "filter_date start stop scenes = filter (\<lambda>s. start \<le> scene_date s \<and> scene_date s < stop) scenes"

definition filter_lt :: "rat \<Rightarrow> scene list \<Rightarrow> scene list" where
  "filter_lt x scenes = filter (\<lambda>s. cloudy_pixel_percentage s < x) scenes"

definition sentinel_collection :: "scene list \<Rightarrow> scene list" where
  "sentinel_collection scenes =
     filter_lt 20 (filter_date (2025, 8, 1) (2025, 10, 11) (filter_bounds scenes))"

text \<open>\<open>collection.median()\<close>, per pixel and band, over the scenes where the band is
  unmasked: the middle value, or the mean of the two middle values of an even count.\<close>

definition median_of :: "rat list \<Rightarrow> rat option" where
  "median_of vs =
     (let s = sort vs; n = length s in
      if n = 0 then None
      else if odd n then Some (s ! (n div 2))
      else Some ((s ! (n div 2 - 1) + s ! (n div 2)) / 2))"

definition median_pixel :: "string list \<Rightarrow> pixel list \<Rightarrow> pixel" where
  "median_pixel bands stack =
     concat (map (\<lambda>b. case median_of (band_values b stack) of None \<Rightarrow> [] | Some m \<Rightarrow> [(b, m)]) bands)"

definition median_composite :: "string list \<Rightarrow> scene list \<Rightarrow> pixel list" where
  "median_composite bands scenes = map (median_pixel bands) (transpose (map scene_pixels scenes))"

section \<open>A world the services answer from\<close>

record world =
  scene_count :: nat
  composite_bands :: "string list"
  region_pixels :: "pixel list"
  centroid :: "rat \<times> rat"
  weather_api :: "string \<Rightarrow> exc + pyval"

definition ee_service :: "world \<Rightarrow> service" where
  "ee_service w c =
     (case c of
        MakePolygon _ \<Rightarrow> Inr PNone
      | CollectionSize _ \<Rightarrow> Inr (PInt (int (scene_count w)))
      | BandNames _ \<Rightarrow> Inr (PList (map PStr (composite_bands w)))
      | ReduceMean _ \<Rightarrow> Inr (mean_stats_of (composite_bands w) (region_pixels w))
      | CentroidCoords _ \<Rightarrow> Inr (PList [PFloat (fst (centroid w)), PFloat (snd (centroid w))])
      | HttpGetJson url \<Rightarrow> weather_api w url)"

text \<open>The world of a list of scenes: the route counts the filtered collection and reads
  the pixels of its median composite.\<close>

definition scene_world :: "string list \<Rightarrow> scene list \<Rightarrow> rat \<times> rat \<Rightarrow> (string \<Rightarrow> exc + pyval) \<Rightarrow> world" where
  "scene_world bands scenes c wapi =
     (let coll = sentinel_collection scenes in
      \<lparr>scene_count = length coll, composite_bands = bands,
       region_pixels = median_composite bands coll, centroid = c, weather_api = wapi\<rparr>)"

section \<open>Example\<close>

text \<open>Two pixels of a composite: the first has NDVI 0.5 and NDWI -0.5, the second NDVI 0
  and NDWI -1/3.\<close>

definition example_pixels :: "pixel list" where
  "example_pixels = [[(''B3'', 1/10), (''B4'', 1/10), (''B8'', 3/10)],
                     [(''B2'', 1/10), (''B3'', 1/10), (''B4'', 2/10), (''B8'', 2/10)]]"

text \<open>Five scenes over a two-pixel field. Only the first two pass the filters: the third
  is dated 2025-10-11 (the end of the window is excluded), the fourth has exactly 20 per
  cent cloud, the fifth does not intersect the field.\<close>

definition example_scenes :: "scene list" where
  "example_scenes =
     [\<lparr>scene_date = (2025, 8, 1), cloudy_pixel_percentage = 12, intersects_field = True,
       scene_pixels = [[(''B4'', 1/10), (''B8'', 3/10)], [(''B4'', 2/10), (''B8'', 2/10)]]\<rparr>,
      \<lparr>scene_date = (2025, 9, 14), cloudy_pixel_percentage = 3, intersects_field = True,
       scene_pixels = [[(''B4'', 1/10), (''B8'', 2/10)], [(''B8'', 4/10)]]\<rparr>,
      \<lparr>scene_date = (2025, 10, 11), cloudy_pixel_percentage = 0, intersects_field = True,
       scene_pixels = [[(''B4'', 9/10), (''B8'', 9/10)], [(''B4'', 9/10)]]\<rparr>,
      \<lparr>scene_date = (2025, 9, 20), cloudy_pixel_percentage = 20, intersects_field = True,
       scene_pixels = [[(''B4'', 9/10), (''B8'', 9/10)], [(''B4'', 9/10)]]\<rparr>,
      \<lparr>scene_date = (2025, 9, 1), cloudy_pixel_percentage = 1, intersects_field = False,
       scene_pixels = [[(''B4'', 9/10), (''B8'', 9/10)], [(''B4'', 9/10)]]\<rparr>]"

section \<open>Lemmas\<close>

lemma ee_divide_unit:
  assumes "\<bar>x\<bar> \<le> y" shows "-1 \<le> ee_divide x y \<and> ee_divide x y \<le> 1"
proof (cases "y = 0")
  case False
  with assms have "0 < y" by linarith
  with assms show ?thesis by (simp add: ee_divide_def divide_le_eq le_divide_eq abs_le_iff)
qed (simp add: ee_divide_def)

lemma normalized_difference_range:
  "normalized_difference b1 b2 px = Some v \<Longrightarrow> -1 \<le> v \<and> v \<le> 1"
  by (auto simp: normalized_difference_def intro!: ee_divide_unit split: option.splits if_splits)

lemma mean_value_range:
  assumes "\<And>v. v \<in> set vs \<Longrightarrow> lo \<le> v \<and> v \<le> hi" "mean_value vs = PFloat m"
  shows "lo \<le> m \<and> m \<le> hi"
proof -
  have ne: "vs \<noteq> []" and m: "m = sum_list vs / of_nat (length vs)"
    using assms(2) by (auto simp: mean_value_def split: if_splits)
  have n: "0 < (of_nat (length vs) :: rat)" using ne by simp
  have "of_nat (length vs) * lo \<le> sum_list vs" "sum_list vs \<le> of_nat (length vs) * hi"
    using assms(1) by (blast intro: sum_list_lower sum_list_upper)+
  with n m show ?thesis by (simp add: le_divide_eq divide_le_eq mult.commute)
qed

lemma add_bands_index:
  "map_of px n = None \<Longrightarrow> map_of index_bands n = Some f \<Longrightarrow> map_of (add_bands px) n = f px"
  by (auto simp: add_bands_def index_bands_def map_add_def split: option.splits if_splits)

lemma band_values_add_bands:
  assumes "list_all (\<lambda>px. map_of px n = None) ps" "map_of index_bands n = Some f"
  shows "band_values n (map add_bands ps) = List.map_filter f ps"
  using assms by (induction ps) (simp_all add: band_values_def map_filter_simps add_bands_index split: option.split)

lemma mean_stats_of_PDict:
  "mean_stats_of bands ps =
     PDict (map (\<lambda>b. (b, mean_value (band_values b (map add_bands ps)))) (bands @ map fst index_bands))"
  by (simp add: mean_stats_of_def reduce_mean_def)

lemma mean_value_float_or_none: "float_or_none (mean_value vs)"
  by (simp add: mean_value_def)

lemma mean_stats_float_stats:
  "mean_stats_of bands ps = PDict stats \<Longrightarrow> float_stats stats"
  by (auto simp: mean_stats_of_PDict float_stats_def list_all_iff mean_value_float_or_none)

lemma normalized_index_reported_range:
  assumes "mean_stats_of bands ps = PDict stats" "list_all (\<lambda>px. map_of px n = None) ps"
    and "map_of index_bands n = Some (normalized_difference b1 b2)"
  shows "-1 \<le> reported_index stats n \<and> reported_index stats n \<le> 1"
proof -
  have n: "n \<in> set (map fst index_bands)" using assms(3) by (force dest: map_of_SomeD)
  let ?vs = "List.map_filter (normalized_difference b1 b2) ps"
  have "stats = map (\<lambda>b. (b, mean_value (band_values b (map add_bands ps)))) (bands @ map fst index_bands)"
    using assms(1) by (simp only: mean_stats_of_PDict pyval.inject)
  then have s: "map_of stats n = Some (mean_value ?vs)"
    using n by (simp only: map_of_map_keys band_values_add_bands [OF assms(2,3)]) simp
  have r: "-1 \<le> m \<and> m \<le> 1" if "mean_value ?vs = PFloat m" for m
    by (rule mean_value_range [OF _ that]) (auto simp: in_set_map_filter dest: normalized_difference_range)
  show ?thesis
  proof (cases "mean_value ?vs")
    case (PFloat m)
    then show ?thesis using s r [OF PFloat] round_to_within [of "-1" m 1 4] by (simp add: reported_index_def)
  qed (use s in \<open>simp_all add: reported_index_def\<close>)
qed

section \<open>Normalised indices stay in range\<close>

text \<open>C15. Whatever the pixels of the region, the NDVI and NDWI that \<open>safe_val\<close> reports
  are floats in \<open>[-1, 1]\<close>: \<open>normalizedDifference\<close> gives values in that interval
  (it masks negative inputs), their region mean stays in it, \<open>round(., 4)\<close> keeps it,
  and an index with no unmasked pixel is reported as 0.0. The hypothesis is that the
  composite has no band of its own named NDVI or NDWI, as Sentinel-2 scenes do not.\<close>

theorem reported_indices_in_unit_range:
  assumes "list_all (\<lambda>px. map_of px ''NDVI'' = None \<and> map_of px ''NDWI'' = None) ps"
  shows "\<exists>v u. safe_val (mean_stats_of bands ps) ''NDVI'' = Inr (PFloat v) \<and> -1 \<le> v \<and> v \<le> 1 \<and>
               safe_val (mean_stats_of bands ps) ''NDWI'' = Inr (PFloat u) \<and> -1 \<le> u \<and> u \<le> 1"
proof -
  obtain stats where st: "mean_stats_of bands ps = PDict stats" by (simp add: mean_stats_of_PDict)
  have ndvi: "list_all (\<lambda>px. map_of px ''NDVI'' = None) ps" and ndwi: "list_all (\<lambda>px. map_of px ''NDWI'' = None) ps"
    using assms by (simp_all add: list_all_iff)
  have "map_of index_bands ''NDVI'' = Some (normalized_difference ''B8'' ''B4'')"
    and "map_of index_bands ''NDWI'' = Some (normalized_difference ''B3'' ''B8'')"
    by (simp_all add: index_bands_def)
  from normalized_index_reported_range [OF st ndvi this(1)] normalized_index_reported_range [OF st ndwi this(2)]
  show ?thesis using safe_val_float_stats [OF mean_stats_float_stats [OF st]] st by auto
qed

text \<open>The two-pixel example: NDVI 0.25, NDWI -0.4167 (the mean -5/12 rounded).\<close>

theorem reported_indices_in_unit_range_witness:
  "safe_val (mean_stats_of [''B2'', ''B3'', ''B4'', ''B8''] example_pixels) ''NDVI'' = Inr (PFloat (1/4)) \<and>
   safe_val (mean_stats_of [''B2'', ''B3'', ''B4'', ''B8''] example_pixels) ''NDWI'' = Inr (PFloat (-4167/10000)) \<and>
   (\<exists>v u. safe_val (mean_stats_of [''B2'', ''B3'', ''B4'', ''B8''] example_pixels) ''NDVI'' = Inr (PFloat v) \<and> -1 \<le> v \<and> v \<le> 1 \<and>
          safe_val (mean_stats_of [''B2'', ''B3'', ''B4'', ''B8''] example_pixels) ''NDWI'' = Inr (PFloat u) \<and> -1 \<le> u \<and> u \<le> 1)"
proof -
  have "safe_val (mean_stats_of [''B2'', ''B3'', ''B4'', ''B8''] example_pixels) ''NDVI'' = Inr (PFloat (1/4))"
    by code_simp
  moreover have "safe_val (mean_stats_of [''B2'', ''B3'', ''B4'', ''B8''] example_pixels) ''NDWI'' =
                   Inr (PFloat (-4167/10000))"
    by code_simp
  moreover have "\<exists>v u. safe_val (mean_stats_of [''B2'', ''B3'', ''B4'', ''B8''] example_pixels) ''NDVI'' = Inr (PFloat v) \<and>
      -1 \<le> v \<and> v \<le> 1 \<and>
      safe_val (mean_stats_of [''B2'', ''B3'', ''B4'', ''B8''] example_pixels) ''NDWI'' = Inr (PFloat u) \<and> -1 \<le> u \<and> u \<le> 1"
    by (rule reported_indices_in_unit_range) (simp add: example_pixels_def)
  ultimately show ?thesis by blast
qed


section \<open>The collection and the 404 check\<close>

lemma sentinel_collection_filter:
  "sentinel_collection scenes =
     filter (\<lambda>s. intersects_field s \<and> (2025, 8, 1) \<le> scene_date s \<and> scene_date s < (2025, 10, 11) \<and>
                 cloudy_pixel_percentage s < 20) scenes"
  by (simp add: sentinel_collection_def filter_lt_def filter_date_def filter_bounds_def conj_ac)

lemma ee_status_404_iff:
  assumes "read_request req = Inr (coords, crop)" "truthy coords" "crop \<noteq> []"
    and "crop_bounds crop_ranges crop = Inr (lo, hi)"
  shows "fst (fst (analyze_farm crop_ranges (ee_service w) req)) = 404 \<longleftrightarrow> scene_count w = 0"
proof (cases "scene_count w = 0")
  case True
  then show ?thesis using assms
    by (simp add: analyze_farm_body analyze_body_valid fetch_bands_no_images io_simps ee_service_def py_eq_num_def)
next
  case False
  then have nz: "scene_count w \<noteq> 0" .
  let ?srv = "ee_service w" and ?av = "composite_bands w"
  have s: "?srv (MakePolygon coords) = Inr PNone" "?srv (CollectionSize coords) = Inr (PInt (int (scene_count w)))"
    "\<not> py_eq_num (PInt (int (scene_count w))) 0" "?srv (BandNames coords) = Inr (PList (map PStr ?av))"
    using False by (simp_all add: ee_service_def py_eq_num_def)
  show ?thesis
  proof (cases "filter (\<lambda>b. b \<notin> set ?av) required_bands = []")
    case False
    then show ?thesis using assms s nz
      by (simp add: analyze_farm_body analyze_body_valid fetch_bands_missing missing_bands_list io_simps)
  next
    case True
    then have fb: "fetch_bands ?srv coords = (Inr (), [MakePolygon coords, CollectionSize coords, BandNames coords])"
      using s by (simp add: fetch_bands_ok missing_bands_list)
    let ?lon = "PFloat (fst (centroid w))" and ?lat = "PFloat (snd (centroid w))"
    have c: "?srv (ReduceMean coords) = Inr (mean_stats_of ?av (region_pixels w))"
      "?srv (CentroidCoords coords) = Inr (PList [?lon, ?lat])" by (simp_all add: ee_service_def)
    show ?thesis
    proof (cases "weather_api w (weather_url ?lat ?lon)")
      case (Inl e)
      then have "fetch_data ?srv coords = (Inl (Raised e), [ReduceMean coords, CentroidCoords coords, HttpGetJson (weather_url ?lat ?lon)])"
        using c by (simp add: fetch_data_def handler_simps py_unpack2_def ee_service_def)
      then show ?thesis using assms fb nz by (simp add: analyze_farm_body analyze_body_valid io_simps)
    next
      case (Inr wr)
      then have "?srv (HttpGetJson (weather_url ?lat ?lon)) = Inr wr" by (simp add: ee_service_def)
      from analyze_farm_trace [OF assms s(1,2,3,4) _ c this] True
      have t: "fst (analyze_farm crop_ranges ?srv req) =
                 finish (map_sum Raised id (assemble crop lo hi (mean_stats_of ?av (region_pixels w)) wr))"
        by (simp add: missing_bands_list)
      show ?thesis
      proof (cases "assemble crop lo hi (mean_stats_of ?av (region_pixels w)) wr")
        case (Inr r)
        with t nz show ?thesis using assemble_Inr [OF Inr] by simp
      qed (use t nz in simp)
    qed
  qed
qed

end
