(* ===== verification/FloatText.thy ===== *)
theory FloatText
  imports PyRepr
begin

text \<open>
  Reading back the text \<open>float_repr\<close> prints. server.py puts floats into text in
  two places: the centroid coordinates in the weather URL (lines 92--96) and the crop's
  bounds in \<open>healthy_range\<close> (line 129). \<open>parse_float\<close> is Python's \<open>float()\<close>
  on a decimal literal (an optional sign, digits with an optional point, an optional
  exponent \<open>e[+-]digits\<close> or \<open>E[+-]digits\<close>). The theorem \<open>float_repr_roundtrip\<close> shows that every
  value with a finite decimal expansion (every float) is printed as a text that reads back
  as that value: Python's guarantee \<open>float(repr(x)) == x\<close>.

  The proof follows \<open>float_repr\<close>. \<open>decimal_parts\<close> finds \<open>(m, e)\<close> with
  \<open>x = m * 10^e\<close>, because the reduced denominator of a finite decimal is
  \<open>2^a * 5^b\<close> and so divides \<open>10^(max a b)\<close> (\<open>dvd_pow10_factors\<close>). The fixed
  and exponent layouts each read back as \<open>m * 10^e\<close> (\<open>parse_fixed\<close>,
  \<open>parse_sci\<close>).
\<close>

section \<open>Reading decimal text\<close>

definition digit_val :: "char \<Rightarrow> nat" where
  "digit_val c = of_char c - 48"

definition is_digit :: "char \<Rightarrow> bool" where
  "is_digit c \<longleftrightarrow> 48 \<le> (of_char c :: nat) \<and> (of_char c :: nat) \<le> 57"

definition digits_val :: "string \<Rightarrow> nat" where
  "digits_val s = foldl (\<lambda>acc c. 10 * acc + digit_val c) 0 s"

definition scale10 :: "rat \<Rightarrow> int \<Rightarrow> rat" where
  "scale10 x k = (if 0 \<le> k then x * 10 ^ nat k else x / 10 ^ nat (- k))"

definition split_at :: "(char \<Rightarrow> bool) \<Rightarrow> string \<Rightarrow> string \<times> string option" where
  "split_at P s = (takeWhile (\<lambda>x. \<not> P x) s, case dropWhile (\<lambda>x. \<not> P x) s of [] \<Rightarrow> None | _ # r \<Rightarrow> Some r)"

definition exp_mark :: "char \<Rightarrow> bool" where
  "exp_mark c \<longleftrightarrow> c = CHR ''e'' \<or> c = CHR ''E''"

definition parse_mantissa :: "string \<Rightarrow> rat option" where
  "parse_mantissa s =
     (case split_at (\<lambda>x. x = CHR ''.'') s of
        (a, None) \<Rightarrow> if a \<noteq> [] \<and> list_all is_digit a then Some (of_nat (digits_val a)) else None
      | (a, Some f) \<Rightarrow>
          if a @ f \<noteq> [] \<and> list_all is_digit (a @ f)
          then Some (of_nat (digits_val (a @ f)) / 10 ^ length f) else None)"

definition parse_digits_int :: "bool \<Rightarrow> string \<Rightarrow> int option" where
  "parse_digits_int neg ds =
     (if ds \<noteq> [] \<and> list_all is_digit ds
      then Some (if neg then - int (digits_val ds) else int (digits_val ds)) else None)"

definition parse_exponent :: "string \<Rightarrow> int option" where
  "parse_exponent s =
     (case s of
        c # t \<Rightarrow> if c = CHR ''-'' then parse_digits_int True t
                 else if c = CHR ''+'' then parse_digits_int False t
                 else parse_digits_int False s
      | [] \<Rightarrow> None)"

definition parse_unsigned :: "string \<Rightarrow> rat option" where
  "parse_unsigned s =
     (case split_at exp_mark s of
        (m, None) \<Rightarrow> parse_mantissa m
      | (m, Some es) \<Rightarrow>
          (case (parse_mantissa m, parse_exponent es) of
             (Some x, Some k) \<Rightarrow> Some (scale10 x k)
           | _ \<Rightarrow> None))"

definition parse_float :: "string \<Rightarrow> rat option" where
  "parse_float s =
     (case s of
        c # t \<Rightarrow> if c = CHR ''-'' then map_option uminus (parse_unsigned t)
                 else if c = CHR ''+'' then parse_unsigned t
                 else parse_unsigned s
      | [] \<Rightarrow> None)"

section \<open>Digit strings\<close>

lemma foldl_digits:
  "foldl (\<lambda>acc c. 10 * acc + digit_val c) a s = a * 10 ^ length s + foldl (\<lambda>acc c. 10 * acc + digit_val c) 0 s"
proof (induction s arbitrary: a)
  case (Cons c s)
  show ?case
    using Cons.IH [of "10 * a + digit_val c"] Cons.IH [of "digit_val c"] by (simp add: algebra_simps)
qed simp

lemma digits_val_append: "digits_val (a @ b) = digits_val a * 10 ^ length b + digits_val b"
  unfolding digits_val_def foldl_append by (rule foldl_digits)

lemma digits_val_Nil [simp]: "digits_val [] = 0"
  by (simp add: digits_val_def)

lemma digits_val_single [simp]: "digits_val [c] = digit_val c"
  by (simp add: digits_val_def)

lemma digit_val_char [simp]: "(n::nat) < 10 \<Longrightarrow> digit_val (char_of (48 + n)) = n"
  by (simp add: digit_val_def)

lemma is_digit_char [simp]: "(n::nat) < 10 \<Longrightarrow> is_digit (char_of (48 + n))"
  by (simp add: is_digit_def)

lemma digits_val_nat_str [simp]: "digits_val (nat_str n) = n"
proof (induction n rule: nat_str.induct)
  case (1 n)
  show ?case
  proof (cases "n < 10")
    case False
    then show ?thesis using 1 by (simp add: nat_str_step digits_val_append)
  qed (simp add: nat_str_digit)
qed

lemma nat_str_digits: "list_all is_digit (nat_str n)"
proof (induction n rule: nat_str.induct)
  case (1 n)
  then show ?case by (cases "n < 10") (simp_all add: nat_str_digit nat_str_step)
qed

lemma digits_val_zeros [simp]: "digits_val (replicate k (CHR ''0'') @ s) = digits_val s"
  by (induction k) (simp_all add: digits_val_def digit_val_def)

lemma digits_val_append_zeros: "digits_val (s @ replicate k (CHR ''0'')) = digits_val s * 10 ^ k"
proof -
  have "digits_val (replicate k (CHR ''0'')) = 0"
    using digits_val_zeros [of k "[]"] by simp
  then show ?thesis by (simp add: digits_val_append)
qed

section \<open>Finite decimals\<close>

lemma count_factor_dvd:
  assumes "1 < p" "0 < n"
  shows "p ^ count_factor p n dvd n \<and> \<not> p dvd (n div p ^ count_factor p n)"
  using assms
proof (induction p n rule: count_factor.induct)
  case (1 p n)
  show ?case
  proof (cases "p \<le> 1 \<or> n = 0 \<or> n mod p \<noteq> 0")
    case True
    then have "count_factor p n = 0" by (subst count_factor.simps) simp
    with True 1(2,3) show ?thesis by (auto simp: dvd_eq_mod_eq_0)
  next
    case False
    then have pn: "p dvd n" by (simp add: dvd_eq_mod_eq_0)
    then have q: "0 < n div p" using 1(2,3) by (auto elim!: dvdE)
    from 1(1) [OF False 1(2) q] obtain c where
      c: "count_factor p (n div p) = c" "p ^ c dvd n div p" "\<not> p dvd (n div p div p ^ c)"
      by blast
    have cf: "count_factor p n = Suc c" using False c(1) by (subst count_factor.simps) simp
    have "p ^ Suc c dvd p * (n div p)" using c(2) by simp
    then have "p ^ Suc c dvd n" using pn by simp
    moreover have "n div p ^ Suc c = n div p div p ^ c" by (simp add: div_mult2_eq)
    ultimately show ?thesis using c(3) cf by simp
  qed
qed

lemma dvd_prime_small:
  fixes d :: nat
  shows "d dvd 2 \<Longrightarrow> d = 1 \<or> d = 2" and "d dvd 5 \<Longrightarrow> d = 1 \<or> d = 5"
proof -
  show "d dvd 2 \<Longrightarrow> d = 1 \<or> d = 2"
    using dvd_imp_le [of d 2] by (cases d) (auto simp: le_Suc_eq numeral_eq_Suc)
  show "d dvd 5 \<Longrightarrow> d = 1 \<or> d = 5"
  proof -
    assume d: "d dvd 5"
    then have "d \<le> 5" by (simp add: dvd_imp_le)
    then have "d \<in> {0, 1, 2, 3, 4, 5}" by auto
    with d show ?thesis by auto
  qed
qed

lemma coprime_ten:
  fixes t :: nat
  assumes "\<not> 2 dvd t" "\<not> 5 dvd t"
  shows "coprime t 10"
proof -
  have "coprime t 2"
    using dvd_prime_small(1) [of "gcd t 2"] assms(1) by (auto simp: coprime_iff_gcd_eq_1) (metis gcd_dvd1)
  moreover have "coprime t 5"
    using dvd_prime_small(2) [of "gcd t 5"] assms(2) by (auto simp: coprime_iff_gcd_eq_1) (metis gcd_dvd1)
  ultimately show ?thesis
    using coprime_mult_right_iff [of t 2 5] by simp
qed

lemma dvd_pow10_factors:
  fixes Q :: nat
  assumes "0 < Q" "Q dvd 10 ^ k"
  shows "Q dvd 10 ^ max (count_factor 2 Q) (count_factor 5 Q)"
proof -
  define a where "a = count_factor 2 Q"
  define b where "b = count_factor 5 Q"
  have a: "2 ^ a dvd Q" "\<not> 2 dvd Q div 2 ^ a" using count_factor_dvd [of 2 Q] assms(1) by (simp_all add: a_def)
  have b: "5 ^ b dvd Q" "\<not> 5 dvd Q div 5 ^ b" using count_factor_dvd [of 5 Q] assms(1) by (simp_all add: b_def)
  have "coprime (2::nat) 5" by (rule coprimeI) (auto dest: dvd_prime_small)
  then have "coprime ((2::nat) ^ a) (5 ^ b)" by simp
  with a(1) b(1) have "2 ^ a * 5 ^ b dvd Q" by (rule divides_mult)
  then obtain t where Q: "Q = 2 ^ a * 5 ^ b * t" by (rule dvdE)
  have t2: "\<not> 2 dvd t"
  proof
    assume "2 dvd t"
    then have "2 dvd 5 ^ b * t" by simp
    with a(2) show False by (simp add: Q)
  qed
  have t5: "\<not> 5 dvd t"
  proof
    assume "5 dvd t"
    then have "5 dvd 2 ^ a * t" by simp
    with b(2) show False by (simp add: Q mult.commute mult.left_commute)
  qed
  have c: "coprime t (10 ^ k)" using coprime_ten [OF t2 t5] by simp
  have "t dvd 10 ^ k" using assms(2) Q by (metis dvd_mult_left mult.commute)
  then have "is_unit t" using c coprime_absorb_left by blast
  then have "t = 1" by simp
  have "(2::nat) ^ a dvd 2 ^ max a b" "(5::nat) ^ b dvd 5 ^ max a b" by (simp_all add: le_imp_power_dvd)
  then have "2 ^ a * 5 ^ b dvd (2::nat) ^ max a b * 5 ^ max a b" by (rule mult_dvd_mono)
  moreover have ten: "(2::nat) ^ m * 5 ^ m = 10 ^ m" for m by (induction m) simp_all
  ultimately have "Q dvd 10 ^ max a b" using \<open>t = 1\<close> Q by simp
  then show ?thesis by (simp add: a_def b_def)
qed

lemma strip_zeros_eq:
  "strip_zeros n = (m, z) \<Longrightarrow> n = m * 10 ^ z \<and> (0 < n \<longrightarrow> 0 < m)"
proof (induction n arbitrary: m z rule: strip_zeros.induct)
  case (1 n)
  show ?case
  proof (cases "n \<noteq> 0 \<and> n mod 10 = 0")
    case True
    obtain m' z' where s: "strip_zeros (n div 10) = (m', z')" by fastforce
    with True 1(2) have mz: "m = m'" "z = Suc z'" by (subst (asm) strip_zeros.simps; simp)+
    from 1(1) [OF True s] have "n div 10 = m' * 10 ^ z'" "0 < n div 10 \<longrightarrow> 0 < m'" by simp_all
    moreover have "n = n div 10 * 10" "0 < n div 10" using True by auto
    ultimately show ?thesis using mz by simp
  next
    case False
    with 1(2) show ?thesis by (subst (asm) strip_zeros.simps) auto
  qed
qed

lemma scale10_diff: "scale10 x (int a - int b) = x * 10 ^ a / 10 ^ b"
proof (cases "b \<le> a")
  case True
  then have "nat (int a - int b) = a - b" by simp
  with True show ?thesis by (simp add: scale10_def power_diff)
next
  case False
  then have "nat (- (int a - int b)) = b - a" "(10::rat) ^ b = 10 ^ a * 10 ^ (b - a)"
    by (simp_all add: power_add [symmetric])
  with False show ?thesis by (simp add: scale10_def)
qed

lemma decimal_parts_exact:
  assumes "0 < r" "r = of_int n / 10 ^ k"
  shows "\<exists>m e. decimal_parts r = (m, e) \<and> 0 < m \<and> r = scale10 (of_nat m) e"
proof -
  obtain p q where pq: "quotient_of r = (p, q)" by fastforce
  have q0: "0 < q" and rpq: "r = of_int p / of_int q" and cop: "coprime p q"
    using pq quotient_of_denom_pos quotient_of_div quotient_of_coprime by blast+
  have p0: "0 < p" using assms(1) rpq q0 by (simp add: zero_less_divide_iff)
  have "of_int p * 10 ^ k = (of_int n * of_int q :: rat)"
    using assms(2) rpq q0 by (simp add: field_simps)
  then have "(of_int (p * 10 ^ k) :: rat) = of_int (n * q)" by simp
  then have "p * 10 ^ k = n * q" by (simp only: of_int_eq_iff)
  then have "q dvd p * 10 ^ k" by simp
  then have "q dvd 10 ^ k" using cop by (simp add: coprime_commute coprime_dvd_mult_right_iff)
  then have "int (nat q) dvd int (10 ^ k)" using q0 by simp
  then have qk: "nat q dvd 10 ^ k" by (simp only: int_dvd_int_iff)
  define K where "K = max (count_factor 2 (nat q)) (count_factor 5 (nat q))"
  have "nat q dvd 10 ^ K" unfolding K_def by (rule dvd_pow10_factors) (use q0 qk in simp_all)
  then have "int (nat q) dvd int (10 ^ K)" by (simp only: int_dvd_int_iff)
  then have qK: "q dvd 10 ^ K" using q0 by simp
  define D where "D = p * 10 ^ K div q"
  have "q dvd p * 10 ^ K" using qK by simp
  then have DK: "D * q = p * 10 ^ K" unfolding D_def by simp
  have "0 < D * q" using DK p0 by simp
  with q0 have D0: "0 < D" by (simp add: zero_less_mult_iff)
  obtain m z where s: "strip_zeros (nat D) = (m, z)" by fastforce
  from strip_zeros_eq [OF s] D0 have Nm: "nat D = m * 10 ^ z" "0 < m" by auto
  have dp: "decimal_parts r = (m, int z - int K)"
    using s by (simp add: decimal_parts_def pq Let_def K_def [symmetric] D_def [symmetric])
  have "(of_int (D * q) :: rat) = of_int (p * 10 ^ K)" using DK by (simp only:)
  then have "(of_int D :: rat) * of_int q = of_int p * 10 ^ K" by simp
  then have "(of_int D :: rat) = of_int p * 10 ^ K / of_int q" using q0 by (simp add: eq_divide_eq)
  then have "r = of_int D / 10 ^ K" using rpq by simp
  also have "(of_int D :: rat) = of_int (int (nat D))" using D0 by simp
  also have "\<dots> = of_nat m * 10 ^ z" by (simp add: Nm(1))
  finally have "r = scale10 (of_nat m) (int z - int K)" by (simp add: scale10_diff)
  with dp Nm(2) show ?thesis by blast
qed

section \<open>The layouts read back\<close>

lemma split_at_none: "\<not> (\<exists>x \<in> set s. P x) \<Longrightarrow> split_at P s = (s, None)"
  by (induction s) (auto simp: split_at_def)

lemma split_at_app: "\<not> (\<exists>x \<in> set a. P x) \<Longrightarrow> P c \<Longrightarrow> split_at P (a @ c # r) = (a, Some r)"
  by (induction a) (auto simp: split_at_def)

lemma digits_not_in: "list_all is_digit s \<Longrightarrow> (\<And>c. P c \<Longrightarrow> \<not> is_digit c) \<Longrightarrow> \<not> (\<exists>x \<in> set s. P x)"
  by (auto simp: list_all_iff)

lemma not_digit [simp]:
  "\<not> is_digit CHR ''.''" "\<not> is_digit CHR ''e''" "\<not> is_digit CHR ''E''" "\<not> is_digit CHR ''-''" "\<not> is_digit CHR ''+''"
  by (simp_all add: is_digit_def)

lemma exp_mark_simps [simp]: "\<not> exp_mark CHR ''0''" "\<not> exp_mark CHR ''.''"
  by (simp_all add: exp_mark_def)

lemma no_exp_mark_zeros [simp]: "\<forall>x \<in> set (replicate n (CHR ''0'')). \<not> exp_mark x"
  by (induction n) simp_all

lemma is_digit_zero [simp]: "is_digit CHR ''0''"
  by (simp add: is_digit_def)

lemma scale10_div: "scale10 (x / 10 ^ j) k = scale10 x (k - int j)"
proof -
  have k: "k = int (nat k) - int (nat (- k))" by simp
  have "k - int j = int (nat k) - int (nat (- k) + j)" by simp
  then show ?thesis
    by (subst (1) k, simp only: scale10_diff) (simp add: power_add)
qed

lemma digits_val_zero_Cons [simp]: "digits_val (CHR ''0'' # s) = digits_val s"
  using digits_val_zeros [of 1 s] by simp

lemma parse_mantissa_point:
  assumes "list_all is_digit (a @ f)" "a @ f \<noteq> []"
  shows "parse_mantissa (a @ CHR ''.'' # f) = Some (of_nat (digits_val (a @ f)) / 10 ^ length f)"
proof -
  have "\<not> (\<exists>x \<in> set a. x = CHR ''.'')" using assms(1) by (intro digits_not_in) simp_all
  with assms show ?thesis by (simp add: parse_mantissa_def split_at_app)
qed

lemma parse_unsigned_plain:
  assumes "\<not> (\<exists>x \<in> set s. exp_mark x)"
  shows "parse_unsigned s = parse_mantissa s"
  using assms by (simp add: parse_unsigned_def split_at_none)

lemma parse_fixed:
  assumes ds: "list_all is_digit ds" "ds \<noteq> []"
  shows "parse_unsigned (fixed_repr ds d) = Some (scale10 (of_nat (digits_val ds)) (d - int (length ds)))"
proof -
  have e: "\<not> (\<exists>x \<in> set ds. exp_mark x)" using ds(1) by (intro digits_not_in) (auto simp: exp_mark_def)
  consider "d \<le> 0" | "0 < d" "d < int (length ds)" | "int (length ds) \<le> d" by linarith
  then show ?thesis
  proof cases
    case 1
    let ?z = "nat (- d)"
    have s: "fixed_repr ds d = [CHR ''0''] @ CHR ''.'' # (replicate ?z (CHR ''0'') @ ds)"
      using 1 by (simp add: fixed_repr_def)
    have "parse_mantissa (fixed_repr ds d) = Some (of_nat (digits_val ds) / 10 ^ (?z + length ds))"
      unfolding s using ds by (subst parse_mantissa_point) (auto simp: list_all_iff)
    moreover have "\<not> (\<exists>x \<in> set (fixed_repr ds d). exp_mark x)" using e by (simp add: s ball_Un)
    moreover have "scale10 x (d - int (length ds)) = x / 10 ^ (?z + length ds)" for x
    proof -
      have l: "0 < length ds" using ds(2) by simp
      have "\<not> 0 \<le> d - int (length ds)" using 1 l by linarith
      moreover have "nat (- (d - int (length ds))) = ?z + length ds" using 1 by simp
      ultimately
      show ?thesis by (simp only: scale10_def if_False)
    qed
    ultimately show ?thesis by (simp add: parse_unsigned_plain)
  next
    case 2
    let ?a = "take (nat d) ds" and ?f = "drop (nat d) ds"
    have s: "fixed_repr ds d = ?a @ CHR ''.'' # ?f" using 2 by (simp add: fixed_repr_def)
    have "parse_mantissa (fixed_repr ds d) = Some (of_nat (digits_val ds) / 10 ^ length ?f)"
      unfolding s using ds by (subst parse_mantissa_point) simp_all
    moreover have "\<not> (\<exists>x \<in> set (fixed_repr ds d). exp_mark x)" using e by (auto simp: s exp_mark_def dest: in_set_takeD in_set_dropD)
    moreover have "scale10 x (d - int (length ds)) = x / 10 ^ length ?f" for x
    proof -
      have "\<not> 0 \<le> d - int (length ds)" using 2 by linarith
      moreover have "nat (- (d - int (length ds))) = length ?f" using 2 by simp
      ultimately show ?thesis by (simp only: scale10_def if_False)
    qed
    ultimately show ?thesis by (simp add: parse_unsigned_plain)
  next
    case 3
    let ?z = "nat d - length ds"
    have s: "fixed_repr ds d = (ds @ replicate ?z (CHR ''0'')) @ CHR ''.'' # [CHR ''0'']"
    proof -
      have l: "0 < length ds" using ds(2) by simp
      have "\<not> d \<le> 0" "\<not> d < int (length ds)" using 3 l by linarith+
      then show ?thesis by (simp add: fixed_repr_def)
    qed
    have "digits_val ((ds @ replicate ?z (CHR ''0'')) @ [CHR ''0'']) = digits_val ds * 10 ^ ?z * 10"
      using digits_val_append [of "ds @ replicate ?z (CHR ''0'')" "[CHR ''0'']"]
      by (simp add: digit_val_def digits_val_append_zeros)
    moreover have "parse_mantissa (fixed_repr ds d) =
        Some (of_nat (digits_val ((ds @ replicate ?z (CHR ''0'')) @ [CHR ''0''])) / 10)"
      unfolding s using ds by (subst parse_mantissa_point) (auto simp: list_all_iff)
    moreover have "\<not> (\<exists>x \<in> set (fixed_repr ds d). exp_mark x)" using e by (simp add: s ball_Un)
    moreover have "scale10 x (d - int (length ds)) = x * 10 ^ ?z" for x
    proof -
      have "0 \<le> d - int (length ds)" using 3 by linarith
      moreover have "nat (d - int (length ds)) = ?z" using 3 by linarith
      ultimately show ?thesis by (simp only: scale10_def if_True)
    qed
    ultimately show ?thesis by (simp add: parse_unsigned_plain)
  qed
qed

lemma exponent_digits:
  "list_all is_digit (let es = nat_str n in if length es < 2 then ''0'' @ es else es) \<and>
   (let es = nat_str n in if length es < 2 then ''0'' @ es else es) \<noteq> [] \<and>
   digits_val (let es = nat_str n in if length es < 2 then ''0'' @ es else es) = n"
  using nat_str_digits [of n] nat_str_nonempty [of n] by (simp add: Let_def)

lemma parse_exponent_sign:
  "parse_exponent ((if ex < 0 then ''-'' else ''+'') @
      (let es = nat_str (nat \<bar>ex\<bar>) in if length es < 2 then ''0'' @ es else es)) = Some ex"
proof -
  define P where "P = (let es = nat_str (nat \<bar>ex\<bar>) in if length es < 2 then ''0'' @ es else es)"
  have P: "list_all is_digit P" "P \<noteq> []" "digits_val P = nat \<bar>ex\<bar>"
    using exponent_digits [of "nat \<bar>ex\<bar>"] unfolding P_def by blast+
  have "parse_exponent ((if ex < 0 then ''-'' else ''+'') @ P) = Some ex"
    using P by (cases "ex < 0") (simp_all add: parse_exponent_def parse_digits_int_def)
  then show ?thesis by (simp only: P_def)
qed

lemma parse_mantissa_lead:
  assumes ds: "list_all is_digit ds" "ds \<noteq> []"
  shows "parse_mantissa (take 1 ds @ (if 1 < length ds then ''.'' @ drop 1 ds else [])) =
           Some (of_nat (digits_val ds) / 10 ^ (length ds - 1))"
proof (cases "1 < length ds")
  case True
  then show ?thesis using ds parse_mantissa_point [of "take 1 ds" "drop 1 ds"] by simp
next
  case False
  with ds(2) have "take 1 ds = ds" "length ds - 1 = 0" by (simp_all add: Suc_leI not_less)
  moreover have "\<not> (\<exists>x \<in> set ds. x = CHR ''.'')" using ds(1) by (intro digits_not_in) simp_all
  ultimately show ?thesis using False ds by (simp add: parse_mantissa_def split_at_none)
qed

lemma parse_unsigned_exp:
  "\<not> (\<exists>x \<in> set m. exp_mark x) \<Longrightarrow> parse_mantissa m = Some x \<Longrightarrow> parse_exponent es = Some k \<Longrightarrow>
   parse_unsigned (m @ CHR ''e'' # es) = Some (scale10 x k)"
  by (simp add: parse_unsigned_def split_at_app exp_mark_def)

lemma parse_sci:
  assumes ds: "list_all is_digit ds" "ds \<noteq> []"
  shows "parse_unsigned (sci_repr ds ex) = Some (scale10 (of_nat (digits_val ds)) (ex + 1 - int (length ds)))"
proof -
  let ?m = "take 1 ds @ (if 1 < length ds then ''.'' @ drop 1 ds else [])"
  let ?e = "(if ex < 0 then ''-'' else ''+'') @
            (let es = nat_str (nat \<bar>ex\<bar>) in if length es < 2 then ''0'' @ es else es)"
  have s: "sci_repr ds ex = ?m @ CHR ''e'' # ?e" by (simp add: sci_repr_def)
  have "\<not> (\<exists>x \<in> set ds. exp_mark x)" using ds(1) by (intro digits_not_in) (auto simp: exp_mark_def)
  then have "\<not> (\<exists>x \<in> set ?m. exp_mark x)" by (auto dest: in_set_takeD in_set_dropD)
  then have "parse_unsigned (sci_repr ds ex) =
               Some (scale10 (of_nat (digits_val ds) / 10 ^ (length ds - 1)) ex)"
    unfolding s by (rule parse_unsigned_exp [OF _ parse_mantissa_lead [OF ds] parse_exponent_sign])
  moreover have "ex - int (length ds - 1) = ex + 1 - int (length ds)"
    using ds(2) by (cases ds) simp_all
  ultimately show ?thesis by (simp only: scale10_div)
qed

lemma parse_float_digit: "is_digit c \<Longrightarrow> parse_float (c # t) = parse_unsigned (c # t)"
  by (auto simp: parse_float_def)

lemma repr_body_digit:
  assumes "list_all is_digit ds" "ds \<noteq> []"
  shows "\<exists>c t. fixed_repr ds d = c # t \<and> is_digit c" and "\<exists>c t. sci_repr ds x = c # t \<and> is_digit c"
proof -
  obtain c t where ds: "ds = c # t" using assms(2) by (cases ds) auto
  with assms(1) have c: "is_digit c" by simp
  show "\<exists>c t. fixed_repr ds d = c # t \<and> is_digit c"
    using c by (cases "nat d") (auto simp: fixed_repr_def ds)
  show "\<exists>c t. sci_repr ds x = c # t \<and> is_digit c"
    using c by (simp add: sci_repr_def ds)
qed

lemma parse_repr_body:
  assumes "0 < m"
  shows "parse_float (let ds = nat_str m; decpt = int (length ds) + e
                      in if decpt \<le> -4 \<or> 16 < decpt then sci_repr ds (decpt - 1) else fixed_repr ds decpt) =
           Some (scale10 (of_nat m) e)"
proof -
  define ds where "ds = nat_str m"
  have ds: "list_all is_digit ds" "ds \<noteq> []" "digits_val ds = m"
    by (simp_all add: ds_def nat_str_digits nat_str_nonempty)
  let ?d = "int (length ds) + e"
  have "parse_float (if ?d \<le> -4 \<or> 16 < ?d then sci_repr ds (?d - 1) else fixed_repr ds ?d) =
          Some (scale10 (of_nat m) e)"
  proof (cases "?d \<le> -4 \<or> 16 < ?d")
    case True
    obtain c t where "sci_repr ds (?d - 1) = c # t" "is_digit c" using repr_body_digit(2) [OF ds(1,2)] by blast
    then show ?thesis using True parse_sci [OF ds(1,2), of "?d - 1"] ds(3) by (simp add: parse_float_digit)
  next
    case False
    obtain c t where "fixed_repr ds ?d = c # t" "is_digit c" using repr_body_digit(1) [OF ds(1,2)] by blast
    then show ?thesis using False parse_fixed [OF ds(1,2), of ?d] ds(3) by (simp add: parse_float_digit)
  qed
  then show ?thesis unfolding Let_def ds_def .
qed

section \<open>Round trip\<close>

text \<open>Every finite decimal \<open>n / 10^k\<close>, in particular every float, is printed by
  \<open>float_repr\<close> as a text that \<open>float()\<close> reads back as the same value.\<close>

lemma float_repr_roundtrip:
  "parse_float (float_repr (of_int n / 10 ^ k)) = Some (of_int n / 10 ^ k)"
proof (cases "n = 0")
  case True
  then show ?thesis by (simp add: float_repr_def parse_float_def parse_unsigned_def parse_mantissa_def split_at_def exp_mark_def is_digit_def digit_val_def)
next
  case False
  let ?r = "of_int n / 10 ^ k :: rat"
  have "\<bar>?r\<bar> = of_int \<bar>n\<bar> / 10 ^ k" by simp
  moreover have "0 < \<bar>?r\<bar>" using False by simp
  ultimately obtain m e where dp: "decimal_parts \<bar>?r\<bar> = (m, e)" and m: "0 < m" and a: "\<bar>?r\<bar> = scale10 (of_nat m) e"
    using decimal_parts_exact by blast
  define body where "body = (let ds = nat_str m; decpt = int (length ds) + e
                      in if decpt \<le> -4 \<or> 16 < decpt then sci_repr ds (decpt - 1) else fixed_repr ds decpt)"
  have pb: "parse_float body = Some \<bar>?r\<bar>" using parse_repr_body [OF m, of e] a by (simp add: body_def)
  have "\<exists>c t. body = c # t \<and> is_digit c"
    using repr_body_digit(1) [OF nat_str_digits nat_str_nonempty, of m "int (length (nat_str m)) + e"]
      repr_body_digit(2) [OF nat_str_digits nat_str_nonempty, of m "int (length (nat_str m)) + e - 1"]
    by (simp add: body_def Let_def)
  then obtain c t where bt: "body = c # t" "is_digit c" by blast
  have f: "float_repr ?r = (if ?r < 0 then CHR ''-'' # body else body)"
    using False dp by (simp add: float_repr_def body_def Let_def)
  show ?thesis
  proof (cases "?r < 0")
    case True
    have "parse_unsigned body = Some \<bar>?r\<bar>" using pb bt by (simp add: parse_float_digit)
    moreover have "n < 0" using True by (simp add: divide_less_0_iff)
    ultimately show ?thesis using f True by (simp add: parse_float_def)
  next
    case False
    then have "0 \<le> n" by (simp add: divide_less_0_iff not_less)
    with False f pb show ?thesis by simp
  qed
qed

end
