(* ===== verification/JsonText.thy ===== *)
theory JsonText
  imports FloatText "HOL-Library.AList" "HOL-Library.List_Lexorder" "HOL-Library.Char_ord"
    "HOL-Library.Monad_Syntax"
begin

text \<open>
  The JSON text at the two ends of the route. Flask's \<open>jsonify\<close> (lines 30, 32, 49, 58,
  112--131 and 134) writes every response body with Python's \<open>json.dumps\<close>, called by
  Flask's \<open>DefaultJSONProvider\<close> with \<open>sort_keys=True\<close> and \<open>ensure_ascii=True\<close>,
  indented by two spaces when the application runs in debug mode (\<open>app.run(debug=True)\<close>,
  line 138) and with the compact separators \<open>(",", ":")\<close> otherwise, followed by a
  newline. \<open>request.get_json()\<close> (line 25) reads the request body with Python's
  \<open>json.loads\<close>, whose scanner is the C scanner of CPython's \<open>_json\<close> module.

  \<open>json_enc\<close> is the encoder, \<open>scan\<close> the scanner: one \<open>partial_function (option)\<close>
  whose mode says which of the scanner's procedures runs (\<open>scan_once\<close> on a value, the
  element loop of \<open>_parse_array\<close>, the member loop of \<open>_parse_object\<close>), so that
  \<open>None\<close> would be a scan that never ends. \<open>json_loads\<close> is \<open>json.loads\<close>:
  whitespace, one value, whitespace, the end of the text. An error is Python's
  \<open>JSONDecodeError\<close> with its message and position, or the \<open>ValueError\<close> that
  \<open>int()\<close> raises on more than 4300 digits. Two inputs have no value in the model, whose
  floats are exact rationals and whose strings hold code points below 256: the constants
  \<open>NaN\<close>, \<open>Infinity\<close>, \<open>-Infinity\<close>, and \<open>\u\<close> escapes above \<open>U+00FF\<close>;
  the scanner stops on them with \<open>Unmodelled\<close>.
\<close>

section \<open>Writing JSON\<close>

text \<open>\<open>py_encode_basestring_ascii\<close>: the quote and the backslash escaped, the five
  named controls by name, every other character outside \<open>' '..'~'\<close> as
  \<open>\u00xx\<close> in lower-case hex.\<close>

definition json_escape :: "char \<Rightarrow> string" where
  "json_escape c =
     (let n = (of_char c :: nat) in
      if c = dquote \<or> c = backslash then [backslash, c]
      else if n = 8 then [backslash, CHR ''b'']
      else if n = 12 then [backslash, CHR ''f'']
      else if n = 10 then [backslash, CHR ''n'']
      else if n = 13 then [backslash, CHR ''r'']
      else if n = 9 then [backslash, CHR ''t'']
      else if n < 32 \<or> 126 < n
      then [backslash, CHR ''u'', CHR ''0'', CHR ''0'', hex_digit (n div 16), hex_digit (n mod 16)]
      else [c])"

definition json_str :: "string \<Rightarrow> string" where
  "json_str s = dquote # concat (map json_escape s) @ [dquote]"

fun join_sep :: "string \<Rightarrow> string list \<Rightarrow> string" where
  "join_sep sep [] = []"
| "join_sep sep [s] = s"
| "join_sep sep (s # ss) = s @ sep @ join_sep sep ss"

text \<open>The line break and indentation before an item at depth \<open>l\<close>: \<open>'\n' + '  ' * l\<close>
  when indenting, nothing in the compact layout.\<close>

definition newline_indent :: "bool \<Rightarrow> nat \<Rightarrow> string" where
  "newline_indent pretty l = (if pretty then CHR 0x0A # replicate (2 * l) (CHR '' '') else [])"

text \<open>\<open>_make_iterencode\<close>: \<open>None\<close>, booleans, \<open>int.__repr__\<close>, \<open>float.__repr__\<close>,
  strings, and lists and dicts item by item, a dict's items in the order of
  \<open>sorted(dct.items())\<close>; the item separator \<open>','\<close>, the key separator \<open>': '\<close>
  when indenting and \<open>':'\<close> in the compact layout.\<close>

function json_enc :: "bool \<Rightarrow> nat \<Rightarrow> pyval \<Rightarrow> string" where
  "json_enc pretty l PNone = ''null''"
| "json_enc pretty l (PBool b) = (if b then ''true'' else ''false'')"
| "json_enc pretty l (PInt i) = int_str i"
| "json_enc pretty l (PFloat r) = float_repr r"
| "json_enc pretty l (PStr s) = json_str s"
| "json_enc pretty l (PList xs) =
     (if xs = [] then ''[]''
      else ''['' @ newline_indent pretty (Suc l) @
           join_sep ('','' @ newline_indent pretty (Suc l)) (map (json_enc pretty (Suc l)) xs) @
           newline_indent pretty l @ '']'')"
| "json_enc pretty l (PDict kvs) =
     (if kvs = [] then ''{}''
      else ''{'' @ newline_indent pretty (Suc l) @
           join_sep ('','' @ newline_indent pretty (Suc l))
             (map (\<lambda>(k, v). json_str k @ (if pretty then '': '' else '':'') @ json_enc pretty (Suc l) v)
                  (sort_key fst kvs)) @
           newline_indent pretty l @ ''}'')"
  by pat_completeness auto
termination
  by (relation "measure (\<lambda>(pretty, l, v). size v)")
     (auto intro!: le_imp_less_Suc intro: size_list_estimation')

text \<open>\<open>jsonify(v)\<close>: the text of the response body.\<close>

definition jsonify :: "bool \<Rightarrow> pyval \<Rightarrow> string" where
  "jsonify debug v = json_enc debug 0 v @ [CHR 0x0A]"

section \<open>Reading JSON\<close>

text \<open>A decoding error, with the number of characters of the text left at the position
  Python reports (\<open>len(s) - pos\<close>), so that the scanner can work on the rest of the
  text.\<close>

datatype json_error =
    JsonDecodeError string nat
  | IntDigitLimit nat
  | Unmodelled nat

definition json_ws :: "char \<Rightarrow> bool" where
  "json_ws c \<longleftrightarrow> c = CHR '' '' \<or> c = CHR 0x09 \<or> c = CHR 0x0A \<or> c = CHR 0x0D"

abbreviation skip_ws :: "string \<Rightarrow> string" where
  "skip_ws \<equiv> dropWhile json_ws"

definition next_is :: "char \<Rightarrow> string \<Rightarrow> bool" where
  "next_is c s \<longleftrightarrow> s \<noteq> [] \<and> hd s = c"

definition json_fail :: "string \<Rightarrow> string \<Rightarrow> (json_error + 'a) option" where
  "json_fail msg s = Some (Inl (JsonDecodeError msg (length s)))"

subsection \<open>Strings (\<open>scanstring_unicode\<close>)\<close>

definition hex_val :: "char \<Rightarrow> nat option" where
  "hex_val c =
     (let n = (of_char c :: nat) in
      if 48 \<le> n \<and> n \<le> 57 then Some (n - 48)
      else if 97 \<le> n \<and> n \<le> 102 then Some (n - 87)
      else if 65 \<le> n \<and> n \<le> 70 then Some (n - 55) else None)"

definition hex4 :: "string \<Rightarrow> nat option" where
  "hex4 s =
     (case those (map hex_val s) of
        Some [a, b, c, d] \<Rightarrow> Some (((a * 16 + b) * 16 + c) * 16 + d)
      | _ \<Rightarrow> None)"

definition simple_escape :: "char \<Rightarrow> char option" where
  "simple_escape e =
     (if e = dquote \<or> e = backslash \<or> e = CHR ''/'' then Some e
      else if e = CHR ''b'' then Some (CHR 0x08)
      else if e = CHR ''f'' then Some (CHR 0x0C)
      else if e = CHR ''n'' then Some (CHR 0x0A)
      else if e = CHR ''r'' then Some (CHR 0x0D)
      else if e = CHR ''t'' then Some (CHR 0x09) else None)"

text \<open>The characters after an opening quote, \<open>q\<close> characters from the end, read up to
  the closing quote; the characters read so far are \<open>acc\<close>, reversed. A control
  character, an unknown escape and a \<open>\u\<close> escape without four hex digits and a character
  after them are errors at the position the C scanner names (the character, the backslash,
  the \<open>u\<close>); a text that ends first is the error \<open>Unterminated string\<close> at the quote.\<close>

fun scan_string :: "nat \<Rightarrow> string \<Rightarrow> string \<Rightarrow> json_error + string \<times> string" where
  "scan_string q acc [] = Inl (JsonDecodeError ''Unterminated string starting at'' q)"
| "scan_string q acc (c # cs) =
     (if c = dquote then Inr (rev acc, cs)
      else if c = backslash then
        (case cs of
           [] \<Rightarrow> Inl (JsonDecodeError ''Unterminated string starting at'' q)
         | e # cs' \<Rightarrow>
             if e = CHR ''u'' then
               (case if length cs' \<le> 4 then None else hex4 (take 4 cs') of
                  None \<Rightarrow> Inl (JsonDecodeError (''Invalid '' @ backslash # ''uXXXX escape'') (length cs))
                | Some n \<Rightarrow>
                    if n < 256 then scan_string q (char_of n # acc) (drop 4 cs')
                    else Inl (Unmodelled (length cs)))
             else
               (case simple_escape e of
                  Some d \<Rightarrow> scan_string q (d # acc) cs'
                | None \<Rightarrow> Inl (JsonDecodeError (''Invalid '' @ backslash # ''escape'') (length (c # cs)))))
      else if (of_char c :: nat) < 32
      then Inl (JsonDecodeError ''Invalid control character at'' (length (c # cs)))
      else scan_string q (c # acc) cs)"

subsection \<open>Numbers (\<open>_match_number_unicode\<close>)\<close>

text \<open>The longest prefix matching \<open>-?(0|[1-9][0-9]*)(\.[0-9]+)?([eE][-+]?[0-9]+)?\<close>:
  the integer part, then a fraction only if a digit follows the point, then an exponent
  only if a digit follows the \<open>e\<close> and its sign.\<close>

definition scan_int_part :: "string \<Rightarrow> (string \<times> string) option" where
  "scan_int_part s =
     (case s of
        [] \<Rightarrow> None
      | d # r \<Rightarrow>
          if d = CHR ''0'' then Some ([d], r)
          else if is_digit d then Some (d # takeWhile is_digit r, dropWhile is_digit r)
          else None)"

definition scan_frac :: "string \<Rightarrow> string \<times> string" where
  "scan_frac s =
     (case s of
        c # d # r \<Rightarrow>
          if c = CHR ''.'' \<and> is_digit d then (c # d # takeWhile is_digit r, dropWhile is_digit r)
          else ([], s)
      | _ \<Rightarrow> ([], s))"

definition scan_exp :: "string \<Rightarrow> string \<times> string" where
  "scan_exp s =
     (case s of
        c # r \<Rightarrow>
          if exp_mark c then
            (let (sg, r') = (case r of
                               x # r'' \<Rightarrow> if x = CHR ''-'' \<or> x = CHR ''+'' then ([x], r'') else ([], r)
                             | [] \<Rightarrow> ([], []));
                 ds = takeWhile is_digit r'
             in if ds = [] then ([], s) else (c # sg @ ds, dropWhile is_digit r'))
          else ([], s)
      | [] \<Rightarrow> ([], s))"

text \<open>The token, whether it is a float (it has a fraction or an exponent), and the rest.\<close>

definition scan_number :: "string \<Rightarrow> (string \<times> bool \<times> string) option" where
  "scan_number s =
     (let (sg, r0) = (case s of
                        c # r \<Rightarrow> if c = CHR ''-'' then ([c], r) else ([], s)
                      | [] \<Rightarrow> ([], []))
      in case scan_int_part r0 of
           None \<Rightarrow> None
         | Some (ip, r1) \<Rightarrow>
             (let (fp, r2) = scan_frac r1; (ep, r3) = scan_exp r2
              in Some (sg @ ip @ fp @ ep, fp \<noteq> [] \<or> ep \<noteq> [], r3)))"

text \<open>A float token is converted by \<open>float()\<close>, an integer token by \<open>int()\<close>, which
  refuses more than 4300 digits (\<open>sys.get_int_max_str_digits()\<close>).\<close>

definition number_value :: "string \<Rightarrow> bool \<Rightarrow> json_error + pyval" where
  "number_value tok is_float =
     (if is_float then
        (case parse_float tok of
           Some x \<Rightarrow> Inr (PFloat x)
         | None \<Rightarrow> Inl (JsonDecodeError ''Expecting value'' (length tok)))
      else
        (let ds = filter is_digit tok
         in if 4300 < length ds then Inl (IntDigitLimit (length ds))
            else Inr (PInt (if next_is CHR ''-'' tok then - int (digits_val ds) else int (digits_val ds)))))"

subsection \<open>Values, arrays and objects (\<open>scan_once_unicode\<close>)\<close>

text \<open>The three procedures of the scanner: \<open>Value\<close> reads one value at the start of
  the text; \<open>Items acc\<close> reads the elements of an array from its first element on
  (\<open>acc\<close> the elements read, reversed); \<open>Members d\<close> reads the members of an object
  from its first key on, \<open>d\<close> the dict built so far by \<open>PyDict_SetItem\<close>
  (\<open>AList.update\<close>: a repeated key keeps its place and takes the new value). Each
  returns the value and the text after it.\<close>

datatype scan_mode =
    Value
  | Items "pyval list"
  | Members "(string \<times> pyval) list"

definition named_constant :: "string \<Rightarrow> (pyval \<times> nat) option" where
  "named_constant s =
     (if take 4 s = ''null'' then Some (PNone, 4)
      else if take 4 s = ''true'' then Some (PBool True, 4)
      else if take 5 s = ''false'' then Some (PBool False, 5)
      else None)"

definition non_finite :: "string \<Rightarrow> bool" where
  "non_finite s \<longleftrightarrow> take 3 s = ''NaN'' \<or> take 8 s = ''Infinity'' \<or> take 9 s = ''-Infinity''"

partial_function (option) scan :: "scan_mode \<Rightarrow> string \<Rightarrow> (json_error + pyval \<times> string) option" where
  "scan m s =
     (case m of
        Value \<Rightarrow>
          (case s of
             [] \<Rightarrow> json_fail ''Expecting value'' s
           | c # r \<Rightarrow>
               if c = dquote then Some (map_sum id (apfst PStr) (scan_string (length s) [] r))
               else if c = CHR ''{'' then
                 (if next_is CHR ''}'' (skip_ws r) then Some (Inr (PDict [], tl (skip_ws r)))
                  else scan (Members []) (skip_ws r))
               else if c = CHR ''['' then
                 (if next_is CHR '']'' (skip_ws r) then Some (Inr (PList [], tl (skip_ws r)))
                  else scan (Items []) (skip_ws r))
               else
                 (case named_constant s of
                    Some (v, n) \<Rightarrow> Some (Inr (v, drop n s))
                  | None \<Rightarrow>
                      if non_finite s then Some (Inl (Unmodelled (length s)))
                      else
                        (case scan_number s of
                           None \<Rightarrow> json_fail ''Expecting value'' s
                         | Some (tok, fl, rest) \<Rightarrow> Some (map_sum id (\<lambda>v. (v, rest)) (number_value tok fl)))))
      | Items acc \<Rightarrow>
          do {
            x \<leftarrow> scan Value s;
            (case x of
               Inl e \<Rightarrow> Some (Inl e)
             | Inr (v, rest) \<Rightarrow>
                 (let r = skip_ws rest in
                  if next_is CHR '']'' r then Some (Inr (PList (rev (v # acc)), tl r))
                  else if next_is CHR '','' r then scan (Items (v # acc)) (skip_ws (tl r))
                  else json_fail (''Expecting '' @ quoted '','' @ '' delimiter'') r))
          }
      | Members d \<Rightarrow>
          if \<not> next_is dquote s then json_fail ''Expecting property name enclosed in double quotes'' s
          else
            (case scan_string (length s) [] (tl s) of
               Inl e \<Rightarrow> Some (Inl e)
             | Inr (k, rest) \<Rightarrow>
                 (let r = skip_ws rest in
                  if \<not> next_is CHR '':'' r then json_fail (''Expecting '' @ quoted '':'' @ '' delimiter'') r
                  else do {
                    x \<leftarrow> scan Value (skip_ws (tl r));
                    (case x of
                       Inl e \<Rightarrow> Some (Inl e)
                     | Inr (v, rest') \<Rightarrow>
                         (let r' = skip_ws rest'; d' = AList.update k v d in
                          if next_is CHR ''}'' r' then Some (Inr (PDict d', tl r'))
                          else if next_is CHR '','' r' then scan (Members d') (skip_ws (tl r'))
                          else json_fail (''Expecting '' @ quoted '','' @ '' delimiter'') r'))
                  })))"

declare scan.simps [code]

text \<open>\<open>json.loads(s)\<close>: whitespace, one value, whitespace, and nothing after it
  (\<open>Extra data\<close> otherwise).\<close>

definition json_loads :: "string \<Rightarrow> (json_error + pyval) option" where
  "json_loads s =
     do {
       x \<leftarrow> scan Value (skip_ws s);
       Some (case x of
               Inl e \<Rightarrow> Inl e
             | Inr (v, rest) \<Rightarrow>
                 if skip_ws rest = [] then Inr v
                 else Inl (JsonDecodeError ''Extra data'' (length (skip_ws rest))))
     }"

text \<open>\<open>str(e)\<close> of the error, for the text \<open>doc\<close> it was raised on:
  \<open>JSONDecodeError\<close>'s \<open>'%s: line %d column %d (char %d)'\<close>, and the \<open>ValueError\<close>
  of \<open>int()\<close>.\<close>

definition json_error_str :: "string \<Rightarrow> json_error \<Rightarrow> string" where
  "json_error_str doc e =
     (case e of
        JsonDecodeError msg left \<Rightarrow>
          (let pos = length doc - left; seen = take pos doc;
               lineno = Suc (length (filter (\<lambda>c. c = CHR 0x0A) seen));
               colno = Suc (length (takeWhile (\<lambda>c. c \<noteq> CHR 0x0A) (rev seen)))
           in msg @ '': line '' @ nat_str lineno @ '' column '' @ nat_str colno @
              '' (char '' @ nat_str pos @ '')'')
      | IntDigitLimit n \<Rightarrow>
          ''Exceeds the limit (4300 digits) for integer string conversion: value has '' @
          nat_str n @ '' digits; use sys.set_int_max_str_digits() to increase the limit''
      | Unmodelled left \<Rightarrow> [])"

subsection \<open>What a written value reads back as\<close>

text \<open>A value with every dict's items in key order, as \<open>sort_keys=True\<close> writes them.\<close>

function (sequential) sort_dicts :: "pyval \<Rightarrow> pyval" where
  "sort_dicts (PList xs) = PList (map sort_dicts xs)"
| "sort_dicts (PDict kvs) = PDict (map (\<lambda>(k, v). (k, sort_dicts v)) (sort_key fst kvs))"
| "sort_dicts v = v"
  by pat_completeness auto
termination
  by (relation "measure size") (auto intro!: le_imp_less_Suc intro: size_list_estimation')

text \<open>The values \<open>json.loads\<close> reads back as written: an \<open>int\<close> of at most 4300
  digits, a \<open>float\<close> whose repr reads back as itself (every finite decimal, as
  \<open>FloatText\<close> shows).\<close>

fun json_readable :: "pyval \<Rightarrow> bool" where
  "json_readable (PInt i) \<longleftrightarrow> length (nat_str (nat \<bar>i\<bar>)) \<le> 4300"
| "json_readable (PFloat r) \<longleftrightarrow> parse_float (float_repr r) = Some r"
| "json_readable (PList xs) \<longleftrightarrow> list_all json_readable xs"
| "json_readable (PDict kvs) \<longleftrightarrow> list_all (\<lambda>kv. json_readable (snd kv)) kvs"
| "json_readable v \<longleftrightarrow> True"

section \<open>The scanner always returns\<close>

text \<open>Every procedure of the scanner returns, and a value it reads is followed by less
  text than it started on: strong induction on the length of the text, where reading a
  value and the first element of an array read the same text and every other call reads
  less (\<open>scan_total\<close>).\<close>

lemma next_is_shorter: "next_is c s \<Longrightarrow> length (tl s) < length s"
  by (cases s) (simp_all add: next_is_def)
lemma scan_string_shorter: "scan_string q acc s = Inr (k, rest) \<Longrightarrow> length rest < length s"
proof (induction q acc s rule: scan_string.induct)
  case (2 q acc c cs)
  show ?case
  proof (cases "c = dquote")
    case True
    then show ?thesis using "2.prems" by simp
  next
    case nq: False
    show ?thesis
    proof (cases "c = backslash")
      case False
      with nq "2.prems" "2.IH"(3) show ?thesis by (simp split: if_splits)
    next
      case True
      then obtain e cs' where cs: "cs = e # cs'" using nq "2.prems" by (cases cs) auto
      show ?thesis
      proof (cases "e = CHR ''u''")
        case True
        then obtain n where "(if length cs' \<le> 4 then None else hex4 (take 4 cs')) = Some n" "n < 256"
          "scan_string q (char_of n # acc) (drop 4 cs') = Inr (k, rest)"
          using nq \<open>c = backslash\<close> "2.prems" cs by (auto split: option.splits if_splits)
        then show ?thesis using "2.IH"(1) [OF nq \<open>c = backslash\<close> cs True] cs by fastforce
      next
        case False
        then obtain d where "simple_escape e = Some d" "scan_string q (d # acc) cs' = Inr (k, rest)"
          using nq \<open>c = backslash\<close> "2.prems" cs by (auto split: option.splits)
        then show ?thesis using "2.IH"(2) [OF nq \<open>c = backslash\<close> cs False] cs by fastforce
      qed
    qed
  qed
qed simp
lemma scan_int_part_split: "scan_int_part s = Some (ip, r) \<Longrightarrow> s = ip @ r \<and> ip \<noteq> []"
  by (cases s) (auto simp: scan_int_part_def split: if_splits)

lemma scan_frac_split: "scan_frac s = (fp, r) \<Longrightarrow> s = fp @ r"
  unfolding scan_frac_def by (cases s rule: remdups_adj.cases) (auto split: if_splits)

lemma scan_exp_split: "scan_exp s = (ep, r) \<Longrightarrow> s = ep @ r"
proof (cases s)
  case (Cons c t)
  assume e: "scan_exp s = (ep, r)"
  obtain sg t' where st: "(case t of x # r'' \<Rightarrow> if x = CHR ''-'' \<or> x = CHR ''+'' then ([x], r'') else ([], t)
                             | [] \<Rightarrow> ([], [])) = (sg, t')" by fastforce
  have "t = sg @ t'" using st by (cases t) (auto split: if_splits)
  with e Cons st show ?thesis by (auto simp: scan_exp_def Let_def split: if_splits)
qed (simp add: scan_exp_def)
lemma scan_number_split: "scan_number s = Some (tok, fl, rest) \<Longrightarrow> s = tok @ rest \<and> tok \<noteq> []"
proof -
  assume n: "scan_number s = Some (tok, fl, rest)"
  obtain sg r0 where sr: "(case s of c # r \<Rightarrow> if c = CHR ''-'' then ([c], r) else ([], s) | [] \<Rightarrow> ([], [])) = (sg, r0)"
    by fastforce
  have s: "s = sg @ r0" using sr by (cases s) (auto split: if_splits)
  obtain ip r1 where ip: "scan_int_part r0 = Some (ip, r1)"
    using n sr by (auto simp: scan_number_def split: option.splits)
  obtain fp r2 where fp: "scan_frac r1 = (fp, r2)" by fastforce
  obtain ep r3 where ep: "scan_exp r2 = (ep, r3)" by fastforce
  have "tok = sg @ ip @ fp @ ep" "rest = r3"
    using n sr ip fp ep by (simp_all add: scan_number_def)
  then show ?thesis
    using s scan_int_part_split [OF ip] scan_frac_split [OF fp] scan_exp_split [OF ep] by simp
qed

lemma scan_number_shorter: "scan_number s = Some (tok, fl, rest) \<Longrightarrow> length rest < length s"
  by (drule scan_number_split) auto

lemma named_constant_split: "named_constant s = Some (v, n) \<Longrightarrow> 0 < n \<and> n \<le> length s"
proof -
  have k: "take k s = t \<Longrightarrow> length t = k \<Longrightarrow> k \<le> length s" for k t
    by (metis min.absorb_iff2 length_take)
  assume "named_constant s = Some (v, n)"
  then consider "take 4 s = ''null''" "n = 4" | "take 4 s = ''true''" "n = 4" | "take 5 s = ''false''" "n = 5"
    by (auto simp: named_constant_def split: if_splits)
  then show ?thesis by cases (auto dest: k)
qed
lemma scan_value_total:
  assumes IH: "\<And>m' s'. length s' < length s \<Longrightarrow>
                 \<exists>r. scan m' s' = Some r \<and> (\<forall>v rest. r = Inr (v, rest) \<longrightarrow> length rest < length s')"
  shows "\<exists>r. scan Value s = Some r \<and> (\<forall>v rest. r = Inr (v, rest) \<longrightarrow> length rest < length s)"
proof (cases s)
  case Nil
  then show ?thesis by (simp add: scan.simps json_fail_def)
next
  case (Cons c r)
  have ws: "length (skip_ws r) < length s" using Cons by (simp add: le_imp_less_Suc length_dropWhile_le)
  then have tl: "next_is x (skip_ws r) \<Longrightarrow> length (tl (skip_ws r)) < length s" for x
    using next_is_shorter [of x "skip_ws r"] by linarith
  consider "c = dquote" | "c = CHR ''{''" | "c = CHR ''[''"
    | "c \<noteq> dquote" "c \<noteq> CHR ''{''" "c \<noteq> CHR ''[''" by blast
  then show ?thesis
  proof cases
    case 1
    then show ?thesis using Cons
      by (cases "scan_string (length s) [] r") (auto simp: scan.simps dest: scan_string_shorter)
  next
    case 2
    then show ?thesis using Cons ws IH [OF ws, of "Members []"] tl [of "CHR ''}''"]
      by (subst scan.simps) (auto simp: dquote_def)
  next
    case 3
    then show ?thesis using Cons ws IH [OF ws, of "Items []"] tl [of "CHR '']''"]
      by (subst scan.simps) (auto simp: dquote_def)
  next
    case 4
    show ?thesis
    proof (cases "named_constant s")
      case (Some vn)
      obtain v n where vn: "vn = (v, n)" by fastforce
      then show ?thesis using Some 4 Cons named_constant_split [of s v n]
        by (subst scan.simps) auto
    next
      case None
      then show ?thesis using 4 Cons
        by (subst scan.simps)
           (auto simp: json_fail_def map_sum_Inr_iff split: option.split dest!: scan_number_shorter)
    qed
  qed
qed

lemma scan_items_total:
  assumes IH: "\<And>m' s'. length s' < length s \<Longrightarrow>
                 \<exists>r. scan m' s' = Some r \<and> (\<forall>v rest. r = Inr (v, rest) \<longrightarrow> length rest < length s')"
  shows "\<exists>r. scan (Items acc) s = Some r \<and> (\<forall>v rest. r = Inr (v, rest) \<longrightarrow> length rest < length s)"
proof -
  obtain x where x: "scan Value s = Some x" "\<forall>v rest. x = Inr (v, rest) \<longrightarrow> length rest < length s"
    using scan_value_total [OF IH] by blast
  show ?thesis
  proof (cases x)
    case (Inl e)
    then show ?thesis using x by (subst scan.simps) simp
  next
    case (Inr vr)
    obtain v rest where vr: "vr = (v, rest)" by fastforce
    let ?r = "skip_ws rest"
    have r: "length ?r < length s" using x Inr vr length_dropWhile_le [of json_ws rest] by auto
    then have t: "length (skip_ws (tl ?r)) < length s"
      using length_dropWhile_le [of json_ws "tl ?r"] by simp
    show ?thesis
      using x Inr vr IH [OF t, of "Items (v # acc)"] r t next_is_shorter [of _ ?r]
      by (subst scan.simps) (auto simp: Let_def json_fail_def)
  qed
qed

lemma scan_members_total:
  assumes IH: "\<And>m' s'. length s' < length s \<Longrightarrow>
                 \<exists>r. scan m' s' = Some r \<and> (\<forall>v rest. r = Inr (v, rest) \<longrightarrow> length rest < length s')"
  shows "\<exists>r. scan (Members d) s = Some r \<and> (\<forall>v rest. r = Inr (v, rest) \<longrightarrow> length rest < length s)"
proof (cases "next_is dquote s \<and> (\<exists>k rest. scan_string (length s) [] (tl s) = Inr (k, rest))")
  case False
  then show ?thesis by (subst scan.simps) (auto simp: json_fail_def split: sum.split)
next
  case True
  then obtain k rest where k: "scan_string (length s) [] (tl s) = Inr (k, rest)" "next_is dquote s" by blast
  let ?r = "skip_ws rest"
  have "length rest < length (tl s)" using scan_string_shorter [OF k(1)] .
  then have r: "length ?r < length s"
    using length_dropWhile_le [of json_ws rest] next_is_shorter [OF k(2)] by linarith
  then have t: "length (skip_ws (tl ?r)) < length s"
    using length_dropWhile_le [of json_ws "tl ?r"] by simp
  obtain x where x: "scan Value (skip_ws (tl ?r)) = Some x"
    "\<forall>v rest'. x = Inr (v, rest') \<longrightarrow> length rest' < length (skip_ws (tl ?r))"
    using IH [OF t, of Value] by blast
  show ?thesis
  proof (cases x)
    case (Inl e)
    then show ?thesis using k x by (subst scan.simps) (auto simp: Let_def json_fail_def)
  next
    case (Inr vr)
    obtain v rest' where vr: "vr = (v, rest')" by fastforce
    let ?r' = "skip_ws rest'"
    have r': "length ?r' < length s" using x Inr vr t length_dropWhile_le [of json_ws rest'] by auto
    then have t': "length (skip_ws (tl ?r')) < length s"
      using length_dropWhile_le [of json_ws "tl ?r'"] by simp
    show ?thesis
      using k x Inr vr IH [OF t', of "Members (AList.update k v d)"] r' t' next_is_shorter [of _ ?r']
      by (subst scan.simps) (auto simp: Let_def json_fail_def)
  qed
qed

lemma scan_total: "\<exists>r. scan m s = Some r \<and> (\<forall>v rest. r = Inr (v, rest) \<longrightarrow> length rest < length s)"
proof (induction "length s" arbitrary: m s rule: less_induct)
  case less
  then have IH: "\<And>m' s'. length s' < length s \<Longrightarrow>
                 \<exists>r. scan m' s' = Some r \<and> (\<forall>v rest. r = Inr (v, rest) \<longrightarrow> length rest < length s')"
    by blast
  show ?case
    by (cases m) (auto intro: scan_value_total [OF IH] scan_items_total [OF IH] scan_members_total [OF IH])
qed

text \<open>\<open>json.loads\<close>, as \<open>request.get_json()\<close> calls it on the request body, returns on
  every text: a value or a decoding error, never a scan that does not end.\<close>

lemma json_loads_total: "\<exists>r. json_loads s = Some r"
  using scan_total [of Value "skip_ws s"] by (auto simp: json_loads_def)

section \<open>Reading back what jsonify writes\<close>

text \<open>Each piece the encoder writes is read back by the matching procedure of the
  scanner: an escaped string by \<open>scan_string\<close> (\<open>scan_string_json_str\<close>); the text
  of an \<open>int\<close> and of a float's repr as one number token
  (\<open>scan_number_int_str\<close>, \<open>scan_number_float_repr\<close>), whatever follows them being
  a separator; the items of a list and the members of a dict, with the separators and
  the indentation between them, by the element and member loops (\<open>scan_items_join\<close>,
  \<open>scan_members_join\<close>). \<open>scan_json_enc\<close> puts them together by induction over
  the encoder.\<close>

lemma hex_val_digit: "n < 16 \<Longrightarrow> hex_val (hex_digit n) = Some n"
  by (auto simp: hex_val_def hex_digit_def Let_def)

lemma hex4_byte:
  "n < 256 \<Longrightarrow> hex4 [CHR ''0'', CHR ''0'', hex_digit (n div 16), hex_digit (n mod 16)] = Some n"
proof -
  assume n: "n < 256"
  then have "n div 16 < 16" by simp
  moreover have "hex_val (CHR ''0'') = Some 0" by (simp add: hex_val_def)
  ultimately show ?thesis using n by (simp add: hex4_def hex_val_digit)
qed

lemma scan_string_escape:
  assumes "rest \<noteq> []"
  shows "scan_string q acc (json_escape c @ rest) = scan_string q (c # acc) rest"
proof -
  define n where "n = (of_char c :: nat)"
  have c: "c = char_of n" by (simp add: n_def)
  have n256: "n < 256" by (simp add: n_def)
  consider "c = dquote \<or> c = backslash" | "c \<noteq> dquote" "c \<noteq> backslash" "n \<in> {8, 12, 10, 13, 9}"
    | "c \<noteq> dquote" "c \<noteq> backslash" "n \<notin> {8, 12, 10, 13, 9}" "n < 32 \<or> 126 < n"
    | "c \<noteq> dquote" "c \<noteq> backslash" "\<not> (n < 32 \<or> 126 < n)" by blast
  then show ?thesis
  proof cases
    case 1
    then show ?thesis by (auto simp: json_escape_def simple_escape_def dquote_def backslash_def)
  next
    case 2
    have ch: "char_of (8::nat) = CHR 0x08" "char_of (12::nat) = CHR 0x0C" "char_of (10::nat) = CHR 0x0A"
      "char_of (13::nat) = CHR 0x0D" "char_of (9::nat) = CHR 0x09"
      using char_of_char [of "CHR 0x08"] char_of_char [of "CHR 0x0C"] char_of_char [of "CHR 0x0A"]
        char_of_char [of "CHR 0x0D"] char_of_char [of "CHR 0x09"] by simp_all
    from 2 show ?thesis
      by (auto simp: json_escape_def simple_escape_def dquote_def backslash_def n_def [symmetric] c ch)
  next
    case 3
    have u: "scan_string q acc (backslash # CHR ''u'' # CHR ''0'' # CHR ''0'' # hex_digit (n div 16) # hex_digit (n mod 16) # rest) =
             scan_string q (c # acc) rest"
      using assms hex4_byte [OF n256] n256 c by (simp add: backslash_def dquote_def)
    show ?thesis using 3 u by (simp add: json_escape_def n_def [symmetric] Let_def)
  next
    case 4
    then show ?thesis by (simp add: json_escape_def n_def [symmetric] Let_def)
  qed
qed

lemma scan_string_json_str:
  "scan_string q acc (concat (map json_escape k) @ dquote # rest) = Inr (rev acc @ k, rest)"
proof (induction k arbitrary: acc)
  case Nil
  then show ?case by simp
next
  case (Cons c k)
  have "scan_string q acc (concat (map json_escape (c # k)) @ dquote # rest) =
        scan_string q (c # acc) (concat (map json_escape k) @ dquote # rest)"
    by (simp add: scan_string_escape [symmetric])
  then show ?case using Cons [of "c # acc"] by simp
qed

lemma nat_str_head: "\<exists>d ds. nat_str m = d # ds \<and> (d = CHR ''0'' \<longrightarrow> m = 0 \<and> ds = [])"
proof (induction m rule: nat_str.induct)
  case (1 m)
  show ?case
  proof (cases "m < 10")
    case True
    have "char_of (48 + m) = CHR ''0'' \<Longrightarrow> m = 0"
      using True of_char_of [of "48 + m"] by simp
    then show ?thesis using True by (simp add: nat_str_digit)
  next
    case False
    then have "m div 10 \<noteq> 0" by simp
    with 1 False obtain d ds where "nat_str (m div 10) = d # ds" "d \<noteq> CHR ''0''" by blast
    then show ?thesis using False by (simp add: nat_str_step)
  qed
qed

lemma scan_int_part_digits:
  assumes "list_all is_digit (d # ds)" "d = CHR ''0'' \<longrightarrow> ds = []" "\<forall>c. next_is c rest \<longrightarrow> \<not> is_digit c"
  shows "scan_int_part (d # ds @ rest) = Some (d # ds, rest)"
proof -
  have "takeWhile is_digit rest = [] \<and> dropWhile is_digit rest = rest"
    using assms(3) by (cases rest) (simp_all add: next_is_def)
  then show ?thesis using assms(1,2) by (auto simp: scan_int_part_def list_all_iff)
qed

lemma scan_frac_none: "\<not> next_is CHR ''.'' rest \<Longrightarrow> scan_frac rest = ([], rest)"
  by (auto simp: scan_frac_def next_is_def split: list.split)

lemma scan_frac_digits:
  assumes "list_all is_digit (f # fs)" "\<forall>c. next_is c rest \<longrightarrow> \<not> is_digit c"
  shows "scan_frac (CHR ''.'' # f # fs @ rest) = (CHR ''.'' # f # fs, rest)"
proof -
  have "takeWhile is_digit rest = [] \<and> dropWhile is_digit rest = rest"
    using assms(2) by (cases rest) (simp_all add: next_is_def)
  then show ?thesis using assms(1) by (simp add: scan_frac_def list_all_iff)
qed

lemma scan_exp_none: "\<forall>c. next_is c rest \<longrightarrow> \<not> exp_mark c \<Longrightarrow> scan_exp rest = ([], rest)"
  by (cases rest) (simp_all add: scan_exp_def next_is_def)

lemma scan_exp_digits:
  assumes "exp_mark e" "sg = [] \<or> sg = ''-'' \<or> sg = ''+''" "list_all is_digit (x # xs)"
    "\<forall>c. next_is c rest \<longrightarrow> \<not> is_digit c"
  shows "scan_exp (e # sg @ x # xs @ rest) = (e # sg @ x # xs, rest)"
proof -
  have r: "takeWhile is_digit rest = [] \<and> dropWhile is_digit rest = rest"
    using assms(4) by (cases rest) (simp_all add: next_is_def)
  have "\<not> (x = CHR ''-'' \<or> x = CHR ''+'')" using assms(3) by auto
  then show ?thesis using assms(1,2,3) r by (auto simp: scan_exp_def list_all_iff)
qed

lemma scan_number_parts:
  assumes "sg = [] \<or> sg = ''-''" "ip \<noteq> []" "is_digit (hd ip)"
    "scan_int_part (ip @ fp @ ep @ rest) = Some (ip, fp @ ep @ rest)"
    "scan_frac (fp @ ep @ rest) = (fp, ep @ rest)"
    "scan_exp (ep @ rest) = (ep, rest)"
  shows "scan_number (sg @ ip @ fp @ ep @ rest) = Some (sg @ ip @ fp @ ep, fp \<noteq> [] \<or> ep \<noteq> [], rest)"
proof -
  have "hd ip \<noteq> CHR ''-''" using assms(3) by auto
  then have "(case sg @ ip @ fp @ ep @ rest of c # r \<Rightarrow> if c = CHR ''-'' then ([c], r) else ([], sg @ ip @ fp @ ep @ rest)
              | [] \<Rightarrow> ([], [])) = (sg, ip @ fp @ ep @ rest)"
    using assms(1,2) by (cases ip) auto
  then show ?thesis using assms(4-6) by (simp add: scan_number_def)
qed

lemma nat_str_token:
  "\<exists>d ds. nat_str m = d # ds \<and> list_all is_digit (d # ds) \<and> (d = CHR ''0'' \<longrightarrow> m = 0 \<and> ds = [])"
  using nat_str_head [of m] nat_str_digits [of m] by auto

lemma scan_number_int_str:
  assumes stop: "\<forall>c. next_is c rest \<longrightarrow> \<not> is_digit c \<and> c \<noteq> CHR ''.'' \<and> \<not> exp_mark c"
  shows "scan_number (int_str i @ rest) = Some (int_str i, False, rest)"
proof -
  obtain d ds where h: "nat_str (nat \<bar>i\<bar>) = d # ds" "list_all is_digit (d # ds)"
    "d = CHR ''0'' \<longrightarrow> nat \<bar>i\<bar> = 0 \<and> ds = []"
    using nat_str_token by blast
  have s: "int_str i = (if i < 0 then ''-'' else []) @ d # ds"
    using h(1) by (cases "i < 0") (simp_all add: int_str_def)
  have "scan_int_part (d # ds @ [] @ [] @ rest) = Some (d # ds, [] @ [] @ rest)"
    using scan_int_part_digits [OF h(2)] h(3) stop by simp
  moreover have "scan_frac ([] @ [] @ rest) = ([], [] @ rest)" "scan_exp ([] @ rest) = ([], rest)"
    using stop scan_frac_none [of rest] scan_exp_none [of rest] by auto
  moreover have "is_digit (hd (d # ds))" using h(2) by simp
  ultimately have "scan_number ((if i < 0 then ''-'' else []) @ (d # ds) @ [] @ [] @ rest) =
                   Some ((if i < 0 then ''-'' else []) @ (d # ds) @ [] @ [], False, rest)"
    by (intro scan_number_parts [THEN trans]) simp_all
  then show ?thesis by (simp add: s)
qed

lemma decimal_parts_zero: "decimal_parts r = (0, e) \<Longrightarrow> e \<le> 0"
proof -
  assume dp: "decimal_parts r = (0, e)"
  obtain p q where pq: "quotient_of r = (p, q)" by fastforce
  define k where "k = max (count_factor 2 (nat q)) (count_factor 5 (nat q))"
  obtain m z where mz: "strip_zeros (nat (p * 10 ^ k div q)) = (m, z)" by fastforce
  have "m = 0" "e = int z - int k" using dp pq mz by (simp_all add: decimal_parts_def k_def)
  then have "nat (p * 10 ^ k div q) = 0" using strip_zeros_eq [OF mz] by simp
  then have "z = 0" using mz by (simp add: strip_zeros.simps)
  with \<open>e = int z - int k\<close> show ?thesis by simp
qed

lemma scan_number_fixed:
  assumes stop: "\<forall>c. next_is c rest \<longrightarrow> \<not> is_digit c \<and> c \<noteq> CHR ''.'' \<and> \<not> exp_mark c"
    and sg: "sg = [] \<or> sg = ''-''" and m0: "m = 0 \<longrightarrow> d \<le> 1"
  shows "scan_number (sg @ fixed_repr (nat_str m) d @ rest) = Some (sg @ fixed_repr (nat_str m) d, True, rest)"
proof -
  let ?ds = "nat_str m"
  obtain h t where h: "?ds = h # t" "list_all is_digit (h # t)" "h = CHR ''0'' \<longrightarrow> m = 0 \<and> t = []"
    using nat_str_token by blast
  have st: "\<forall>c. next_is c rest \<longrightarrow> \<not> is_digit c" using stop by blast
  have ex: "scan_exp ([] @ rest) = ([], rest)" using stop scan_exp_none [of rest] by auto
  have part: "scan_number (sg @ ip @ fp @ [] @ rest) = Some (sg @ ip @ fp @ [], True, rest)"
    if "ip = a # as" "list_all is_digit (a # as)" "a = CHR ''0'' \<longrightarrow> as = []"
       "fp = CHR ''.'' # f # fs" "list_all is_digit (f # fs)" for ip a as fp f fs
  proof -
    have "scan_int_part (a # as @ fp @ [] @ rest) = Some (a # as, fp @ [] @ rest)"
      using scan_int_part_digits [OF that(2,3)] that(4) by (simp add: next_is_def)
    moreover have "scan_frac (fp @ [] @ rest) = (fp, [] @ rest)"
      using scan_frac_digits [OF that(5) st] that(4) by simp
    ultimately show ?thesis using scan_number_parts [OF sg, of ip fp "[]" rest] that ex by simp
  qed
  consider "d \<le> 0" | "0 < d" "d < int (length ?ds)" | "int (length ?ds) \<le> d" by linarith
  then show ?thesis
  proof cases
    case 1
    obtain f fs where f: "replicate (nat (- d)) (CHR ''0'') @ ?ds = f # fs" using h(1) by (cases "nat (- d)") auto
    have "list_all is_digit (f # fs)" using f [symmetric] nat_str_digits [of m] by (auto simp: list_all_iff)
    moreover have "fixed_repr ?ds d = ''0'' @ (CHR ''.'' # f # fs) @ []"
      using 1 f by (simp add: fixed_repr_def)
    ultimately show ?thesis using part [of "''0''" "CHR ''0''" "[]" "CHR ''.'' # f # fs" f fs] by simp
  next
    case 2
    have "m \<noteq> 0"
    proof
      assume "m = 0"
      then have "length ?ds = 1" using nat_str_digit [of 0] by simp
      with 2 show False by simp
    qed
    then have hz: "h \<noteq> CHR ''0''" using h(3) by blast
    obtain f fs where f: "drop (nat d) ?ds = f # fs" using 2 by (cases "drop (nat d) ?ds") auto
    have tk: "take (nat d) ?ds = h # take (nat d - 1) t" using 2 h(1) by (cases "nat d") auto
    have "list_all is_digit (h # take (nat d - 1) t)" "list_all is_digit (f # fs)"
      using nat_str_digits [of m] f [symmetric] tk [symmetric] by (auto simp: list_all_iff dest: in_set_takeD in_set_dropD)
    moreover have "fixed_repr ?ds d = (h # take (nat d - 1) t) @ (CHR ''.'' # f # fs) @ []"
      using 2 f tk by (simp add: fixed_repr_def)
    ultimately show ?thesis using part hz by simp
  next
    case 3
    have z: "m = 0 \<longrightarrow> replicate (nat d - length ?ds) (CHR ''0'') = []"
      using m0 3 nat_str_digit [of 0] by auto
    have "list_all is_digit (h # t @ replicate (nat d - length ?ds) (CHR ''0''))"
      using h(2) by (auto simp: list_all_iff)
    moreover have "h = CHR ''0'' \<longrightarrow> t @ replicate (nat d - length ?ds) (CHR ''0'') = []"
      using h(3) z by auto
    moreover have "fixed_repr ?ds d = (h # t @ replicate (nat d - length ?ds) (CHR ''0'')) @ ''.0'' @ []"
      using 3 h(1) by (simp add: fixed_repr_def)
    ultimately show ?thesis
      using part [of "h # t @ replicate (nat d - length ?ds) (CHR ''0'')" h
                     "t @ replicate (nat d - length ?ds) (CHR ''0'')" "''.0''" "CHR ''0''" "[]"]
      by simp
  qed
qed

lemma scan_number_sci:
  assumes stop: "\<forall>c. next_is c rest \<longrightarrow> \<not> is_digit c \<and> c \<noteq> CHR ''.'' \<and> \<not> exp_mark c"
    and sg: "sg = [] \<or> sg = ''-''"
  shows "scan_number (sg @ sci_repr (nat_str m) ex @ rest) = Some (sg @ sci_repr (nat_str m) ex, True, rest)"
proof -
  let ?ds = "nat_str m"
  let ?es = "let es = nat_str (nat \<bar>ex\<bar>) in if length es < 2 then ''0'' @ es else es"
  let ?sgn = "if ex < 0 then ''-'' else ''+''"
  obtain h t where h: "?ds = h # t" "list_all is_digit (h # t)"
    using nat_str_token by blast
  obtain x xs where x: "?es = x # xs" "list_all is_digit (x # xs)"
    using exponent_digits [of "nat \<bar>ex\<bar>"] by (cases ?es) auto
  have st: "\<forall>c. next_is c rest \<longrightarrow> \<not> is_digit c" using stop by blast
  let ?fp = "if 1 < length ?ds then CHR ''.'' # t else []"
  let ?ep = "CHR ''e'' # ?sgn @ x # xs"
  have s: "sci_repr ?ds ex = [h] @ ?fp @ ?ep"
    using h(1) x(1) by (simp add: sci_repr_def)
  have ep: "scan_exp (?ep @ rest) = (?ep, rest)"
    using scan_exp_digits [OF _ _ x(2) st, of "CHR ''e''" ?sgn] by (simp add: exp_mark_def)
  have fp: "scan_frac (?fp @ ?ep @ rest) = (?fp, ?ep @ rest)"
  proof (cases "1 < length ?ds")
    case True
    then obtain f fs where "t = f # fs" using h(1) by (cases t) auto
    moreover have "list_all is_digit t" using h(2) by simp
    ultimately show ?thesis using True scan_frac_digits [of f fs "?ep @ rest"] by (simp add: next_is_def)
  next
    case False
    then show ?thesis by (simp add: scan_frac_none next_is_def)
  qed
  have ip: "scan_int_part ([h] @ ?fp @ ?ep @ rest) = Some ([h], ?fp @ ?ep @ rest)"
  proof -
    have "\<forall>c. next_is c (?fp @ ?ep @ rest) \<longrightarrow> \<not> is_digit c" by (simp add: next_is_def)
    then show ?thesis using scan_int_part_digits [of h "[]"] h(2) by simp
  qed
  have "is_digit (hd [h])" using h(2) by simp
  then show ?thesis unfolding s using scan_number_parts [OF sg _ _ ip fp ep] by simp
qed

lemma scan_number_float_repr:
  assumes stop: "\<forall>c. next_is c rest \<longrightarrow> \<not> is_digit c \<and> c \<noteq> CHR ''.'' \<and> \<not> exp_mark c"
  shows "scan_number (float_repr r @ rest) = Some (float_repr r, True, rest)"
proof (cases "r = 0")
  case True
  have "char_of (48::nat) = CHR ''0''" using char_of_char [of "CHR ''0''"] by simp
  then have "fixed_repr (nat_str 0) 1 = ''0.0''" by (simp add: fixed_repr_def nat_str_digit)
  then show ?thesis using True scan_number_fixed [OF stop, of "[]" 0 1] by (simp add: float_repr_def)
next
  case False
  obtain m e where dp: "decimal_parts \<bar>r\<bar> = (m, e)" by fastforce
  let ?ds = "nat_str m"
  let ?d = "int (length ?ds) + e"
  let ?body = "if ?d \<le> -4 \<or> 16 < ?d then sci_repr ?ds (?d - 1) else fixed_repr ?ds ?d"
  let ?sg = "if r < 0 then ''-'' else []"
  have m0: "m = 0 \<longrightarrow> ?d \<le> 1" using decimal_parts_zero [of "\<bar>r\<bar>" e] dp nat_str_digit [of 0] by auto
  have "float_repr r = ?sg @ ?body" using False dp by (simp add: float_repr_def Let_def)
  moreover have "scan_number (?sg @ ?body @ rest) = Some (?sg @ ?body, True, rest)"
    using scan_number_sci [OF stop, of ?sg m "?d - 1"] scan_number_fixed [OF stop, of ?sg m ?d] m0
    by (cases "?d \<le> -4 \<or> 16 < ?d") simp_all
  ultimately show ?thesis by simp
qed

lemma skip_ws_append: "list_all json_ws w \<Longrightarrow> skip_ws (w @ s) = skip_ws s"
  by (induction w) auto

lemma skip_ws_start: "\<not> json_ws c \<Longrightarrow> skip_ws (c # s) = c # s"
  by simp

lemma newline_indent_ws: "list_all json_ws (newline_indent p l)"
  by (auto simp: newline_indent_def json_ws_def list_all_iff)

lemma join_sep_Cons: "join_sep sep (s # ss) = s @ (if ss = [] then [] else sep @ join_sep sep ss)"
  by (cases ss) simp_all

lemma update_fresh: "k \<notin> set (map fst d) \<Longrightarrow> AList.update k v d = d @ [(k, v)]"
  by (induction d) auto

lemma scan_items_join:
  assumes "xs \<noteq> []"
    and enc: "\<forall>x \<in> set xs. \<forall>rest. (\<forall>c. next_is c rest \<longrightarrow> json_ws c \<or> c = CHR '','' \<or> c = CHR '']'' \<or> c = CHR ''}'')
                 \<longrightarrow> scan Value (enc x @ rest) = Some (Inr (dec x, rest))"
    and start: "\<forall>x \<in> set xs. \<exists>c t. enc x = c # t \<and> \<not> json_ws c"
    and w: "list_all json_ws w" "list_all json_ws w'"
  shows "scan (Items acc) (join_sep (CHR '','' # w) (map enc xs) @ w' @ CHR '']'' # rest) =
           Some (Inr (PList (rev acc @ map dec xs), rest))"
  using assms(1) enc start
proof (induction xs arbitrary: acc rule: induct_list012)
  case (2 x)
  have "scan Value (enc x @ w' @ CHR '']'' # rest) = Some (Inr (dec x, w' @ CHR '']'' # rest))"
    using 2 w(2) by (cases w') (auto simp: next_is_def)
  then show ?case using w(2) by (subst scan.simps) (simp add: skip_ws_append next_is_def json_ws_def)
next
  case (3 x y ys)
  have "scan Value (enc x @ (CHR '','' # w @ join_sep (CHR '','' # w) (map enc (y # ys)) @ w' @ CHR '']'' # rest)) =
        Some (Inr (dec x, CHR '','' # w @ join_sep (CHR '','' # w) (map enc (y # ys)) @ w' @ CHR '']'' # rest))"
    using "3.prems" by (simp add: next_is_def)
  moreover obtain c t where "enc y = c # t" "\<not> json_ws c" using "3.prems" by auto
  then have "skip_ws (w @ join_sep (CHR '','' # w) (map enc (y # ys)) @ w' @ CHR '']'' # rest) =
             join_sep (CHR '','' # w) (map enc (y # ys)) @ w' @ CHR '']'' # rest"
    using w(1) by (simp add: skip_ws_append join_sep_Cons)
  ultimately show ?case
    using "3.IH"(2) [of "dec x # acc"] "3.prems"
    by (subst scan.simps) (simp add: next_is_def json_ws_def)
qed simp

lemma scan_members_join:
  assumes "ps \<noteq> []"
    and enc: "\<forall>(k, x) \<in> set ps. \<forall>rest. (\<forall>c. next_is c rest \<longrightarrow> json_ws c \<or> c = CHR '','' \<or> c = CHR '']'' \<or> c = CHR ''}'')
                 \<longrightarrow> scan Value (enc x @ rest) = Some (Inr (dec x, rest))"
    and start: "\<forall>(k, x) \<in> set ps. \<exists>c t. enc x = c # t \<and> \<not> json_ws c"
    and keys: "distinct (map fst d @ map fst ps)"
    and w: "list_all json_ws w" "list_all json_ws w'" "list_all json_ws kw"
  shows "scan (Members d) (join_sep (CHR '','' # w) (map (\<lambda>(k, x). json_str k @ CHR '':'' # kw @ enc x) ps) @
                           w' @ CHR ''}'' # rest) =
           Some (Inr (PDict (d @ map (\<lambda>(k, x). (k, dec x)) ps), rest))"
  using assms(1) enc start keys
proof (induction ps arbitrary: d rule: induct_list012)
  case (2 p)
  obtain k x where p: "p = (k, x)" by fastforce
  obtain c t where ct: "enc x = c # t" "\<not> json_ws c" using "2.prems" p by auto
  have sk: "skip_ws (kw @ enc x @ s) = enc x @ s" for s using ct w(3) by (simp add: skip_ws_append)
  have v: "scan Value (enc x @ w' @ CHR ''}'' # rest) = Some (Inr (dec x, w' @ CHR ''}'' # rest))"
    using "2.prems" p w(2) by (cases w') (auto simp: next_is_def)
  have k: "k \<notin> set (map fst d)" using "2.prems" p by simp
  show ?case
    using v k w(2) sk scan_string_json_str [of _ "[]" k]
    by (subst scan.simps) (simp add: p json_str_def next_is_def skip_ws_append update_fresh json_ws_def)
next
  case (3 p p2 ps)
  obtain k x where p: "p = (k, x)" by fastforce
  obtain c t where ct: "enc x = c # t" "\<not> json_ws c" using "3.prems" p by auto
  have sk: "skip_ws (kw @ enc x @ s) = enc x @ s" for s using ct w(3) by (simp add: skip_ws_append)
  let ?more = "join_sep (CHR '','' # w) (map (\<lambda>(k, x). json_str k @ CHR '':'' # kw @ enc x) (p2 # ps)) @
               w' @ CHR ''}'' # rest"
  have v: "scan Value (enc x @ CHR '','' # w @ ?more) = Some (Inr (dec x, CHR '','' # w @ ?more))"
    using "3.prems" p by (simp add: next_is_def)
  have k: "k \<notin> set (map fst d)" using "3.prems" p by simp
  have more: "skip_ws (w @ ?more) = ?more"
    using w(1) by (cases p2) (simp add: skip_ws_append join_sep_Cons json_str_def dquote_def json_ws_def)
  have IH: "scan (Members (d @ [(k, dec x)])) ?more =
            Some (Inr (PDict ((d @ [(k, dec x)]) @ map (\<lambda>(k, x). (k, dec x)) (p2 # ps)), rest))"
    using "3.IH"(2) [of "d @ [(k, dec x)]"] "3.prems" p by simp
  show ?case
    using v k sk more IH scan_string_json_str [of _ "[]" k]
    by (subst scan.simps) (simp add: p json_str_def next_is_def update_fresh json_ws_def)
qed simp

lemma digit_not_letter:
  "is_digit d \<Longrightarrow> d \<notin> {CHR ''n'', CHR ''t'', CHR ''f'', CHR ''N'', CHR ''I'', CHR ''-'', dquote,
                            CHR ''{'', CHR ''['', CHR '']'', CHR ''}''} \<and> \<not> json_ws d"
  by (auto simp: is_digit_def dquote_def json_ws_def)

lemma number_start:
  assumes "(\<exists>d r. s = d # r \<and> is_digit d) \<or> (\<exists>d r. s = CHR ''-'' # d # r \<and> is_digit d)"
  shows "named_constant s = None \<and> \<not> non_finite s \<and> \<not> next_is dquote s \<and> \<not> next_is CHR ''{'' s \<and>
         \<not> next_is CHR ''['' s \<and> \<not> next_is CHR '']'' s \<and> \<not> next_is CHR ''}'' s \<and>
         (\<forall>c. next_is c s \<longrightarrow> \<not> json_ws c)"
proof -
  from assms consider d r where "s = d # r" "is_digit d" | d r where "s = CHR ''-'' # d # r" "is_digit d"
    by blast
  then show ?thesis
  proof cases
    case 1
    then show ?thesis using digit_not_letter [of d]
      by (simp add: named_constant_def non_finite_def next_is_def)
  next
    case 2
    then show ?thesis using digit_not_letter [of d]
      by (simp add: named_constant_def non_finite_def next_is_def dquote_def json_ws_def)
  qed
qed

lemma int_str_start: "(\<exists>d r. int_str i = d # r \<and> is_digit d) \<or> (\<exists>d r. int_str i = CHR ''-'' # d # r \<and> is_digit d)"
  using nat_str_token [of "nat \<bar>i\<bar>"] by (cases "i < 0") (auto simp: int_str_def)

lemma float_repr_start:
  "(\<exists>d r. float_repr x = d # r \<and> is_digit d) \<or> (\<exists>d r. float_repr x = CHR ''-'' # d # r \<and> is_digit d)"
proof (cases "x = 0")
  case True
  then show ?thesis by (simp add: float_repr_def is_digit_def)
next
  case False
  obtain m e where dp: "decimal_parts \<bar>x\<bar> = (m, e)" by fastforce
  let ?ds = "nat_str m"
  let ?d = "int (length ?ds) + e"
  let ?body = "if ?d \<le> -4 \<or> 16 < ?d then sci_repr ?ds (?d - 1) else fixed_repr ?ds ?d"
  have "\<exists>c t. ?body = c # t \<and> is_digit c"
    using repr_body_digit [OF nat_str_digits nat_str_nonempty] by simp
  moreover have "float_repr x = (if x < 0 then ''-'' else []) @ ?body"
    using False dp by (simp add: float_repr_def Let_def)
  ultimately show ?thesis by auto
qed

lemma number_value_int_str:
  "length (nat_str (nat \<bar>i\<bar>)) \<le> 4300 \<Longrightarrow> number_value (int_str i) False = Inr (PInt i)"
proof -
  assume l: "length (nat_str (nat \<bar>i\<bar>)) \<le> 4300"
  have f: "filter is_digit (nat_str n) = nat_str n" for n
    using nat_str_digits [of n] by (simp add: list_all_iff)
  obtain d r where "nat_str (nat \<bar>i\<bar>) = d # r" "is_digit d" using nat_str_token by fastforce
  then have "next_is CHR ''-'' (int_str i) \<longleftrightarrow> i < 0"
    by (cases "i < 0") (auto simp: int_str_def next_is_def is_digit_def)
  then show ?thesis using l f by (cases "i < 0") (simp_all add: number_value_def int_str_def)
qed

lemma json_enc_start: "\<exists>c t. json_enc p l v = c # t \<and> \<not> json_ws c \<and> c \<noteq> CHR '']'' \<and> c \<noteq> CHR ''}''"
proof (cases v)
  case (PInt i)
  then show ?thesis using int_str_start [of i] by (auto simp: json_ws_def is_digit_def)
next
  case (PFloat x)
  then show ?thesis using float_repr_start [of x] by (auto simp: json_ws_def is_digit_def)
qed (auto simp: json_str_def json_ws_def dquote_def)

lemma scan_number_value:
  assumes "(\<exists>d r. s = d # r \<and> is_digit d) \<or> (\<exists>d r. s = CHR ''-'' # d # r \<and> is_digit d)"
    and "scan_number (s @ rest) = Some (s, fl, rest)" "number_value s fl = Inr v"
  shows "scan Value (s @ rest) = Some (Inr (v, rest))"
proof -
  obtain c t where s: "s = c # t" using assms(1) by auto
  have "named_constant (s @ rest) = None \<and> \<not> non_finite (s @ rest)"
    using number_start [of "s @ rest"] assms(1) by auto
  moreover have "c \<noteq> dquote" "c \<noteq> CHR ''{''" "c \<noteq> CHR ''[''"
    using number_start [of s] assms(1) s by (auto simp: next_is_def)
  ultimately show ?thesis using assms(2,3) s by (subst scan.simps) simp
qed

lemma scan_json_enc:
  "wf_pyval v \<Longrightarrow> json_readable v \<Longrightarrow>
   (\<forall>c. next_is c rest \<longrightarrow> json_ws c \<or> c = CHR '','' \<or> c = CHR '']'' \<or> c = CHR ''}'') \<Longrightarrow>
   scan Value (json_enc p l v @ rest) = Some (Inr (sort_dicts v, rest))"
proof (induction p l v arbitrary: rest rule: json_enc.induct)
  case (1 p l)
  then show ?case by (subst scan.simps) (simp add: named_constant_def dquote_def)
next
  case (2 p l b)
  then show ?case by (subst scan.simps) (simp add: named_constant_def dquote_def)
next
  case (3 p l i)
  have "\<forall>c. next_is c rest \<longrightarrow> \<not> is_digit c \<and> c \<noteq> CHR ''.'' \<and> \<not> exp_mark c"
    using "3.prems"(3) by (auto simp: json_ws_def is_digit_def exp_mark_def)
  then show ?case
    using scan_number_value [OF int_str_start scan_number_int_str number_value_int_str] "3.prems"(2)
    by simp
next
  case (4 p l x)
  have "\<forall>c. next_is c rest \<longrightarrow> \<not> is_digit c \<and> c \<noteq> CHR ''.'' \<and> \<not> exp_mark c"
    using "4.prems"(3) by (auto simp: json_ws_def is_digit_def exp_mark_def)
  moreover have "number_value (float_repr x) True = Inr (PFloat x)"
    using "4.prems"(2) by (simp add: number_value_def)
  ultimately show ?case
    using scan_number_value [OF float_repr_start scan_number_float_repr] by simp
next
  case (5 p l s)
  then show ?case
    using scan_string_json_str [of _ "[]" s rest]
    by (subst scan.simps) (simp add: json_str_def)
next
  case (6 p l xs)
  show ?case
  proof (cases "xs = []")
    case True
    then show ?thesis by (subst scan.simps) (simp add: next_is_def json_ws_def dquote_def)
  next
    case False
    let ?w = "newline_indent p (Suc l)"
    let ?body = "join_sep (CHR '','' # ?w) (map (json_enc p (Suc l)) xs) @ newline_indent p l @ CHR '']'' # rest"
    obtain c t where ct: "json_enc p (Suc l) (hd xs) = c # t" "\<not> json_ws c" "c \<noteq> CHR '']''"
      using json_enc_start by blast
    have body: "skip_ws (?w @ ?body) = ?body"
      using False ct newline_indent_ws [of p "Suc l"]
      by (cases xs) (simp_all add: skip_ws_append join_sep_Cons)
    have nb: "\<not> next_is CHR '']'' ?body"
      using False ct by (cases xs) (simp_all add: join_sep_Cons next_is_def)
    have en: "\<forall>x \<in> set xs. \<forall>rest. (\<forall>c. next_is c rest \<longrightarrow> json_ws c \<or> c = CHR '','' \<or> c = CHR '']'' \<or> c = CHR ''}'')
                 \<longrightarrow> scan Value (json_enc p (Suc l) x @ rest) = Some (Inr (sort_dicts x, rest))"
      using "6.IH" [OF False] "6.prems"(1,2) by (simp add: list_all_iff)
    have st: "\<forall>x \<in> set xs. \<exists>c t. json_enc p (Suc l) x = c # t \<and> \<not> json_ws c"
      using json_enc_start by blast
    have items: "scan (Items []) ?body = Some (Inr (PList (map sort_dicts xs), rest))"
      using scan_items_join [OF False en st newline_indent_ws newline_indent_ws] by simp
    show ?thesis
      using False body nb items by (subst scan.simps) (simp add: dquote_def)
  qed
next
  case (7 p l kvs)
  show ?case
  proof (cases "kvs = []")
    case True
    then show ?thesis by (subst scan.simps) (simp add: next_is_def json_ws_def dquote_def)
  next
    case False
    let ?ps = "sort_key fst kvs"
    let ?w = "newline_indent p (Suc l)"
    let ?kw = "if p then '' '' else []"
    have ksep: "(if p then '': '' else '':'') = CHR '':'' # ?kw" by simp
    let ?f = "\<lambda>(k, v). json_str k @ CHR '':'' # ?kw @ json_enc p (Suc l) v"
    let ?body = "join_sep (CHR '','' # ?w) (map ?f ?ps) @ newline_indent p l @ CHR ''}'' # rest"
    have ps: "?ps \<noteq> []" "set ?ps = set kvs" using False by (metis set_empty set_sort)+
    have keys: "distinct (map fst [] @ map fst ?ps)"
      using "7.prems"(1) by (simp add: distinct_map)
    have body: "skip_ws (?w @ ?body) = ?body" "\<not> next_is CHR ''}'' ?body"
      using ps(1) newline_indent_ws [of p "Suc l"]
      by (cases ?ps; auto simp: skip_ws_append join_sep_Cons json_str_def next_is_def dquote_def json_ws_def)+
    have ws: "list_all json_ws ?kw" by (simp add: json_ws_def)
    have en: "\<forall>(k, x) \<in> set ?ps. \<forall>rest. (\<forall>c. next_is c rest \<longrightarrow> json_ws c \<or> c = CHR '','' \<or> c = CHR '']'' \<or> c = CHR ''}'')
                 \<longrightarrow> scan Value (json_enc p (Suc l) x @ rest) = Some (Inr (sort_dicts x, rest))"
      using "7.IH" [OF False] "7.prems"(1,2) ps(2) by (fastforce simp: list_all_iff)
    have st: "\<forall>(k, x) \<in> set ?ps. \<exists>c t. json_enc p (Suc l) x = c # t \<and> \<not> json_ws c"
      using json_enc_start by blast
    have members: "scan (Members []) ?body =
                   Some (Inr (PDict ([] @ map (\<lambda>(k, x). (k, sort_dicts x)) ?ps), rest))"
      using scan_members_join [OF ps(1) en st keys newline_indent_ws newline_indent_ws ws] by simp
    show ?thesis
      using False body members by (subst scan.simps) (simp add: ksep dquote_def)
  qed
qed

text \<open>What \<open>jsonify\<close> writes (in either layout), \<open>json.loads\<close> reads back as the value
  with every dict's keys sorted: values with distinct dict keys, \<open>int\<close>s of at most 4300
  digits and floats whose repr reads back.\<close>

lemma jsonify_roundtrip:
  assumes "wf_pyval v" "json_readable v"
  shows "json_loads (jsonify debug v) = Some (Inr (sort_dicts v))"
proof -
  obtain c t where ct: "json_enc debug 0 v = c # t" "\<not> json_ws c" using json_enc_start by blast
  have "scan Value (json_enc debug 0 v @ [CHR 0x0A]) = Some (Inr (sort_dicts v, [CHR 0x0A]))"
    using scan_json_enc [OF assms] by (simp add: next_is_def json_ws_def)
  then show ?thesis using ct by (simp add: json_loads_def jsonify_def json_ws_def)
qed

end
