(* ===== verification/Http.thy ===== *)
theory Http
  imports JsonText Handler
begin

text \<open>
  The route at the level of HTTP: the request body as text and the response body as the
  text \<open>jsonify\<close> writes. \<open>data = request.get_json()\<close> (line 25) is the first statement
  of the \<open>try\<close> block, so its exceptions reach the \<open>except\<close> clause of lines 133--134
  like any other. \<open>get_json\<close> is Werkzeug 3's \<open>Request.get_json\<close> with Flask's
  \<open>on_json_loading_failed\<close>. A request whose http_mimetype is not JSON
  (\<open>application/json\<close> or \<open>application/*+json\<close>) raises \<open>UnsupportedMediaType\<close>
  (415). A body \<open>json.loads\<close> cannot decode raises \<open>BadRequest\<close> (400), which carries the
  decoder's message when the application runs in debug mode (\<open>app.run(debug=True)\<close>,
  line 138) and Werkzeug's generic text otherwise. \<open>str(e)\<close> of either is
  \<open>"<code> <name>: <description>"\<close>.

  \<open>get_json\<close> is \<open>None\<close> only for a body holding a value the model cannot represent
  (\<open>Unmodelled\<close>: \<open>NaN\<close>, \<open>Infinity\<close>, a \<open>\u\<close> escape above \<open>U+00FF\<close>).
  \<open>serve\<close> runs the route on what \<open>get_json\<close> returned and writes the response
  body with \<open>jsonify\<close>.
\<close>

record http_request =
  http_mimetype :: string
  http_body :: string

definition is_json :: "string \<Rightarrow> bool" where
  "is_json mt \<longleftrightarrow>
     mt = ''application/json'' \<or> (take 12 mt = ''application/'' \<and> rev (take 5 (rev mt)) = ''+json'')"

definition unsupported_media_type :: string where
  "unsupported_media_type =
     ''415 Unsupported Media Type: Did not attempt to load JSON data because the request Content-Type was not '' @
     quoted ''application/json'' @ ''.''"

definition bad_request :: "bool \<Rightarrow> string \<Rightarrow> json_error \<Rightarrow> string" where
  "bad_request debug doc e =
     (if debug then ''400 Bad Request: Failed to decode JSON object: '' @ json_error_str doc e
      else ''400 Bad Request: The browser (or proxy) sent a request that this server could not understand.'')"

definition get_json :: "bool \<Rightarrow> http_request \<Rightarrow> (exc + pyval) option" where
  "get_json debug rq =
     (if \<not> is_json (http_mimetype rq) then Some (Inl (LibraryError unsupported_media_type))
      else
        (case json_loads (http_body rq) of
           None \<Rightarrow> None
         | Some (Inr v) \<Rightarrow> Some (Inr v)
         | Some (Inl (Unmodelled k)) \<Rightarrow> None
         | Some (Inl e) \<Rightarrow> Some (Inl (LibraryError (bad_request debug (http_body rq) e)))))"

definition respond :: "bool \<Rightarrow> response \<Rightarrow> nat \<times> string" where
  "respond debug r = (fst r, jsonify debug (snd r))"

definition serve :: "bool \<Rightarrow> pyval \<Rightarrow> service \<Rightarrow> http_request \<Rightarrow> ((nat \<times> string) \<times> call list) option" where
  "serve debug crop_ranges srv rq =
     map_option (\<lambda>req. apfst (respond debug) (analyze_farm crop_ranges srv req)) (get_json debug rq)"

section \<open>A request that get_json rejects\<close>

lemma analyze_farm_raised:
  "analyze_farm crop_ranges srv (Inl e) = ((500, error_body (exc_str e)), [])"
proof -
  have "read_request (Inl e) = Inl e" by (simp add: read_request_def)
  then show ?thesis by (simp add: analyze_farm_body analyze_body_read_error finish_def)
qed

text \<open>C20. A JSON request whose body does not decode is answered 500, not 400: the
  \<open>BadRequest\<close> that \<open>get_json\<close> raises is caught by the route's \<open>except\<close> clause,
  whose body carries the exception's text (in debug mode the decoder's message and
  position), and no remote call is made.\<close>

theorem malformed_body_500:
  assumes "is_json (http_mimetype rq)" "json_loads (http_body rq) = Some (Inl e)" "\<forall>k. e \<noteq> Unmodelled k"
  shows "serve debug crop_ranges srv rq =
           Some ((500, jsonify debug (error_body (bad_request debug (http_body rq) e))), [])"
proof -
  have "get_json debug rq = Some (Inl (LibraryError (bad_request debug (http_body rq) e)))"
    using assms by (cases e) (simp_all add: get_json_def)
  then show ?thesis by (simp add: serve_def analyze_farm_raised respond_def)
qed

text \<open>A body with a trailing comma, as the development server (debug mode) answers it.\<close>

theorem malformed_body_500_witness:
  "serve True (PDict []) (\<lambda>_. Inr PNone)
     \<lparr>http_mimetype = ''application/json'', http_body = ''{\"coordinates\": [[30, 10]],}''\<rparr> =
   Some ((500, jsonify True (error_body
     ''400 Bad Request: Failed to decode JSON object: Expecting property name enclosed in double quotes: line 1 column 28 (char 27)'')),
     [])"
proof -
  have l: "json_loads ''{\"coordinates\": [[30, 10]],}'' =
           Some (Inl (JsonDecodeError ''Expecting property name enclosed in double quotes'' 1))"
    by code_simp
  have m: "bad_request True ''{\"coordinates\": [[30, 10]],}''
             (JsonDecodeError ''Expecting property name enclosed in double quotes'' 1) =
           ''400 Bad Request: Failed to decode JSON object: Expecting property name enclosed in double quotes: line 1 column 28 (char 27)''"
    by code_simp
  have "is_json ''application/json''" by (simp add: is_json_def)
  then show ?thesis
    using malformed_body_500 [where rq = "\<lparr>http_mimetype = ''application/json'', http_body = ''{\"coordinates\": [[30, 10]],}''\<rparr>"
                                and e = "JsonDecodeError ''Expecting property name enclosed in double quotes'' 1"
                                and debug = True and crop_ranges = "PDict []" and srv = "\<lambda>_. Inr PNone"] l m
    by simp
qed

text \<open>C21. A request whose content type is not JSON (a form post, plain text) is answered
  500 with Werkzeug's \<open>415 Unsupported Media Type\<close> text, not the specification's 400,
  before the body is read and before any remote call.\<close>

theorem wrong_content_type_500:
  assumes "\<not> is_json (http_mimetype rq)"
  shows "serve debug crop_ranges srv rq = Some ((500, jsonify debug (error_body unsupported_media_type)), [])"
  using assms by (simp add: serve_def get_json_def analyze_farm_raised respond_def)

text \<open>A plain-text post.\<close>

theorem wrong_content_type_500_witness:
  "serve True (PDict []) (\<lambda>_. Inr PNone) \<lparr>http_mimetype = ''text/plain'', http_body = ''maize''\<rparr> =
   Some ((500, jsonify True (error_body unsupported_media_type)), [])"
  by (rule wrong_content_type_500) (simp add: is_json_def)

end
