(* ===== verification/Server.thy ===== *)
theory Server
  imports Handler
begin

text \<open>
  Module start-up (server.py lines 12--20) and what the table it loads means for the
  route. Start-up runs at import time, in source order: \<open>load_dotenv()\<close>,
  \<open>os.getenv("GOOGLE_PROJECT_ID")\<close>, \<open>ee.Initialize(project=...)\<close> with whatever
  \<open>getenv\<close> returned, and \<open>json.load(open("crop_ndvi_ranges.json"))\<close>. Each is a call
  to an environment oracle \<open>boot_env\<close> that can raise; \<open>startup\<close> threads them
  through the call-recording monad of \<open>Prelude\<close>, and its value is the
  \<open>crop_ranges\<close> every request reads. Nothing checks what \<open>json.load\<close> returned:
  \<open>table_not_dict_500\<close> shows what a table file that is not a JSON object does to every
  valid request.
\<close>

section \<open>Start-up (lines 12--20)\<close>

datatype boot_call =
    LoadDotenv
  | GetEnv string
  | EEInitialize pyval
  | LoadJson string

type_synonym boot_env = "boot_call \<Rightarrow> exc + pyval"

definition startup :: "boot_env \<Rightarrow> (exc, boot_call, pyval) io" where
  "startup env =
     io_bind (io_call env LoadDotenv) (\<lambda>_.
     io_bind (io_call env (GetEnv ''GOOGLE_PROJECT_ID'')) (\<lambda>google_project_id.
     io_bind (io_call env (EEInitialize google_project_id)) (\<lambda>_.
     io_call env (LoadJson ''crop_ndvi_ranges.json''))))"

section \<open>A table that is not a dict\<close>

text \<open>C19. If \<open>crop_ndvi_ranges.json\<close> holds anything but a JSON object, every valid request
  is answered 500 with Python's \<open>AttributeError\<close> for \<open>.get\<close>, before any external
  call.\<close>

theorem table_not_dict_500:
  assumes "read_request req = Inr (coords, crop)" "truthy coords" "crop \<noteq> []" "\<forall>kvs. t \<noteq> PDict kvs"
  shows "analyze_farm t srv req = ((500, error_body (exc_str (no_attribute t ''get''))), [])"
proof -
  have "crop_bounds t crop = Inl (no_attribute t ''get'')"
    using assms(4) by (cases t) (simp_all add: crop_bounds_def)
  with assms(1-3) show ?thesis by (simp add: analyze_farm_body analyze_body_bounds_error)
qed

text \<open>A table file holding a list.\<close>

theorem table_not_dict_500_witness:
  "analyze_farm (PList []) (\<lambda>_. Inr PNone)
     (Inr (PDict [(''coordinates'', PList [PInt 1]), (''crop_type'', PStr ''maize'')])) =
   ((500, error_body (quoted ''list'' @ '' object has no attribute '' @ quoted ''get'')), [])"
proof -
  have "analyze_farm (PList []) (\<lambda>_. Inr PNone)
          (Inr (PDict [(''coordinates'', PList [PInt 1]), (''crop_type'', PStr ''maize'')])) =
        ((500, error_body (exc_str (no_attribute (PList []) ''get''))), [])"
    by (rule table_not_dict_500 [where coords = "PList [PInt 1]" and crop = "''maize''"])
       (simp_all add: read_request_dict lower_char_def)
  then show ?thesis by (simp add: no_attribute_def)
qed

end
