(* ===== verification/Spec2Isabelle.thy ===== *)
theory Spec2Isabelle
  imports EarthEngine Http Server
begin

text \<open>
  \<^bold>\<open>A verified model of the crop-analyzer service (src/server/server.py).\<close>

  \<^bold>\<open>The program.\<close> server.py is a Flask application with one route,
  \<open>POST /analyze-farm\<close> (function \<open>analyze_farm\<close>, lines 22--134). It reads a JSON
  request with a field boundary (\<open>coordinates\<close>) and a crop type, validates both, looks
  the crop's NDVI range up in a table loaded at start-up (\<open>crop_ranges\<close>, lines 18--20),
  asks Google Earth Engine for the Sentinel-2 scenes over the field, checks that their
  median composite has the five bands it needs, computes NDVI, EVI, NDWI and MSI and their
  means over the field, asks the Open-Meteo API for the current weather at the field's
  centroid, classifies crop health by comparing the mean NDVI with the crop's range, and
  answers with a JSON body and an HTTP status. Every failure inside the route is caught by
  one \<open>except Exception\<close> clause and answered with status 500 and the exception's text.

  \<^bold>\<open>The library.\<close>
  \<^item> \<open>Prelude\<close>: fallible computations \<open>exc + 'a\<close> (\<open>ebind\<close>, \<open>emap\<close> for a dict
    literal evaluated entry by entry, \<open>efilter\<close> for a list comprehension) and the
    call-recording monad \<open>('e, 'c, 'a) io\<close>: the outcome paired with the list of external
    calls issued, in order.
  \<^item> \<open>PyRound\<close>: Python's \<open>round(x, 4)\<close> on floats, \<open>round_to\<close> (half to even on the
    exact value); its error bound, monotonicity, symmetry and ties.
  \<^item> \<open>PyValue\<close>: the values JSON decodes to (\<open>pyval\<close>), Python's exceptions with their
    CPython 3.12 messages (\<open>exc\<close>), and the built-ins the route calls: \<open>dict.get\<close>
    (\<open>py_get\<close>), truth (\<open>truthy\<close>), \<open>str.lower\<close>, \<open>str.capitalize\<close>, comparison of a
    number with a value (\<open>py_compare\<close>), \<open>round\<close> (\<open>py_round\<close>), \<open>== 0\<close>,
    two-target unpacking (\<open>py_unpack2\<close>) and \<open>in\<close> (\<open>py_contains\<close>).
  \<^item> \<open>PyRepr\<close>: \<open>repr\<close>/\<open>str\<close> of those values as the f-strings of the route print
    them (floats in CPython's shortest-repr layout, strings with Python's quoting).
  \<^item> \<open>Classify\<close>: the health decision of lines 104--110 (\<open>assess_health\<close>), the
    specification's three-way \<open>classify\<close>, and the law relating them (C1).
  \<^item> \<open>Handler\<close>: the route itself, split as the source is: \<open>read_request\<close> (lines
    25--27), \<open>validate\<close> (29--32), \<open>crop_bounds\<close> (34--35), \<open>fetch_bands\<close> (38--58,
    with \<open>missing_bands\<close>), \<open>fetch_data\<close> (78--97, with \<open>weather_url\<close>),
    \<open>safe_val\<close> and \<open>index_entries\<close> (85--87, 113--121), \<open>assemble\<close> (98--131),
    composed in \<open>analyze_body\<close>; \<open>finish\<close> is the \<open>except\<close> clause and
    \<open>analyze_farm\<close> the whole route. Its lemmas evaluate each stage and carry the
    invariants \<open>returns_only\<close>/\<open>yields_only\<close> through \<open>io_bind\<close>.
  \<^item> \<open>EarthEngine\<close>: what the Earth Engine expressions of lines 41--83 compute.
    \<^item> The collection's three filters (\<open>sentinel_collection\<close>) and the per-pixel median
      composite (\<open>median_composite\<close>).
    \<^item> \<open>normalizedDifference\<close>, the EVI and MSI expressions, \<open>addBands\<close> and the
      mean reducer (\<open>mean_stats_of\<close>).
    \<^item> A \<open>world\<close> record (scene count, composite bands and pixels, centroid, weather API)
      gives \<open>ee_service\<close>, a concrete instance of the oracle; \<open>scene_world\<close> builds
      one from a list of scenes.
    The theory shows that the NDVI and NDWI that \<open>safe_val\<close> reports lie in
    \<open>[-1, 1]\<close> (C15).
  \<^item> \<open>FloatText\<close>: Python's \<open>float()\<close> on decimal text (\<open>parse_float\<close>) and the
    round trip of \<open>float_repr\<close> through it, which the weather request uses (C16).
  \<^item> \<open>JsonText\<close>: the JSON text at the two ends of the route. \<open>json_enc\<close> and
    \<open>jsonify\<close> are Python's \<open>json.dumps\<close> as Flask's \<open>jsonify\<close> calls it
    (sorted keys, ASCII escapes, two-space indentation in debug mode, compact separators
    otherwise). \<open>scan\<close> is CPython's C scanner for \<open>json.loads\<close>. It is one
    \<open>partial_function (option)\<close> over a mode (value, array elements, object members),
    and \<open>json_loads\<close> returns \<open>JSONDecodeError\<close>s with their messages and positions.
    Its lemmas: the scanner returns on every text (\<open>json_loads_total\<close>), and what
    \<open>jsonify\<close> writes reads back as the value with its dict keys sorted
    (\<open>jsonify_roundtrip\<close>).
  \<^item> \<open>Http\<close>: the route at the level of HTTP. \<open>get_json\<close> is line 25's
    \<open>request.get_json()\<close>: Werkzeug's content-type check and \<open>json_loads\<close> on the body,
    with a decoding error turned into \<open>BadRequest\<close>. \<open>serve\<close> runs \<open>analyze_farm\<close>
    on its result and writes the response with \<open>jsonify\<close>. Both HTTP errors reach the
    route's \<open>except\<close> clause and are answered 500 (C20, C21).
  \<^item> \<open>Server\<close>: module start-up (\<open>startup\<close>, lines 12--20) as calls to an environment
    oracle in source order, and what a table file that is not a JSON object does to every
    request (C19).
  \<^item> this theory: the properties of the whole route.

  \<^bold>\<open>Correspondence.\<close> A request is \<open>exc + pyval\<close>: what \<open>request.get_json()\<close>
  raises or returns. The crop table is the \<open>pyval\<close> \<open>json.load\<close> returned. External
  services are one oracle \<open>srv :: call \<Rightarrow> exc + pyval\<close>; a \<open>call\<close> names the
  interaction and its argument (\<open>MakePolygon\<close>, \<open>CollectionSize\<close>, \<open>BandNames\<close>,
  \<open>ReduceMean\<close>, \<open>CentroidCoords\<close> for the Earth Engine polygon and its four
  \<open>getInfo()\<close> round trips, \<open>HttpGetJson url\<close> for \<open>requests.get(url).json()\<close>).
  The Earth Engine requests depend only on the boundary, since the date window, cloud filter,
  band list and scale are constants of the source. A response is the status with the dict
  passed to \<open>jsonify\<close>. The route returns the response and the calls it issued.
  Theorems quantify over every oracle, so they hold whatever the services answer.

  \<^bold>\<open>What is proved.\<close>
  \<^item> Classification (C1): the code's branches are the specification's three-way law,
    bounds inclusive.
  \<^item> Success (C2, C7): with well-typed inputs and answering services, the route issues
    exactly the six calls in source order, querying the weather at latitude = the centroid's
    second coordinate and longitude = its first. It answers 200 with every index rounded to
    4 decimals or 0.0 when absent, the weather passed through, the range text and the
    classified status.
  \<^item> Errors (C3--C6, C8, C12): missing coordinates or crop type give 400 before any
    call; no scene gives 404 after two calls, with no weather request; a missing band gives
    500 with the Python list text; an unknown crop type gives 500 with Python's
    comparison \<open>TypeError\<close>, after all six calls; a crop type that is not a string gives
    500 even when the coordinates are missing.
  \<^item> Shape (C9, C10): every response is 200 with the five assessment keys, or
    400/404/500 with an \<open>{"error": ...}\<close> body; the index set always has the seven keys
    with numeric values.
  \<^item> Rounding (C11): a float region mean is reported as a multiple of \<open>10^-4\<close> within
    \<open>1/20000\<close> of it. Case-insensitivity of the crop type (C13).
  \<^item> The weather reply is not checked (C14): a reply without \<open>current\<close> yields 200 with
    temperature 0 and rain 0.
  \<^item> Against Earth Engine (C15): for any pixels of the region, the NDVI and NDWI the route
    reports lie in \<open>[-1, 1]\<close>.
  \<^item> The weather request (C16): the URL \<open>fetch_data\<close> requests carries the centroid's
    coordinates as texts that \<open>float()\<close> reads back exactly, latitude first.
  \<^item> Call order (C17): the calls are always a prefix of the six in source order, on the
    request's own coordinates.
  \<^item> Against a list of scenes (C18): 404 exactly when no scene passes the filters, the
    end date excluded and 20 per cent cloud excluded.
  \<^item> Start-up (C19): a table file that is not a JSON object makes every valid request
    fail with 500.
  \<^item> HTTP (C20, C21): a JSON body that does not decode and a request that is not JSON are
    answered 500 with Werkzeug's 400 and 415 texts, not 400, and make no remote call.

  \<^bold>\<open>Modelling choices.\<close> Floats are the rationals they denote. \<open>round\<close> rounds that
  rational, which is what CPython does except where a decimal tie is not a tie of the binary
  value. \<open>repr\<close> prints its finite decimal expansion, which is the shortest repr of the
  float it stands for. Strings are lists of code points below 256; case mapping is ASCII.
  A dict is an association list; \<open>dict_get\<close> takes the first binding, and Python dicts
  have distinct keys (\<open>wf_pyval\<close>). No loop of the route is unbounded, so no fuel is
  needed: every function of the model is total and structural, or has a termination proof
  (\<open>count_factor\<close>, \<open>strip_zeros\<close>, \<open>nat_str\<close>, \<open>json_enc\<close>), except the JSON
  scanner. It is a \<open>partial_function (option)\<close>, and \<open>JsonText.json_loads_total\<close>
  proves it returns on every text by strong induction on the length of the text: every
  call reads less text, except that reading an array element starts on the same text.

  \<^bold>\<open>Not modelled.\<close> The imports and the construction of the Flask application and its
  CORS wrapper (lines 1--10) build framework objects and make no call the route depends on.
  Flask's routing, HTTP parsing, threading and the serving loop of \<open>app.run\<close> (lines
  137--138) are framework code; the route is modelled per request (\<open>serve\<close> in
  \<open>Http\<close>). \<open>get_json\<close> leaves out the UTF-8 decoding of the body and the scanner's
  recursion limit. The JSON constants \<open>NaN\<close>,
  \<open>Infinity\<close> and \<open>-Infinity\<close>, and \<open>\u\<close> escapes above \<open>U+00FF\<close>, have no
  value in the model; the scanner stops on them with \<open>Unmodelled\<close>. The Earth
  Engine server and the weather API are the
  oracle \<open>srv\<close>. Most theorems hold for every oracle; \<open>EarthEngine\<close> models one from
  pixels. That model leaves out the selection of pixels inside the polygon at 10 m scale
  (a scene's pixels over the field are given) and band matching across scenes with
  different bands (the composite's band names are given). It also leaves out the area
  weighting of Earth Engine's mean reducer (the mean is the plain mean of the unmasked
  pixels) and the storage type of the bands (values are exact rationals). These are
  computed on Google's servers from data this repository does not hold, so no definition
  of this repository's code is missing for them.
\<close>

section \<open>Example inputs\<close>

text \<open>The specification's end-to-end scenario (section 8): a one-degree square field, wheat
  with NDVI range 0.3--0.7, and a service answering with the scenario's means and weather.\<close>

definition example_ranges :: pyval where
  "example_ranges = PDict [(''wheat'', PDict [(''ndvi_min'', PFloat (3/10)), (''ndvi_max'', PFloat (7/10))])]"

definition example_field :: pyval where
  "example_field = PList [PList [PInt 30, PInt 10], PList [PInt 31, PInt 10],
                          PList [PInt 31, PInt 11], PList [PInt 30, PInt 11]]"

definition example_request :: "string \<Rightarrow> exc + pyval" where
  "example_request crop = Inr (PDict [(''coordinates'', example_field), (''crop_type'', PStr crop)])"

definition example_bands :: "string list" where
  "example_bands = [''B1'', ''B2'', ''B3'', ''B4'', ''B8'', ''B11'', ''B12'']"

definition example_stats :: pyval where
  "example_stats = PDict [(''B2'', PFloat (4/100)), (''B3'', PFloat (5/100)), (''B4'', PFloat (7/100)),
     (''B8'', PFloat (3/10)), (''B11'', PFloat (27/100)), (''NDVI'', PFloat (55/100)),
     (''EVI'', PFloat (4/10)), (''NDWI'', PFloat (1/10)), (''MSI'', PFloat (9/10))]"

definition example_weather :: pyval where
  "example_weather = PDict [(''current'', PDict [(''temperature_2m'', PFloat (57/2)),
     (''relative_humidity_2m'', PInt 40), (''precipitation'', PInt 0), (''rain'', PInt 0),
     (''wind_speed_10m'', PFloat 12)])]"

definition example_service :: "pyval \<Rightarrow> string list \<Rightarrow> pyval \<Rightarrow> pyval \<Rightarrow> service" where
  "example_service scenes bands stats weather c =
     (case c of
        MakePolygon _ \<Rightarrow> Inr PNone
      | CollectionSize _ \<Rightarrow> Inr scenes
      | BandNames _ \<Rightarrow> Inr (PList (map PStr bands))
      | ReduceMean _ \<Rightarrow> Inr stats
      | CentroidCoords _ \<Rightarrow> Inr (PList [PFloat (61/2), PFloat (21/2)])
      | HttpGetJson _ \<Rightarrow> Inr weather)"

lemmas example_defs = example_ranges_def example_field_def example_request_def example_bands_def
  example_stats_def example_weather_def example_service_def

section \<open>Validation\<close>

text \<open>C3. A request whose \<open>coordinates\<close> are missing or falsy (\<open>None\<close>, an empty list,
  \<open>0\<close>, ...) and whose crop type is absent or a string is answered 400 "No coordinates
  provided" before any call to Earth Engine or the weather service.\<close>

theorem no_coordinates_rejected:
  assumes "map_of kvs ''crop_type'' = None \<or> (\<exists>s. map_of kvs ''crop_type'' = Some (PStr s))"
    and "\<not> truthy (dict_get kvs ''coordinates'' PNone)"
  shows "analyze_farm crop_ranges srv (Inr (PDict kvs)) =
           ((400, error_body ''No coordinates provided''), [])"
proof -
  obtain crop where r: "read_request (Inr (PDict kvs)) = Inr (dict_get kvs ''coordinates'' PNone, crop)"
    using assms(1) by (auto simp: read_request_dict)
  with assms(2) show ?thesis
    by (simp add: analyze_farm_body analyze_body_invalid validate_no_coordinates)
qed

theorem no_coordinates_rejected_witness:
  "analyze_farm example_ranges (example_service (PInt 7) example_bands example_stats example_weather)
     (Inr (PDict [(''coordinates'', PList []), (''crop_type'', PStr ''Wheat'')])) =
   ((400, error_body ''No coordinates provided''), [])"
  by (rule no_coordinates_rejected) simp_all

text \<open>C4. A request with truthy coordinates whose crop type is absent or empty is answered
  400 "No crop type provided" before any call.\<close>

theorem no_crop_type_rejected:
  assumes "truthy (dict_get kvs ''coordinates'' PNone)"
    and "map_of kvs ''crop_type'' = None \<or> map_of kvs ''crop_type'' = Some (PStr [])"
  shows "analyze_farm crop_ranges srv (Inr (PDict kvs)) =
           ((400, error_body ''No crop type provided''), [])"
proof -
  have "read_request (Inr (PDict kvs)) = Inr (dict_get kvs ''coordinates'' PNone, [])"
    using assms(2) by (auto simp: read_request_dict)
  with assms(1) show ?thesis
    by (simp add: analyze_farm_body analyze_body_invalid validate_no_crop_type)
qed

theorem no_crop_type_rejected_witness:
  "analyze_farm example_ranges (example_service (PInt 7) example_bands example_stats example_weather)
     (Inr (PDict [(''coordinates'', example_field), (''crop_type'', PStr [])])) =
   ((400, error_body ''No crop type provided''), [])"
  by (rule no_crop_type_rejected) (simp_all add: example_field_def)

text \<open>C12. \<open>.lower()\<close> is applied to the crop type before either check, so a crop type
  that is not a string (JSON \<open>null\<close>, a number, a list) is answered 500 with Python's
  \<open>AttributeError\<close> text, whatever the coordinates are, and before any call.\<close>

theorem crop_type_not_string:
  assumes "map_of kvs ''crop_type'' = Some v" and "\<And>s. v \<noteq> PStr s"
  shows "analyze_farm crop_ranges srv (Inr (PDict kvs)) =
           ((500, error_body (quoted (type_name v) @ '' object has no attribute '' @ quoted ''lower'')), [])"
proof -
  have "py_lower v = Inl (no_attribute v ''lower'')" using assms(2) by (cases v) auto
  then have "read_request (Inr (PDict kvs)) = Inl (no_attribute v ''lower'')"
    using assms(1) by (simp add: read_request_dict)
  then show ?thesis by (simp add: analyze_farm_body analyze_body_read_error no_attribute_def)
qed

theorem crop_type_not_string_witness:
  "analyze_farm example_ranges (example_service (PInt 7) example_bands example_stats example_weather)
     (Inr (PDict [(''crop_type'', PNone)])) =
   ((500, error_body (quoted ''NoneType'' @ '' object has no attribute '' @ quoted ''lower'')), [])"
  using crop_type_not_string [of "[(''crop_type'', PNone)]" PNone example_ranges
          "example_service (PInt 7) example_bands example_stats example_weather"]
  by simp

text \<open>C13. The crop type is case-insensitive: a request and the same request with its crop
  type lower-cased get the same response and issue the same calls.\<close>

theorem case_insensitive:
  "analyze_farm crop_ranges srv (Inr (PDict [(''coordinates'', c), (''crop_type'', PStr s)])) =
   analyze_farm crop_ranges srv (Inr (PDict [(''coordinates'', c), (''crop_type'', PStr (map lower_char s))]))"
  by (simp add: analyze_farm_def analyze_body_def read_request_dict lower_char_idem comp_def)

section \<open>Imagery\<close>

text \<open>C5. When Earth Engine reports no Sentinel-2 scene for the field, the route answers 404
  after exactly two calls (the polygon and the scene count): no band query, no region
  means, no weather request.\<close>

theorem no_imagery_404:
  assumes "read_request req = Inr (coords, crop)" "truthy coords" "crop \<noteq> []"
    and "crop_bounds crop_ranges crop = Inr (ndvi_min, ndvi_max)"
    and "srv (MakePolygon coords) = Inr p" "srv (CollectionSize coords) = Inr n" "py_eq_num n 0"
  shows "analyze_farm crop_ranges srv req =
           ((404, error_body ''No Sentinel-2 images found for the given area/date range.''),
            [MakePolygon coords, CollectionSize coords])"
  using assms by (simp add: analyze_farm_body analyze_body_valid fetch_bands_no_images io_simps)

theorem no_imagery_404_witness:
  "analyze_farm example_ranges (example_service (PInt 0) example_bands example_stats example_weather)
     (example_request ''wheat'') =
   ((404, error_body ''No Sentinel-2 images found for the given area/date range.''),
    [MakePolygon example_field, CollectionSize example_field])"
  by (rule no_imagery_404 [where p = PNone and n = "PInt 0"])
     (code_simp, simp_all add: example_defs crop_bounds_known py_eq_num_def)

text \<open>C6. When the composite lacks required bands, the route answers 500 with the message
  naming the missing bands in the order B2, B3, B4, B8, B11 and the available ones, after
  three calls (no region means, no weather request).\<close>

theorem missing_bands_500:
  assumes "read_request req = Inr (coords, crop)" "truthy coords" "crop \<noteq> []"
    and "crop_bounds crop_ranges crop = Inr (ndvi_min, ndvi_max)"
    and "srv (MakePolygon coords) = Inr p" "srv (CollectionSize coords) = Inr n" "\<not> py_eq_num n 0"
    and "srv (BandNames coords) = Inr (PList (map PStr av))"
    and "filter (\<lambda>b. b \<notin> set av) required_bands \<noteq> []"
  shows "analyze_farm crop_ranges srv req =
           ((500, error_body (missing_msg (filter (\<lambda>b. b \<notin> set av) required_bands) (PList (map PStr av)))),
            [MakePolygon coords, CollectionSize coords, BandNames coords])"
  using assms
  by (simp add: analyze_farm_body analyze_body_valid fetch_bands_missing missing_bands_list io_simps)

text \<open>The specification's scenario: band B11 missing from the composite.\<close>

theorem missing_bands_500_witness:
  "analyze_farm example_ranges
     (example_service (PInt 3) [''B2'', ''B3'', ''B4'', ''B8''] example_stats example_weather)
     (example_request ''wheat'') =
   ((500, error_body (''Missing bands: ['' @ [squote] @ ''B11'' @ [squote] @ '']. Available: ['' @
                      [squote] @ ''B2'' @ [squote] @ '', '' @ [squote] @ ''B3'' @ [squote] @ '', '' @
                      [squote] @ ''B4'' @ [squote] @ '', '' @ [squote] @ ''B8'' @ [squote] @ '']'')),
    [MakePolygon example_field, CollectionSize example_field, BandNames example_field])"
  (is "_ = ?rhs")
proof -
  have "analyze_farm example_ranges
          (example_service (PInt 3) [''B2'', ''B3'', ''B4'', ''B8''] example_stats example_weather)
          (example_request ''wheat'') =
        ((500, error_body (missing_msg (filter (\<lambda>b. b \<notin> set [''B2'', ''B3'', ''B4'', ''B8'']) required_bands)
                                       (PList (map PStr [''B2'', ''B3'', ''B4'', ''B8''])))),
         [MakePolygon example_field, CollectionSize example_field, BandNames example_field])"
    by (rule missing_bands_500 [where p = PNone and n = "PInt 3"])
       (code_simp, simp_all add: example_defs crop_bounds_known py_eq_num_def required_bands_def)
  also have "\<dots> = ?rhs" by code_simp
  finally show ?thesis .
qed

section \<open>The successful evaluation\<close>

text \<open>C7. When every service answers and the checks pass, the route issues exactly six
  calls in source order: polygon, scene count, band names, region means, centroid, and the
  weather request for latitude = the centroid's second coordinate and longitude = its
  first (Earth Engine gives \<open>[lon, lat]\<close>); its response is what \<open>assemble\<close>
  computes from the region means and the weather reply.\<close>

theorem success_call_sequence:
  assumes "read_request req = Inr (coords, crop)" "truthy coords" "crop \<noteq> []"
    and "crop_bounds crop_ranges crop = Inr (ndvi_min, ndvi_max)"
    and "srv (MakePolygon coords) = Inr p" "srv (CollectionSize coords) = Inr n" "\<not> py_eq_num n 0"
    and "srv (BandNames coords) = Inr av" "missing_bands av = Inr []"
    and "srv (ReduceMean coords) = Inr ms" "srv (CentroidCoords coords) = Inr (PList [lon, lat])"
    and "srv (HttpGetJson (weather_url lat lon)) = Inr wr"
  shows "analyze_farm crop_ranges srv req =
           (finish (map_sum Raised id (assemble crop ndvi_min ndvi_max ms wr)),
            [MakePolygon coords, CollectionSize coords, BandNames coords,
             ReduceMean coords, CentroidCoords coords, HttpGetJson (weather_url lat lon)])"
  using assms by (rule analyze_farm_trace)

text \<open>The calls of the scenario with the crop type written in capitals: the weather is
  requested at latitude 10.5 and longitude 30.5 for the centroid \<open>[30.5, 10.5]\<close>.\<close>

theorem success_call_sequence_witness:
  "snd (analyze_farm example_ranges (example_service (PInt 7) example_bands example_stats example_weather)
          (example_request ''WHEAT'')) =
   [MakePolygon example_field, CollectionSize example_field, BandNames example_field,
    ReduceMean example_field, CentroidCoords example_field,
    HttpGetJson ''https://api.open-meteo.com/v1/forecast?latitude=10.5&longitude=30.5&current=temperature_2m,relative_humidity_2m,precipitation,rain,wind_speed_10m'']"
  (is "_ = ?rhs")
proof -
  have "analyze_farm example_ranges (example_service (PInt 7) example_bands example_stats example_weather)
          (example_request ''WHEAT'') =
        (finish (map_sum Raised id (assemble ''wheat'' (PFloat (3/10)) (PFloat (7/10)) example_stats example_weather)),
         [MakePolygon example_field, CollectionSize example_field, BandNames example_field,
          ReduceMean example_field, CentroidCoords example_field,
          HttpGetJson (weather_url (PFloat (21/2)) (PFloat (61/2)))])"
    by (rule success_call_sequence [where p = PNone and n = "PInt 7" and av = "PList (map PStr example_bands)"])
       (code_simp, simp_all add: example_defs crop_bounds_known py_eq_num_def missing_bands_def required_bands_def)
  then have "snd (analyze_farm example_ranges (example_service (PInt 7) example_bands example_stats example_weather)
          (example_request ''WHEAT'')) = [MakePolygon example_field, CollectionSize example_field, BandNames example_field,
          ReduceMean example_field, CentroidCoords example_field,
          HttpGetJson (weather_url (PFloat (21/2)) (PFloat (61/2)))]"
    by simp
  also have "\<dots> = ?rhs" by code_simp
  finally show ?thesis .
qed

text \<open>C2. With well-typed inputs (numeric bounds for the crop, region means that are floats
  or null, a weather reply whose \<open>current\<close> is a dict) and answering services, the route
  answers 200 with the assessment the specification describes: each of the seven indices is
  its region mean rounded to 4 decimals, or 0.0 where Earth Engine gave none; the weather
  fields are passed through with the code's defaults; the range is printed as
  \<open>"min - max"\<close>; and the status is the message of the three-way classification of the
  reported NDVI.\<close>

theorem success_response:
  assumes "read_request req = Inr (coords, crop)" "truthy coords" "crop \<noteq> []"
    and "crop_bounds crop_ranges crop = Inr (lo, hi)" "num_of lo = Some l" "num_of hi = Some h"
    and "srv (MakePolygon coords) = Inr p" "srv (CollectionSize coords) = Inr n" "\<not> py_eq_num n 0"
    and "srv (BandNames coords) = Inr av" "missing_bands av = Inr []"
    and "srv (ReduceMean coords) = Inr (PDict stats)" "float_stats stats"
    and "srv (CentroidCoords coords) = Inr (PList [lon, lat])"
    and "srv (HttpGetJson (weather_url lat lon)) = Inr wr" "py_get wr ''current'' (PDict []) = Inr (PDict cur)"
  shows "fst (analyze_farm crop_ranges srv req) =
     (200, PDict
       [(''indices'', PDict (reported_indices stats)),
        (''weather'', PDict [(''temperature'', dict_get cur ''temperature_2m'' (PInt 0)),
                             (''humidity'', dict_get cur ''relative_humidity_2m'' PNone),
                             (''wind_speed'', dict_get cur ''wind_speed_10m'' PNone),
                             (''rain'', dict_get cur ''rain'' (PInt 0))]),
        (''crop_type'', PStr crop),
        (''healthy_range'', PStr (py_str lo @ '' - '' @ py_str hi)),
        (''health_status'', PStr (health_msg crop (classify (reported_index stats ''NDVI'') l h)))])"
proof -
  have "assemble crop lo hi (PDict stats) wr = Inr (200, PDict
       [(''indices'', PDict (reported_indices stats)),
        (''weather'', PDict [(''temperature'', dict_get cur ''temperature_2m'' (PInt 0)),
                             (''humidity'', dict_get cur ''relative_humidity_2m'' PNone),
                             (''wind_speed'', dict_get cur ''wind_speed_10m'' PNone),
                             (''rain'', dict_get cur ''rain'' (PInt 0))]),
        (''crop_type'', PStr crop),
        (''healthy_range'', PStr (py_str lo @ '' - '' @ py_str hi)),
        (''health_status'', PStr (health_msg crop (classify (reported_index stats ''NDVI'') l h)))])"
    by (rule assemble_ok [OF assms(13,5,6,16)])
  with assms show ?thesis
    by (simp add: analyze_farm_body analyze_body_valid fetch_bands_ok fetch_data_ok handler_simps)
qed

text \<open>The specification's end-to-end scenario: the wheat field is healthy, the range reads
  \<open>"0.3 - 0.7"\<close>, the indices are the provider's values and the weather is passed
  through.\<close>

theorem success_response_witness:
  "fst (analyze_farm example_ranges (example_service (PInt 7) example_bands example_stats example_weather)
          (example_request ''Wheat'')) =
   (200, PDict
       [(''indices'', PDict [(''NDVI'', PFloat (55/100)), (''EVI'', PFloat (4/10)), (''NDWI'', PFloat (1/10)),
                            (''MSI'', PFloat (9/10)), (''GREEN'', PFloat (5/100)), (''RED'', PFloat (7/100)),
                            (''NIR'', PFloat (3/10))]),
        (''weather'', PDict [(''temperature'', PFloat (57/2)), (''humidity'', PInt 40),
                             (''wind_speed'', PFloat 12), (''rain'', PInt 0)]),
        (''crop_type'', PStr ''wheat''), (''healthy_range'', PStr ''0.3 - 0.7''),
        (''health_status'', PStr ''Wheat crop appears Healthy.'')])"
  (is "_ = ?rhs")
proof -
  let ?stats = "[(''B2'', PFloat (4/100)), (''B3'', PFloat (5/100)), (''B4'', PFloat (7/100)),
     (''B8'', PFloat (3/10)), (''B11'', PFloat (27/100)), (''NDVI'', PFloat (55/100)),
     (''EVI'', PFloat (4/10)), (''NDWI'', PFloat (1/10)), (''MSI'', PFloat (9/10))]"
  let ?cur = "[(''temperature_2m'', PFloat (57/2)), (''relative_humidity_2m'', PInt 40),
     (''precipitation'', PInt 0), (''rain'', PInt 0), (''wind_speed_10m'', PFloat 12)]"
  have "fst (analyze_farm example_ranges (example_service (PInt 7) example_bands example_stats example_weather)
          (example_request ''Wheat'')) =
     (200, PDict
       [(''indices'', PDict (reported_indices ?stats)),
        (''weather'', PDict [(''temperature'', dict_get ?cur ''temperature_2m'' (PInt 0)),
                             (''humidity'', dict_get ?cur ''relative_humidity_2m'' PNone),
                             (''wind_speed'', dict_get ?cur ''wind_speed_10m'' PNone),
                             (''rain'', dict_get ?cur ''rain'' (PInt 0))]),
        (''crop_type'', PStr ''wheat''),
        (''healthy_range'', PStr (py_str (PFloat (3/10)) @ '' - '' @ py_str (PFloat (7/10)))),
        (''health_status'', PStr (health_msg ''wheat'' (classify (reported_index ?stats ''NDVI'') (3/10) (7/10))))])"
    by (rule success_response [where p = PNone and n = "PInt 7" and av = "PList (map PStr example_bands)"
          and lon = "PFloat (61/2)" and lat = "PFloat (21/2)" and wr = example_weather])
       (code_simp, simp_all add: example_defs crop_bounds_known py_eq_num_def missing_bands_def
          required_bands_def float_stats_def)
  also have "\<dots> = ?rhs" by code_simp
  finally show ?thesis .
qed

section \<open>Unknown crop types\<close>

text \<open>C8. A crop type that is not in the range table gives \<open>None\<close> bounds, and the first
  comparison \<open>mean_ndvi < ndvi_min\<close> raises Python's \<open>TypeError\<close>: the route answers
  500 with "'<' not supported between instances of 'float' and 'NoneType'", and only
  after all six calls, so both remote services were queried for a request that cannot be
  assessed.\<close>

theorem unknown_crop_500:
  assumes "read_request req = Inr (coords, crop)" "truthy coords" "crop \<noteq> []"
    and "map_of rs crop = None"
    and "srv (MakePolygon coords) = Inr p" "srv (CollectionSize coords) = Inr n" "\<not> py_eq_num n 0"
    and "srv (BandNames coords) = Inr av" "missing_bands av = Inr []"
    and "srv (ReduceMean coords) = Inr (PDict stats)" "map_of stats ''NDVI'' = Some (PFloat r)"
    and "srv (CentroidCoords coords) = Inr (PList [lon, lat])"
    and "srv (HttpGetJson (weather_url lat lon)) = Inr wr" "py_get wr ''current'' (PDict []) = Inr (PDict cur)"
  shows "analyze_farm (PDict rs) srv req =
           ((500, error_body (quoted ''<'' @ '' not supported between instances of '' @
                              quoted ''float'' @ '' and '' @ quoted ''NoneType'')),
            [MakePolygon coords, CollectionSize coords, BandNames coords,
             ReduceMean coords, CentroidCoords coords, HttpGetJson (weather_url lat lon)])"
proof -
  have b: "crop_bounds (PDict rs) crop = Inr (PNone, PNone)" using assms(4) by (simp add: crop_bounds_dict)
  have "assemble crop PNone PNone (PDict stats) wr =
          Inl (TypeError (quoted ''<'' @ '' not supported between instances of '' @
                          quoted ''float'' @ '' and '' @ quoted ''NoneType''))"
    using assms(11,14) by (simp add: assemble_def safe_val_float assess_health_min_not_num)
  with assms b show ?thesis
    by (simp add: analyze_farm_body analyze_body_valid fetch_bands_ok fetch_data_ok handler_simps)
qed

theorem unknown_crop_500_witness:
  "analyze_farm example_ranges (example_service (PInt 7) example_bands example_stats example_weather)
     (example_request ''Rice'') =
   ((500, error_body (quoted ''<'' @ '' not supported between instances of '' @
                      quoted ''float'' @ '' and '' @ quoted ''NoneType'')),
    [MakePolygon example_field, CollectionSize example_field, BandNames example_field,
     ReduceMean example_field, CentroidCoords example_field,
     HttpGetJson (weather_url (PFloat (21/2)) (PFloat (61/2)))])"
  unfolding example_ranges_def
  by (rule unknown_crop_500 [where p = PNone and n = "PInt 7" and av = "PList (map PStr example_bands)"
        and r = "11/20" and wr = example_weather])
     (code_simp, simp_all add: example_defs py_eq_num_def missing_bands_def required_bands_def, simp_all)

section \<open>Weather replies\<close>

text \<open>C14. The weather reply is not checked: when it has no \<open>current\<close> field (as
  Open-Meteo's error replies have not), the route still answers 200, reporting temperature
  0, rain 0, and no humidity or wind speed.\<close>

theorem weather_reply_without_current:
  assumes "read_request req = Inr (coords, crop)" "truthy coords" "crop \<noteq> []"
    and "crop_bounds crop_ranges crop = Inr (lo, hi)" "num_of lo = Some l" "num_of hi = Some h"
    and "srv (MakePolygon coords) = Inr p" "srv (CollectionSize coords) = Inr n" "\<not> py_eq_num n 0"
    and "srv (BandNames coords) = Inr av" "missing_bands av = Inr []"
    and "srv (ReduceMean coords) = Inr (PDict stats)" "float_stats stats"
    and "srv (CentroidCoords coords) = Inr (PList [lon, lat])"
    and "srv (HttpGetJson (weather_url lat lon)) = Inr (PDict w)" "map_of w ''current'' = None"
  shows "\<exists>kvs. fst (analyze_farm crop_ranges srv req) = (200, PDict kvs) \<and>
           map_of kvs ''weather'' = Some (PDict [(''temperature'', PInt 0), (''humidity'', PNone),
                                                (''wind_speed'', PNone), (''rain'', PInt 0)])"
proof -
  have "py_get (PDict w) ''current'' (PDict []) = Inr (PDict [])" using assms(16) by simp
  with assms(5,6,13) have "assemble crop lo hi (PDict stats) (PDict w) = Inr (200, PDict
       [(''indices'', PDict (reported_indices stats)),
        (''weather'', PDict [(''temperature'', PInt 0), (''humidity'', PNone),
                             (''wind_speed'', PNone), (''rain'', PInt 0)]),
        (''crop_type'', PStr crop),
        (''healthy_range'', PStr (py_str lo @ '' - '' @ py_str hi)),
        (''health_status'', PStr (health_msg crop (classify (reported_index stats ''NDVI'') l h)))])"
    by (simp add: assemble_ok)
  with assms show ?thesis
    by (simp add: analyze_farm_body analyze_body_valid fetch_bands_ok fetch_data_ok handler_simps)
qed

theorem weather_reply_without_current_witness:
  "\<exists>kvs. fst (analyze_farm example_ranges
                (example_service (PInt 7) example_bands example_stats
                   (PDict [(''error'', PBool True), (''reason'', PStr ''Rate limit exceeded'')]))
                (example_request ''wheat'')) = (200, PDict kvs) \<and>
         map_of kvs ''weather'' = Some (PDict [(''temperature'', PInt 0), (''humidity'', PNone),
                                              (''wind_speed'', PNone), (''rain'', PInt 0)])"
  by (rule weather_reply_without_current [where p = PNone and n = "PInt 7" and av = "PList (map PStr example_bands)"
        and lon = "PFloat (61/2)" and lat = "PFloat (21/2)" and l = "3/10" and h = "7/10"])
     (code_simp, simp_all add: example_defs crop_bounds_known py_eq_num_def missing_bands_def
        required_bands_def float_stats_def, simp_all add: float_stats_def)

section \<open>The weather request\<close>

text \<open>C16. The weather request carries the field's centroid exactly (lines 90--97): when
  the centroid \<open>getInfo()\<close> returns \<open>[lon, lat]\<close> as floats, the third call is the
  Open-Meteo URL whose \<open>latitude\<close> parameter reads back (\<open>float()\<close>) as the second
  coordinate and whose \<open>longitude\<close> parameter reads back as the first, whatever the
  weather service then answers.\<close>

theorem weather_request_coordinates:
  assumes "srv (ReduceMean c) = Inr ms" "srv (CentroidCoords c) = Inr (PList [PFloat lon, PFloat lat])"
    and "lon = of_int a / 10 ^ i" "lat = of_int b / 10 ^ j"
  shows "\<exists>s t. snd (fetch_data srv c) =
                   [ReduceMean c, CentroidCoords c,
                    HttpGetJson (''https://api.open-meteo.com/v1/forecast?latitude='' @ s @ ''&longitude='' @ t @
                                 ''&current=temperature_2m,relative_humidity_2m,precipitation,rain,wind_speed_10m'')] \<and>
                 parse_float s = Some lat \<and> parse_float t = Some lon"
proof -
  have "snd (fetch_data srv c) = [ReduceMean c, CentroidCoords c, HttpGetJson (weather_url (PFloat lat) (PFloat lon))]"
    using assms(1,2)
    by (cases "srv (HttpGetJson (weather_url (PFloat lat) (PFloat lon)))")
       (simp_all add: fetch_data_def handler_simps py_unpack2_def)
  moreover have "parse_float (float_repr lat) = Some lat" "parse_float (float_repr lon) = Some lon"
    using float_repr_roundtrip [of b j] float_repr_roundtrip [of a i] assms(3,4) by simp_all
  ultimately show ?thesis by (auto simp: weather_url_def py_str_def)
qed

text \<open>The scenario's field, whose centroid is \<open>(30.5, 10.5)\<close>.\<close>

theorem weather_request_coordinates_witness:
  "\<exists>s t. snd (fetch_data (example_service (PInt 7) example_bands example_stats example_weather) example_field) =
           [ReduceMean example_field, CentroidCoords example_field,
            HttpGetJson (''https://api.open-meteo.com/v1/forecast?latitude='' @ s @ ''&longitude='' @ t @
                         ''&current=temperature_2m,relative_humidity_2m,precipitation,rain,wind_speed_10m'')] \<and>
         parse_float s = Some (21 / 2) \<and> parse_float t = Some (61 / 2)"
  by (rule weather_request_coordinates [where a = 305 and i = 1 and b = 105 and j = 1])
     (simp_all add: example_service_def)

section \<open>Shape of every response\<close>

text \<open>C9. No partial results (spec section 7): whatever the request and whatever the
  services answer, the response is either 200 with exactly the five assessment keys
  (\<open>indices\<close>, \<open>weather\<close>, \<open>crop_type\<close>, \<open>healthy_range\<close>, \<open>health_status\<close>) or
  400, 404 or 500 with a body \<open>{"error": msg}\<close>.\<close>

theorem response_shape:
  "case fst (analyze_farm crop_ranges srv req) of (status, body) \<Rightarrow>
     (status = 200 \<and> (\<exists>kvs. body = PDict kvs \<and> map fst kvs = assessment_keys)) \<or>
     (status \<in> {400, 404, 500} \<and> (\<exists>msg. body = error_body msg))"
proof (cases "fst (analyze_body crop_ranges srv req)")
  case (Inl f)
  show ?thesis
  proof (cases f)
    case (Raised e)
    with Inl show ?thesis by (auto simp: analyze_farm_body)
  next
    case (Returned r)
    with Inl analyze_body_returns [of crop_ranges srv req] have "error_response r"
      by (simp add: returns_only_def)
    with Inl Returned show ?thesis by (auto simp: analyze_farm_body error_response_def)
  qed
next
  case (Inr r)
  with analyze_body_yields [of crop_ranges srv req]
  have "fst r = 200 \<and> (\<exists>kvs. snd r = PDict kvs \<and> map fst kvs = assessment_keys)"
    by (simp add: yields_only_def)
  with Inr show ?thesis by (cases r) (simp add: analyze_farm_body)
qed

text \<open>C10. The index set always has the seven keys NDVI, EVI, NDWI, MSI, GREEN, RED, NIR,
  in this order, each with a numeric value (spec section 3: never null).\<close>

theorem indices_seven_keys:
  assumes "index_entries ms = Inr es"
  shows "map fst es = [''NDVI'', ''EVI'', ''NDWI'', ''MSI'', ''GREEN'', ''RED'', ''NIR''] \<and>
         list_all (\<lambda>e. num_of (snd e) \<noteq> None) es"
proof -
  have keys: "map fst es = map fst index_keys" using assms by (rule index_entries_Inr)
  then have len: "length es = length index_keys" by (metis length_map)
  have "num_of (snd (es ! i)) \<noteq> None" if "i < length es" for i
    using index_entries_Inr(2) [OF assms] that len safe_val_num by auto
  then have "list_all (\<lambda>e. num_of (snd e) \<noteq> None) es" by (simp add: list_all_length)
  with keys show ?thesis by (simp add: index_keys_def)
qed

theorem indices_seven_keys_witness:
  "map fst (reported_indices [(''NDVI'', PFloat (123456789/1000000000)), (''EVI'', PNone)]) =
     [''NDVI'', ''EVI'', ''NDWI'', ''MSI'', ''GREEN'', ''RED'', ''NIR''] \<and>
   list_all (\<lambda>e. num_of (snd e) \<noteq> None) (reported_indices [(''NDVI'', PFloat (123456789/1000000000)), (''EVI'', PNone)]) \<and>
   reported_index [(''NDVI'', PFloat (123456789/1000000000)), (''EVI'', PNone)] ''NDVI'' = 1235/10000"
proof -
  let ?st = "[(''NDVI'', PFloat (123456789/1000000000)), (''EVI'', PNone)]"
  have e: "index_entries (PDict ?st) = Inr (reported_indices ?st)"
    by (rule index_entries_float_stats) (simp add: float_stats_def)
  have "reported_index ?st ''NDVI'' = 1235/10000" by code_simp
  with indices_seven_keys [OF e] show ?thesis by simp
qed

section \<open>Rounding of the reported values\<close>

text \<open>C11. \<open>safe_val\<close> reports a float mean rounded to four decimals (lines 85--87): the
  reported value is a multiple of \<open>10^-4\<close> within half a unit in the fourth decimal of
  the region mean (spec section 4.1, value normalisation).\<close>

theorem reported_value_rounded:
  assumes "map_of kvs name = Some (PFloat x)"
  shows "\<exists>k. safe_val (PDict kvs) name = Inr (PFloat (of_int k / 10 ^ 4)) \<and>
             \<bar>of_int k / 10 ^ 4 - x\<bar> \<le> 1 / 20000"
proof -
  obtain k where k: "round_to x 4 = of_int k / 10 ^ 4" using round_to_scaled by blast
  have "safe_val (PDict kvs) name = Inr (PFloat (of_int k / 10 ^ 4))"
    unfolding k [symmetric] by (rule safe_val_float [OF assms])
  moreover have "\<bar>of_int k / 10 ^ 4 - x\<bar> \<le> 1 / 20000"
    unfolding k [symmetric] using round_to_error [of x 4] by simp
  ultimately show ?thesis by blast
qed

text \<open>The specification's rounding law: \<open>0.123456789\<close> is reported as \<open>0.1235\<close>.\<close>

theorem reported_value_rounded_witness:
  "\<exists>k. safe_val (PDict [(''NDVI'', PFloat (123456789 / 1000000000))]) ''NDVI'' = Inr (PFloat (of_int k / 10 ^ 4)) \<and>
       \<bar>of_int k / 10 ^ 4 - 123456789 / 1000000000\<bar> \<le> (1 / 20000 :: rat)"
  by (rule reported_value_rounded) simp

section \<open>Call order\<close>

text \<open>C17. Whatever the request and the services answer, the route's external calls are a
  prefix of the six calls in source order, each on the request's own \<open>coordinates\<close>. A
  request whose body cannot be read makes no call.\<close>

theorem call_trace_prefix:
  "case read_request req of
     Inl e \<Rightarrow> snd (analyze_farm crop_ranges srv req) = []
   | Inr (coords, crop) \<Rightarrow>
       \<exists>url. prefix (snd (analyze_farm crop_ranges srv req))
               [MakePolygon coords, CollectionSize coords, BandNames coords,
                ReduceMean coords, CentroidCoords coords, HttpGetJson url]"
proof (cases "read_request req")
  case (Inl e)
  then show ?thesis by (simp add: analyze_farm_body analyze_body_read_error)
next
  case (Inr cc)
  obtain coords crop where cc: "cc = (coords, crop)" by fastforce
  obtain u where fd: "emits [ReduceMean coords, CentroidCoords coords, HttpGetJson u] (fetch_data srv coords)"
    using fetch_data_emits by blast
  have "emits ([] @ [] @ [MakePolygon coords, CollectionSize coords, BandNames coords] @
                [ReduceMean coords, CentroidCoords coords, HttpGetJson u] @ [])
          (analyze_body crop_ranges srv req)"
    unfolding analyze_body_read [OF Inr [unfolded cc]]
    by (intro emits_bind emits_case_prod validate_emits fetch_bands_emits fd emits_basic)
  then show ?thesis using Inr cc by (auto simp: emits_def analyze_farm_body)
qed


section \<open>Against a collection of scenes\<close>

text \<open>C18. When Earth Engine holds a list of scenes (\<open>EarthEngine.scene_world\<close>), a valid
  request is answered 404 exactly when no scene passes the three filters of lines 41--46:
  intersecting the field, acquired from 2025-08-01 up to but not including 2025-10-11,
  and less than 20 per cent cloudy. Otherwise the answer is 200 or 500.\<close>

theorem empty_collection_404:
  assumes "read_request req = Inr (coords, crop)" "truthy coords" "crop \<noteq> []"
    and "crop_bounds crop_ranges crop = Inr (lo, hi)"
  shows "fst (fst (analyze_farm crop_ranges (ee_service (scene_world bands scenes c wapi)) req)) = 404 \<longleftrightarrow>
         \<not> (\<exists>s \<in> set scenes. intersects_field s \<and> (2025, 8, 1) \<le> scene_date s \<and>
                             scene_date s < (2025, 10, 11) \<and> cloudy_pixel_percentage s < 20)"
  using ee_status_404_iff [OF assms]
  by (simp add: scene_world_def Let_def sentinel_collection_filter filter_empty_conv)

text \<open>The five example scenes: without the two that pass, the route answers 404; with them,
  it does not.\<close>

theorem empty_collection_404_witness:
  "fst (fst (analyze_farm example_ranges
      (ee_service (scene_world example_bands (drop 2 example_scenes) (61/2, 21/2) (\<lambda>_. Inr example_weather)))
      (example_request ''wheat''))) = 404 \<and>
   fst (fst (analyze_farm example_ranges
      (ee_service (scene_world example_bands example_scenes (61/2, 21/2) (\<lambda>_. Inr example_weather)))
      (example_request ''wheat''))) \<noteq> 404"
proof -
  have r: "read_request (example_request ''wheat'') = Inr (example_field, ''wheat'')"
    "truthy example_field" "''wheat'' \<noteq> []"
    "crop_bounds example_ranges ''wheat'' = Inr (PFloat (3/10), PFloat (7/10))"
    by (simp_all add: example_defs read_request_dict crop_bounds_known lower_char_def)
  show ?thesis
    using empty_collection_404 [OF r, of "example_bands" "drop 2 example_scenes" "(61/2, 21/2)" "\<lambda>_. Inr example_weather"]
      empty_collection_404 [OF r, of "example_bands" "example_scenes" "(61/2, 21/2)" "\<lambda>_. Inr example_weather"]
    by (simp add: example_scenes_def)
qed

end
